theory Spec2Isabelle
  imports Complex_Main "HOL-Library.AList"
begin

section \<open>The user-session coordinator: data model\<close>

text \<open>
  The development embeds \<^verbatim>\<open>UserSessionActor\<close> (user_session_actor.py) and its
  \<^verbatim>\<open>RequestHandlingMixin\<close> (request_handling.py): the two tables of pending
  records, the handlers of the inbound replies, the readiness check and the periodic sweep.

  Conventions of the embedding.
  \<^item> A point in time (\<^verbatim>\<open>datetime\<close>) and a duration (\<^verbatim>\<open>total_seconds()\<close>) are
    rational numbers of seconds. The source compares durations, which are whole numbers of
    microseconds, with the constants 0.5, 2.0 and 30 only; these comparisons are exact.
    Every \<^verbatim>\<open>datetime.now()\<close> read during one handler invocation yields the argument
    \<open>now\<close> of that invocation.
  \<^item> A Python \<^verbatim>\<open>dict\<close> that the code iterates over is an association list in insertion
    order (\<open>map_of\<close> reads, \<open>AList.update\<close> assigns, \<open>AList.delete\<close> removes).
  \<^item> A key of a record that the code adds only on some paths is a field of type
    \<open>entry\<close> or \<open>option\<close>, so that "key absent", "key bound to None" and "key bound to a
    value" stay apart.
  \<^item> Session objects are shared by reference between \<^verbatim>\<open>_sessions\<close> and the pending
    limit checks; they live in an explicit store \<open>objs\<close>, addressed by natural numbers.
  \<^item> \<^verbatim>\<open>uuid.uuid4()\<close>, the clock, the attached actor system and the mixins whose
    code is not part of the embedded files (mode detection, prompt policy, long-term-memory
    policy) are parameters.
  \<^item> Of the logger calls the warnings are kept, as effects; handlers and the sweep run
    without interleaving.
\<close>

type_synonym time = rat

datatype 'a entry = Missing | PyNone | Present 'a

text \<open>\<^verbatim>\<open>d.get(key, default)\<close>: the default is used for an absent key only.\<close>

fun get_default :: "'a entry \<Rightarrow> 'a \<Rightarrow> 'a entry" where
  "get_default Missing d = Present d"
| "get_default PyNone d = PyNone"
| "get_default (Present v) d = Present v"

text \<open>\<^verbatim>\<open>d.get(key, False)\<close> on a flag, read as a truth value.\<close>

fun get_flag :: "bool option \<Rightarrow> bool" where
  "get_flag None = False"
| "get_flag (Some b) = b"

record settings =
  DAILY_MESSAGE_LIMIT :: int
  MODE_HISTORY_SIZE :: nat
  PYDANTIC_CONFIDENCE_MIN :: rat
  PYDANTIC_CONFIDENCE_MAX :: rat
  STM_CONTEXT_SIZE_FOR_GENERATION :: int
  STM_CONTEXT_REQUEST_TIMEOUT :: rat
  LTM_EMBEDDING_REQUEST_TIMEOUT :: rat
  LTM_REQUEST_TIMEOUT :: rat
  LTM_CONTEXT_LIMIT :: int
  LTM_REQUEST_ENABLED :: bool
  AUTH_CHECK_TIMEOUT :: rat
  AUTH_FALLBACK_TO_DEMO :: bool

text \<open>The values of config/settings.py.\<close>

definition default_settings :: settings where
  "default_settings =
     \<lparr>DAILY_MESSAGE_LIMIT = 10, MODE_HISTORY_SIZE = 5,
      PYDANTIC_CONFIDENCE_MIN = 0, PYDANTIC_CONFIDENCE_MAX = 1,
      STM_CONTEXT_SIZE_FOR_GENERATION = 20, STM_CONTEXT_REQUEST_TIMEOUT = 30,
      LTM_EMBEDDING_REQUEST_TIMEOUT = 2, LTM_REQUEST_TIMEOUT = 1 / 2,
      LTM_CONTEXT_LIMIT = 3, LTM_REQUEST_ENABLED = True,
      AUTH_CHECK_TIMEOUT = 2, AUTH_FALLBACK_TO_DEMO = True\<rparr>"

record UserSession =
  user_id :: string
  username :: "string option"
  message_count :: int
  created_at :: time
  last_activity :: time
  current_mode :: string
  mode_confidence :: rat
  mode_history :: "string list"
  last_mode_change :: "time option"
  last_emotion_vector :: "(string \<times> rat) list option"
  last_user_text :: "string option"

text \<open>\<^verbatim>\<open>UserSession(user_id=user_id, username=username)\<close> with the class defaults.\<close>

definition new_session :: "time \<Rightarrow> string \<Rightarrow> string option \<Rightarrow> UserSession" where
  "new_session now uid uname =
     \<lparr>user_id = uid, username = uname, message_count = 0, created_at = now,
      last_activity = now, current_mode = ''talk'', mode_confidence = 0,
      mode_history = [], last_mode_change = None, last_emotion_vector = None,
      last_user_text = None\<rparr>"

definition valid_modes :: "string list" where
  "valid_modes = [''talk'', ''expert'', ''creative'', ''base'']"

record session_data =
  sd_username :: "string option"
  sd_created_at :: time

text \<open>
  A value of \<^verbatim>\<open>_pending_requests\<close>. The first nine keys are written when the record is
  created; the others are added later, on some paths only.
\<close>

record PendingRequest =
  req_user_id :: string
  req_chat_id :: int
  req_text :: string
  req_include_prompt :: bool
  req_message_count :: int
  req_session_data :: session_data
  req_mode :: string
  req_mode_confidence :: rat
  req_timestamp :: time
  expecting_ltm :: "bool option"
  ltm_search_type :: "string option"
  stm_received :: "bool option"
  ltm_received :: "bool option"
  stm_context :: "string list entry"
  ltm_memories :: "string list entry"
  ltm_request_timestamp :: "time option"
  expecting_embedding :: "bool option"
  embedding_received :: "bool option"
  query_vector :: "rat list entry"

text \<open>A value of \<^verbatim>\<open>_pending_limits\<close>; \<open>lim_session\<close> is the reference to the session object.\<close>

record PendingLimit =
  lim_user_id :: string
  lim_timestamp :: time
  lim_chat_id :: int
  lim_text :: string
  lim_username :: "string option"
  lim_session :: nat

record generate_payload =
  gen_user_id :: string
  gen_chat_id :: int
  gen_text :: string
  gen_include_prompt :: bool
  gen_message_count :: int
  gen_session_data :: session_data
  gen_mode :: string
  gen_mode_confidence :: rat
  historical_context :: "string list entry"
  gen_ltm_memories :: "string list entry"

datatype notice_text =
    LimitWarning int int
  | SubscriptionExpiring int
  | SubscriptionExpiringPlain
  | SubscriptionExpiringToday

text \<open>The messages the actor sends, one constructor for each message type and payload.\<close>

datatype ActorMessage =
    STORE_MEMORY string string "string option" time
  | CHECK_LIMIT string string
  | ANALYZE_EMOTION string string
  | GET_CONTEXT string string int
  | GENERATE_EMBEDDING string "(string \<times> rat) list" string
  | GET_LTM_MEMORY string string "rat list option" int string
  | GENERATE_RESPONSE generate_payload
  | BOT_RESPONSE string int notice_text
  | LIMIT_EXCEEDED string int int int

datatype event =
    SessionCreatedEvent string "string option" time
  | ModeDetectedEvent string string rat "string option" time
  | PromptInclusionEvent string int string
  | LimitExceededEvent string int int

datatype warning =
    UnknownRequestId string "string option"
  | LtmSearchFailed string
  | EmptyEmbedding
  | EmbeddingFailed
  | DailyLimitExceeded string int int
  | ContextRequestTimeout string
  | LimitCheckTimeout string

datatype effect =
    Send string ActorMessage
  | AppendEvent event
  | LogWarning warning

datatype error = KeyError string | AttributeError | ValidationError string

record state =
  sessions :: "(string \<times> nat) list"
  objs :: "nat \<Rightarrow> UserSession"
  next_obj :: nat
  pending_requests :: "(string \<times> PendingRequest) list"
  pending_limits :: "(string \<times> PendingLimit) list"
  actor_system :: bool

text \<open>
  What one invocation leaves behind: the state as mutated so far, the effects in the order
  they happened, and the exception that ended it, if one did.
\<close>

record outcome =
  state_of :: state
  effects :: "effect list"
  raised :: "error option"

definition ret :: "state \<Rightarrow> outcome" where
  "ret s = \<lparr>state_of = s, effects = [], raised = None\<rparr>"

definition emit :: "effect \<Rightarrow> state \<Rightarrow> outcome" where
  "emit e s = \<lparr>state_of = s, effects = [e], raised = None\<rparr>"

definition raise :: "error \<Rightarrow> state \<Rightarrow> outcome" where
  "raise x s = \<lparr>state_of = s, effects = [], raised = Some x\<rparr>"

text \<open>Sequencing: what follows an exception does not run.\<close>

definition seq :: "outcome \<Rightarrow> (state \<Rightarrow> outcome) \<Rightarrow> outcome" where
  "seq r f =
     (case raised r of
        Some x \<Rightarrow> r
      | None \<Rightarrow> (let r' = f (state_of r) in r'\<lparr>effects := effects r @ effects r'\<rparr>))"

text \<open>
  \<^verbatim>\<open>await self.get_actor_system().send_message(target, msg)\<close>: without an actor system
  the call is made on None.
\<close>

definition send :: "string \<Rightarrow> ActorMessage \<Rightarrow> state \<Rightarrow> outcome" where
  "send target msg s =
     (if actor_system s then emit (Send target msg) s else raise AttributeError s)"

text \<open>The same call under \<^verbatim>\<open>if self.get_actor_system():\<close>.\<close>

definition send_if_system :: "string \<Rightarrow> ActorMessage \<Rightarrow> state \<Rightarrow> outcome" where
  "send_if_system target msg s =
     (if actor_system s then emit (Send target msg) s else ret s)"

text \<open>The collaborators whose code lies outside the embedded files.\<close>

record collaborators =
  determine_generation_mode :: "string \<Rightarrow> UserSession \<Rightarrow> string \<times> rat"
  should_include_prompt :: "UserSession \<Rightarrow> bool"
  get_prompt_reason :: "UserSession \<Rightarrow> string"
  should_request_ltm :: "string \<Rightarrow> UserSession \<Rightarrow> bool \<times> string"

section \<open>The readiness check\<close>

definition set_request :: "string \<Rightarrow> PendingRequest \<Rightarrow> state \<Rightarrow> state" where
  "set_request request_id pending s =
     s\<lparr>pending_requests := AList.update request_id pending (pending_requests s)\<rparr>"

definition pop_request :: "string \<Rightarrow> state \<Rightarrow> state" where
  "pop_request request_id s =
     s\<lparr>pending_requests := AList.delete request_id (pending_requests s)\<rparr>"

definition pop_limit :: "string \<Rightarrow> state \<Rightarrow> state" where
  "pop_limit request_id s =
     s\<lparr>pending_limits := AList.delete request_id (pending_limits s)\<rparr>"

text \<open>The embedding is marked received, though none came.\<close>

definition without_embedding :: "PendingRequest \<Rightarrow> PendingRequest" where
  "without_embedding pending =
     pending\<lparr>embedding_received := Some True, query_vector := PyNone\<rparr>"

definition fallback_to_recent_search :: "settings \<Rightarrow> string \<Rightarrow> state \<Rightarrow> outcome" where
  "fallback_to_recent_search cfg request_id s =
     (case map_of (pending_requests s) request_id of
        None \<Rightarrow> ret s
      | Some pending \<Rightarrow>
          send ''ltm''
            (GET_LTM_MEMORY (req_user_id pending) ''recent'' None (LTM_CONTEXT_LIMIT cfg)
               request_id)
            (set_request request_id (without_embedding pending) s))"

definition ready_payload :: "PendingRequest \<Rightarrow> generate_payload" where
  "ready_payload pending =
     \<lparr>gen_user_id = req_user_id pending, gen_chat_id = req_chat_id pending,
      gen_text = req_text pending, gen_include_prompt = req_include_prompt pending,
      gen_message_count = req_message_count pending,
      gen_session_data = req_session_data pending, gen_mode = req_mode pending,
      gen_mode_confidence = req_mode_confidence pending,
      historical_context = get_default (stm_context pending) [],
      gen_ltm_memories = get_default (ltm_memories pending) []\<rparr>"

text \<open>
  \<^verbatim>\<open>elapsed > timeout\<close> under \<^verbatim>\<open>if ltm_timestamp:\<close>; a record without the
  timestamp never times out.
\<close>

definition elapsed_exceeds :: "time \<Rightarrow> time option \<Rightarrow> rat \<Rightarrow> bool" where
  "elapsed_exceeds now ltm_timestamp timeout =
     (case ltm_timestamp of None \<Rightarrow> False | Some t \<Rightarrow> now - t > timeout)"

definition check_ready_to_generate :: "settings \<Rightarrow> time \<Rightarrow> string \<Rightarrow> state \<Rightarrow> outcome" where
  "check_ready_to_generate cfg now request_id s =
     (case map_of (pending_requests s) request_id of
        None \<Rightarrow> ret s
      | Some pending \<Rightarrow>
          (let stm_ready = get_flag (stm_received pending);
               expecting = get_flag (expecting_ltm pending);
               ltm_ready = get_flag (ltm_received pending)
           in if get_flag (expecting_embedding pending)
                 \<and> \<not> get_flag (embedding_received pending)
              then (if elapsed_exceeds now (ltm_request_timestamp pending)
                         (LTM_EMBEDDING_REQUEST_TIMEOUT cfg)
                    then fallback_to_recent_search cfg request_id s
                    else ret s)
              else
                (let ltm_timeout = (expecting \<and> \<not> ltm_ready
                        \<and> elapsed_exceeds now (ltm_request_timestamp pending)
                             (LTM_REQUEST_TIMEOUT cfg));
                     ready = (stm_ready \<and> (ltm_ready \<or> \<not> expecting \<or> ltm_timeout))
                 in if \<not> ready then ret s
                    else send_if_system ''generation''
                           (GENERATE_RESPONSE (ready_payload pending))
                           (pop_request request_id s))))"

section \<open>The handlers of the partial replies\<close>

text \<open>The payloads of the inbound messages; an optional key is an \<open>option\<close>.\<close>

record context_response =
  ctx_request_id :: "string option"
  messages :: "string list option"

record ltm_response =
  ltm_request_id :: "string option"
  ltm_success :: "bool option"
  results :: "string list option"

record embedding_response =
  emb_request_id :: "string option"
  emb_success :: "bool option"
  embedding :: "rat list option"

text \<open>
  The guard \<^verbatim>\<open>if not request_id or request_id not in table\<close> and the read that follows
  it: the id and its record when the id is present, non-empty and in the table. The second
  guard of the handlers, \<^verbatim>\<open>if not pending\<close>, never fires: a record is a dictionary
  of at least nine keys.
\<close>

definition find_pending :: "string option \<Rightarrow> (string \<times> 'v) list \<Rightarrow> (string \<times> 'v) option" where
  "find_pending request_id table =
     (case request_id of
        None \<Rightarrow> None
      | Some r \<Rightarrow> if r = [] then None else map_option (Pair r) (map_of table r))"

text \<open>The writes of the handlers to the pending record.\<close>

definition with_context :: "context_response \<Rightarrow> PendingRequest \<Rightarrow> PendingRequest" where
  "with_context m pending =
     pending\<lparr>stm_context := Present (case messages m of None \<Rightarrow> [] | Some ms \<Rightarrow> ms),
             stm_received := Some True\<rparr>"

definition with_memories :: "ltm_response \<Rightarrow> PendingRequest \<Rightarrow> PendingRequest" where
  "with_memories m pending =
     (if get_flag (ltm_success m)
      then pending\<lparr>ltm_memories := Present (case results m of None \<Rightarrow> [] | Some rs \<Rightarrow> rs),
                   ltm_received := Some True\<rparr>
      else pending\<lparr>ltm_memories := Present [], ltm_received := Some True\<rparr>)"

definition with_embedding :: "rat list \<Rightarrow> PendingRequest \<Rightarrow> PendingRequest" where
  "with_embedding v pending =
     pending\<lparr>query_vector := Present v, embedding_received := Some True\<rparr>"

definition handle_context_response ::
  "settings \<Rightarrow> time \<Rightarrow> context_response \<Rightarrow> state \<Rightarrow> outcome" where
  "handle_context_response cfg now m s =
     (case find_pending (ctx_request_id m) (pending_requests s) of
        None \<Rightarrow> emit (LogWarning (UnknownRequestId ''CONTEXT_RESPONSE'' (ctx_request_id m))) s
      | Some (request_id, pending) \<Rightarrow>
          check_ready_to_generate cfg now request_id
            (set_request request_id (with_context m pending) s))"

definition handle_ltm_response ::
  "settings \<Rightarrow> time \<Rightarrow> ltm_response \<Rightarrow> state \<Rightarrow> outcome" where
  "handle_ltm_response cfg now m s =
     (case find_pending (ltm_request_id m) (pending_requests s) of
        None \<Rightarrow> emit (LogWarning (UnknownRequestId ''LTM_RESPONSE'' (ltm_request_id m))) s
      | Some (request_id, pending) \<Rightarrow>
          (if get_flag (ltm_success m)
           then check_ready_to_generate cfg now request_id
                  (set_request request_id (with_memories m pending) s)
           else seq (emit (LogWarning (LtmSearchFailed request_id))
                       (set_request request_id (with_memories m pending) s))
                    (check_ready_to_generate cfg now request_id)))"

definition handle_embedding_response ::
  "settings \<Rightarrow> embedding_response \<Rightarrow> state \<Rightarrow> outcome" where
  "handle_embedding_response cfg m s =
     (case find_pending (emb_request_id m) (pending_requests s) of
        None \<Rightarrow> emit (LogWarning (UnknownRequestId ''EMBEDDING_RESPONSE'' (emb_request_id m))) s
      | Some (request_id, pending) \<Rightarrow>
          (if get_flag (emb_success m)
           then (case embedding m of
                   Some (x # xs) \<Rightarrow>
                     send ''ltm''
                       (GET_LTM_MEMORY (req_user_id pending) ''vector'' (Some (x # xs))
                          (LTM_CONTEXT_LIMIT cfg) request_id)
                       (set_request request_id (with_embedding (x # xs) pending) s)
                 | _ \<Rightarrow>
                     seq (emit (LogWarning EmptyEmbedding) s)
                         (fallback_to_recent_search cfg request_id))
           else seq (emit (LogWarning EmbeddingFailed) s)
                    (fallback_to_recent_search cfg request_id)))"

section \<open>Continuing a turn after the limit check\<close>

text \<open>
  Assignment to a validated field of the pydantic model (\<^verbatim>\<open>validate_assignment=True\<close>).
\<close>

definition assign_current_mode :: "string \<Rightarrow> UserSession \<Rightarrow> error + UserSession" where
  "assign_current_mode v session =
     (if v \<in> set valid_modes then Inr (session\<lparr>current_mode := v\<rparr>)
      else Inl (ValidationError ''current_mode''))"

definition assign_mode_confidence ::
  "settings \<Rightarrow> rat \<Rightarrow> UserSession \<Rightarrow> error + UserSession" where
  "assign_mode_confidence cfg v session =
     (if \<not> (PYDANTIC_CONFIDENCE_MIN cfg \<le> v \<and> v \<le> PYDANTIC_CONFIDENCE_MAX cfg)
      then Inl (ValidationError ''mode_confidence'')
      else Inr (session\<lparr>mode_confidence := v\<rparr>))"

text \<open>
  \<^verbatim>\<open>session.mode_history.append(new_mode)\<close>, then \<^verbatim>\<open>pop(0)\<close> when the list has
  grown beyond the cap. The list mutates in place, so no validator runs.
\<close>

definition append_mode :: "settings \<Rightarrow> string \<Rightarrow> string list \<Rightarrow> string list" where
  "append_mode cfg new_mode history =
     (let h = history @ [new_mode]
      in if length h > MODE_HISTORY_SIZE cfg then tl h else h)"

definition store_session :: "nat \<Rightarrow> UserSession \<Rightarrow> state \<Rightarrow> state" where
  "store_session ref session s = s\<lparr>objs := (objs s)(ref := session)\<rparr>"

text \<open>
  \<^verbatim>\<open>session.mode_history[-2] if len(session.mode_history) > 1 else None\<close>.
\<close>

definition previous_mode :: "string list \<Rightarrow> string option" where
  "previous_mode h = (if length h > 1 then Some (h ! (length h - 2)) else None)"

text \<open>
  Lines 102 to 144 of request_handling.py: mode detection and the update of the session.
  The event omits the detection details, which only the mode detector writes.
\<close>

definition update_session_mode ::
  "settings \<Rightarrow> collaborators \<Rightarrow> time \<Rightarrow> PendingLimit \<Rightarrow> state \<Rightarrow> outcome" where
  "update_session_mode cfg pol now pending s =
     (let ref = lim_session pending;
          session = objs s ref;
          (new_mode, confidence) = determine_generation_mode pol (lim_text pending) session;
          mode_changed = (new_mode \<noteq> current_mode session);
          session1 = (if mode_changed then session\<lparr>last_mode_change := Some now\<rparr>
                      else session)
      in case (if mode_changed then assign_current_mode new_mode session1
               else Inr session1) of
           Inl x \<Rightarrow> raise x (store_session ref session1 s)
         | Inr session2 \<Rightarrow>
             (case assign_mode_confidence cfg confidence session2 of
                Inl x \<Rightarrow> raise x (store_session ref session2 s)
              | Inr session3 \<Rightarrow>
                  (let session4 = session3\<lparr>mode_history :=
                                     append_mode cfg new_mode (mode_history session3)\<rparr>;
                       session5 = session4\<lparr>message_count := message_count session4 + 1,
                                           last_activity := now\<rparr>
                   in \<lparr>state_of = store_session ref session5 s,
                       effects =
                         (if mode_changed
                          then [AppendEvent
                                  (ModeDetectedEvent (lim_user_id pending) new_mode confidence
                                     (previous_mode (mode_history session4)) now)]
                          else []),
                       raised = None\<rparr>)))"

text \<open>Lines 146 to 178: the prompt decision and the new pending generation record.\<close>

definition new_request :: "time \<Rightarrow> bool \<Rightarrow> PendingLimit \<Rightarrow> UserSession \<Rightarrow> PendingRequest" where
  "new_request now include_prompt pending session =
     \<lparr>req_user_id = lim_user_id pending, req_chat_id = lim_chat_id pending,
      req_text = lim_text pending, req_include_prompt = include_prompt,
      req_message_count = message_count session,
      req_session_data =
        \<lparr>sd_username = username session, sd_created_at = created_at session\<rparr>,
      req_mode = current_mode session, req_mode_confidence = mode_confidence session,
      req_timestamp = now,
      expecting_ltm = None, ltm_search_type = None, stm_received = None,
      ltm_received = None, stm_context = Missing, ltm_memories = Missing,
      ltm_request_timestamp = None, expecting_embedding = None,
      embedding_received = None, query_vector = Missing\<rparr>"

definition register_request ::
  "collaborators \<Rightarrow> time \<Rightarrow> string \<Rightarrow> PendingLimit \<Rightarrow> state \<Rightarrow> outcome" where
  "register_request pol now request_id pending s =
     (let session = objs s (lim_session pending);
          include_prompt = should_include_prompt pol session
      in \<lparr>state_of = set_request request_id (new_request now include_prompt pending session) s,
          effects =
            (if include_prompt
             then [AppendEvent
                     (PromptInclusionEvent (lim_user_id pending) (message_count session)
                        (get_prompt_reason pol session))]
             else []),
          raised = None\<rparr>)"

text \<open>
  Lines 196 to 252: the long-term-memory leg. Each write goes through
  \<^verbatim>\<open>self._pending_requests[request_id]\<close>, a subscript that raises on an absent key.
\<close>

definition request_ltm ::
  "settings \<Rightarrow> collaborators \<Rightarrow> time \<Rightarrow> string \<Rightarrow> PendingLimit \<Rightarrow> state \<Rightarrow> outcome" where
  "request_ltm cfg pol now request_id pending s =
     (if \<not> LTM_REQUEST_ENABLED cfg then ret s
      else
        (let session = objs s (lim_session pending);
             (need_ltm, search_type) = should_request_ltm pol (lim_text pending) session
         in case map_of (pending_requests s) request_id of
              None \<Rightarrow> raise (KeyError request_id) s
            | Some r \<Rightarrow>
                (if need_ltm
                 then
                   (let r1 = r\<lparr>expecting_ltm := Some True,
                                ltm_search_type := Some search_type,
                                stm_received := Some False, ltm_received := Some False,
                                stm_context := PyNone, ltm_memories := PyNone,
                                ltm_request_timestamp := Some now\<rparr>
                    in if search_type = ''vector''
                       then send ''ltm''
                              (GENERATE_EMBEDDING (lim_text pending)
                                 (case last_emotion_vector session of
                                    None \<Rightarrow> [] | Some v \<Rightarrow> v)
                                 request_id)
                              (set_request request_id
                                 (r1\<lparr>expecting_embedding := Some True,
                                     embedding_received := Some False\<rparr>) s)
                       else send ''ltm''
                              (GET_LTM_MEMORY (lim_user_id pending) search_type None
                                 (LTM_CONTEXT_LIMIT cfg) request_id)
                              (set_request request_id r1 s))
                 else ret (set_request request_id
                             (r\<lparr>expecting_ltm := Some False, stm_received := Some False,
                                ltm_received := Some False, stm_context := PyNone,
                                ltm_memories := PyNone\<rparr>) s))))"

definition continue_message_processing ::
  "settings \<Rightarrow> collaborators \<Rightarrow> time \<Rightarrow> string \<Rightarrow> PendingLimit \<Rightarrow> state \<Rightarrow> outcome" where
  "continue_message_processing cfg pol now request_id pending s =
     seq (seq (seq (seq
       (send_if_system ''perception''
          (ANALYZE_EMOTION (lim_user_id pending) (lim_text pending)) s)
       (update_session_mode cfg pol now pending))
       (register_request pol now request_id pending))
       (send ''memory''
          (GET_CONTEXT (lim_user_id pending) request_id
             (STM_CONTEXT_SIZE_FOR_GENERATION cfg))))
       (request_ltm cfg pol now request_id pending)"

section \<open>The limit verdict\<close>

text \<open>
  A flag that the code reads only for its truth value is a \<open>bool\<close> (an absent key reads
  false); a key read by subscript or with a default is an \<open>option\<close>.
\<close>

record limit_response =
  is_status_check :: bool
  is_auth_check :: bool
  lr_request_id :: "string option"
  approaching_limit :: bool
  messages_remaining :: "int option"
  limit :: "int option"
  subscription_expiring :: bool
  days_remaining :: "int option"
  unlimited :: bool
  messages_today :: "int option"

definition limit_warning :: "limit_response \<Rightarrow> PendingLimit \<Rightarrow> state \<Rightarrow> outcome" where
  "limit_warning m pending s =
     (if approaching_limit m
      then (case messages_remaining m of
              None \<Rightarrow> raise (KeyError ''messages_remaining'') s
            | Some remaining \<Rightarrow>
                (case limit m of
                   None \<Rightarrow> raise (KeyError ''limit'') s
                 | Some l \<Rightarrow>
                     send_if_system ''telegram''
                       (BOT_RESPONSE (lim_user_id pending) (lim_chat_id pending)
                          (LimitWarning remaining l)) s))
      else ret s)"

definition expiry_warning :: "limit_response \<Rightarrow> PendingLimit \<Rightarrow> state \<Rightarrow> outcome" where
  "expiry_warning m pending s =
     (if subscription_expiring m
      then (case days_remaining m of
              None \<Rightarrow> raise (KeyError ''days_remaining'') s
            | Some d \<Rightarrow>
                send_if_system ''telegram''
                  (BOT_RESPONSE (lim_user_id pending) (lim_chat_id pending)
                     (if d > 0 then SubscriptionExpiring d
                      else if d = 0 then SubscriptionExpiringToday
                      else SubscriptionExpiringPlain)) s)
      else ret s)"

text \<open>\<^verbatim>\<open>not unlimited and messages_today >= limit\<close>, with the defaults of the reads.\<close>

definition denies :: "settings \<Rightarrow> limit_response \<Rightarrow> bool" where
  "denies cfg m =
     (\<not> unlimited m
      \<and> (case messages_today m of None \<Rightarrow> 0 | Some n \<Rightarrow> n)
          \<ge> (case limit m of None \<Rightarrow> DAILY_MESSAGE_LIMIT cfg | Some l \<Rightarrow> l))"

definition limit_verdict ::
  "settings \<Rightarrow> collaborators \<Rightarrow> time \<Rightarrow> string \<Rightarrow> limit_response \<Rightarrow> PendingLimit
     \<Rightarrow> state \<Rightarrow> outcome" where
  "limit_verdict cfg pol now uuid m pending s =
     (let today = (case messages_today m of None \<Rightarrow> 0 | Some n \<Rightarrow> n);
          l = (case limit m of None \<Rightarrow> DAILY_MESSAGE_LIMIT cfg | Some l \<Rightarrow> l)
      in if denies cfg m
         then seq (seq (emit (LogWarning (DailyLimitExceeded (lim_user_id pending) today l)) s)
                       (emit (AppendEvent (LimitExceededEvent (lim_user_id pending) today l))))
                  (send_if_system ''telegram''
                     (LIMIT_EXCEEDED (lim_user_id pending) (lim_chat_id pending) today l))
         else continue_message_processing cfg pol now uuid pending s)"

definition handle_limit_response ::
  "settings \<Rightarrow> collaborators \<Rightarrow> time \<Rightarrow> string \<Rightarrow> limit_response \<Rightarrow> state \<Rightarrow> outcome" where
  "handle_limit_response cfg pol now uuid m s =
     (if is_status_check m \<or> is_auth_check m then ret s
      else
        (case find_pending (lr_request_id m) (pending_limits s) of
           None \<Rightarrow> emit (LogWarning (UnknownRequestId ''LIMIT_RESPONSE'' (lr_request_id m))) s
         | Some (request_id, pending) \<Rightarrow>
             seq (seq (limit_warning m pending (pop_limit request_id s))
                      (expiry_warning m pending))
                 (limit_verdict cfg pol now uuid m pending)))"

section \<open>Turn ingestion\<close>

record user_message =
  um_user_id :: string
  um_username :: "string option"
  um_text :: string
  um_chat_id :: int

definition get_or_create_session :: "time \<Rightarrow> string \<Rightarrow> string option \<Rightarrow> state \<Rightarrow> outcome" where
  "get_or_create_session now uid uname s =
     (case map_of (sessions s) uid of
        Some ref \<Rightarrow> ret s
      | None \<Rightarrow>
          emit (AppendEvent (SessionCreatedEvent uid uname now))
            (s\<lparr>objs := (objs s)(next_obj s := new_session now uid uname),
               next_obj := Suc (next_obj s),
               sessions := AList.update uid (next_obj s) (sessions s)\<rparr>))"

text \<open>
  \<^verbatim>\<open>_handle_user_message\<close> up to its first \<^verbatim>\<open>return None\<close>; the statements after
  it never run.
\<close>

definition handle_user_message ::
  "time \<Rightarrow> string \<Rightarrow> user_message \<Rightarrow> state \<Rightarrow> outcome" where
  "handle_user_message now uuid m s =
     seq (get_or_create_session now (um_user_id m) (um_username m) s)
       (\<lambda>s1. case map_of (sessions s1) (um_user_id m) of
                None \<Rightarrow> raise (KeyError (um_user_id m)) s1
              | Some ref \<Rightarrow>
                  seq (send_if_system ''memory''
                         (STORE_MEMORY (um_user_id m) (um_text m) (um_username m) now)
                         (store_session ref
                            ((objs s1 ref)\<lparr>last_user_text := Some (um_text m)\<rparr>) s1))
                      (\<lambda>s2. send ''auth'' (CHECK_LIMIT (um_user_id m) uuid)
                               (s2\<lparr>pending_limits :=
                                     AList.update uuid
                                       \<lparr>lim_user_id = um_user_id m, lim_timestamp = now,
                                        lim_chat_id = um_chat_id m, lim_text = um_text m,
                                        lim_username = um_username m, lim_session = ref\<rparr>
                                       (pending_limits s2)\<rparr>)))"

section \<open>The periodic sweep\<close>

definition expired_ids :: "rat \<Rightarrow> time \<Rightarrow> ('v \<Rightarrow> time) \<Rightarrow> (string \<times> 'v) list \<Rightarrow> string list" where
  "expired_ids timeout now stamp table =
     map fst (filter (\<lambda>(request_id, data). now - stamp data > timeout) table)"

definition timeout_payload :: "PendingRequest \<Rightarrow> generate_payload" where
  "timeout_payload pending =
     \<lparr>gen_user_id = req_user_id pending, gen_chat_id = req_chat_id pending,
      gen_text = req_text pending, gen_include_prompt = req_include_prompt pending,
      gen_message_count = req_message_count pending,
      gen_session_data = req_session_data pending, gen_mode = req_mode pending,
      gen_mode_confidence = req_mode_confidence pending,
      historical_context = Present [],
      gen_ltm_memories = Missing\<rparr>"

fun expire_requests :: "string list \<Rightarrow> state \<Rightarrow> outcome" where
  "expire_requests [] s = ret s"
| "expire_requests (request_id # rest) s =
     (case map_of (pending_requests s) request_id of
        None \<Rightarrow> raise (KeyError request_id) s
      | Some pending \<Rightarrow>
          seq (seq (emit (LogWarning (ContextRequestTimeout (req_user_id pending)))
                      (pop_request request_id s))
                   (send_if_system ''generation''
                      (GENERATE_RESPONSE (timeout_payload pending))))
              (expire_requests rest))"

text \<open>
  The loop over the expired limit checks; \<open>uuid4 k\<close> is the id drawn while the record at
  position \<open>k\<close> of the list is continued.
\<close>

fun expire_limits ::
  "settings \<Rightarrow> collaborators \<Rightarrow> time \<Rightarrow> (nat \<Rightarrow> string) \<Rightarrow> nat \<Rightarrow> string list
     \<Rightarrow> state \<Rightarrow> outcome" where
  "expire_limits cfg pol now uuid4 k [] s = ret s"
| "expire_limits cfg pol now uuid4 k (request_id # rest) s =
     (case map_of (pending_limits s) request_id of
        None \<Rightarrow> raise (KeyError request_id) s
      | Some pending \<Rightarrow>
          seq (seq (emit (LogWarning (LimitCheckTimeout (lim_user_id pending)))
                      (pop_limit request_id s))
                   (\<lambda>s'. if AUTH_FALLBACK_TO_DEMO cfg
                         then continue_message_processing cfg pol now (uuid4 k) pending s'
                         else ret s'))
              (expire_limits cfg pol now uuid4 (Suc k) rest))"

definition cleanup_expired_requests ::
  "settings \<Rightarrow> collaborators \<Rightarrow> time \<Rightarrow> (nat \<Rightarrow> string) \<Rightarrow> state \<Rightarrow> outcome" where
  "cleanup_expired_requests cfg pol now uuid4 s =
     seq (expire_requests
            (expired_ids (STM_CONTEXT_REQUEST_TIMEOUT cfg) now req_timestamp
               (pending_requests s)) s)
         (\<lambda>s'. expire_limits cfg pol now uuid4 0
                  (expired_ids (AUTH_CHECK_TIMEOUT cfg) now lim_timestamp
                     (pending_limits s')) s')"

section \<open>Dispatch\<close>

datatype inbound =
    USER_MESSAGE user_message
  | CONTEXT_RESPONSE context_response
  | LTM_RESPONSE ltm_response
  | EMBEDDING_RESPONSE embedding_response
  | LIMIT_RESPONSE limit_response

fun handle_message ::
  "settings \<Rightarrow> collaborators \<Rightarrow> time \<Rightarrow> string \<Rightarrow> inbound \<Rightarrow> state \<Rightarrow> outcome" where
  "handle_message cfg pol now uuid (USER_MESSAGE m) s = handle_user_message now uuid m s"
| "handle_message cfg pol now uuid (CONTEXT_RESPONSE m) s = handle_context_response cfg now m s"
| "handle_message cfg pol now uuid (LTM_RESPONSE m) s = handle_ltm_response cfg now m s"
| "handle_message cfg pol now uuid (EMBEDDING_RESPONSE m) s = handle_embedding_response cfg m s"
| "handle_message cfg pol now uuid (LIMIT_RESPONSE m) s = handle_limit_response cfg pol now uuid m s"

section \<open>Runs of the actor\<close>

text \<open>
  What the actor reacts to: a message delivered to \<^verbatim>\<open>handle_message\<close>, with the clock
  reading and the id that \<^verbatim>\<open>uuid4\<close> yields during its handling, or a pass of the
  periodic sweep, with the clock reading and the ids drawn during the pass.
\<close>

datatype stimulus = Deliver time string inbound | Sweep time "nat \<Rightarrow> string"

fun step :: "settings \<Rightarrow> collaborators \<Rightarrow> stimulus \<Rightarrow> state \<Rightarrow> outcome" where
  "step cfg pol (Deliver now uuid m) s = handle_message cfg pol now uuid m s"
| "step cfg pol (Sweep now uuid4) s = cleanup_expired_requests cfg pol now uuid4 s"

text \<open>
  The state after a sequence of stimuli and the effects of all of them. An exception ends
  the handling of its stimulus and leaves the state as mutated so far; the next stimulus is
  handled from there (the sweep loop catches and logs, line 19 of request_handling.py).
\<close>

fun run :: "settings \<Rightarrow> collaborators \<Rightarrow> stimulus list \<Rightarrow> state \<Rightarrow> state \<times> effect list" where
  "run cfg pol [] s = (s, [])"
| "run cfg pol (x # xs) s =
     (let r = step cfg pol x s;
          (s', es) = run cfg pol xs (state_of r)
      in (s', effects r @ es))"

text \<open>
  The actor after \<^verbatim>\<open>__init__\<close>: no session, no pending record, no object allocated
  (what the store holds beyond \<open>next_obj\<close> is immaterial).
\<close>

definition initial_state :: "bool \<Rightarrow> state" where
  "initial_state attached =
     \<lparr>sessions = [], objs = (\<lambda>a. new_session 0 [] None), next_obj = 0,
      pending_requests = [], pending_limits = [], actor_system = attached\<rparr>"

text \<open>The ids that \<^verbatim>\<open>uuid4\<close> may yield while a stimulus is handled.\<close>

fun drawn :: "stimulus \<Rightarrow> string set" where
  "drawn (Deliver now uuid m) = {uuid}"
| "drawn (Sweep now uuid4) = range uuid4"

text \<open>The correlation ids in the two tables.\<close>

definition request_ids :: "state \<Rightarrow> string set" where
  "request_ids s = fst ` set (pending_requests s)"

definition limit_ids :: "state \<Rightarrow> string set" where
  "limit_ids s = fst ` set (pending_limits s)"

text \<open>
  How often a run removes the id \<open>r\<close> from a table: the number of its steps before which
  \<open>r\<close> is in the table and after which it is not.
\<close>

fun removal_count ::
  "settings \<Rightarrow> collaborators \<Rightarrow> (state \<Rightarrow> string set) \<Rightarrow> string \<Rightarrow> stimulus list
     \<Rightarrow> state \<Rightarrow> nat" where
  "removal_count cfg pol ids r [] s = 0"
| "removal_count cfg pol ids r (x # xs) s =
     (if r \<in> ids s \<and> r \<notin> ids (state_of (step cfg pol x s)) then 1 else 0)
     + removal_count cfg pol ids r xs (state_of (step cfg pol x s))"

text \<open>The ids whose pending generation record some step of a run removes.\<close>

fun removed_in_run :: "settings \<Rightarrow> collaborators \<Rightarrow> stimulus list \<Rightarrow> state \<Rightarrow> string set" where
  "removed_in_run cfg pol [] s = {}"
| "removed_in_run cfg pol (x # xs) s =
     (request_ids s - request_ids (state_of (step cfg pol x s)))
     \<union> removed_in_run cfg pol xs (state_of (step cfg pol x s))"

text \<open>
  What is assumed of \<^verbatim>\<open>uuid4\<close>: an id drawn during a run is none of the ids in
  \<open>used\<close> (those in the tables when the run starts) and none drawn earlier in the run.
\<close>

fun fresh_draws :: "string set \<Rightarrow> stimulus list \<Rightarrow> bool" where
  "fresh_draws used [] \<longleftrightarrow> True"
| "fresh_draws used (x # xs) \<longleftrightarrow> drawn x \<inter> used = {} \<and> fresh_draws (used \<union> drawn x) xs"

text \<open>A table of pending generation records is a dictionary: no id occurs twice.\<close>

definition keys_distinct :: "state \<Rightarrow> bool" where
  "keys_distinct s \<longleftrightarrow> distinct (map fst (pending_requests s))"

section \<open>Observations and sample inputs\<close>

text \<open>The generation requests among the effects, in the order they were sent.\<close>

fun generation_requests :: "effect list \<Rightarrow> generate_payload list" where
  "generation_requests [] = []"
| "generation_requests (Send target (GENERATE_RESPONSE p) # es) = p # generation_requests es"
| "generation_requests (e # es) = generation_requests es"

text \<open>A record that expects an embedding and has not received it.\<close>

definition awaiting_embedding :: "PendingRequest \<Rightarrow> bool" where
  "awaiting_embedding p =
     (get_flag (expecting_embedding p) \<and> \<not> get_flag (embedding_received p))"

text \<open>
  The readiness condition in the words of the specification: the context has been
  received, and the long-term memories have been received, or are not expected, or the time
  since their request exceeds the timeout.
\<close>

definition ready_by_spec :: "settings \<Rightarrow> time \<Rightarrow> PendingRequest \<Rightarrow> bool" where
  "ready_by_spec cfg now p =
     (stm_received p = Some True
      \<and> (ltm_received p = Some True \<or> expecting_ltm p \<noteq> Some True
          \<or> (\<exists>t. ltm_request_timestamp p = Some t \<and> now - t > LTM_REQUEST_TIMEOUT cfg)))"

definition demo_policy :: collaborators where
  "demo_policy =
     \<lparr>determine_generation_mode = (\<lambda>text session. (''expert'', 1)),
      should_include_prompt = (\<lambda>session. True),
      get_prompt_reason = (\<lambda>session. ''periodic''),
      should_request_ltm = (\<lambda>text session. (False, ''recent''))\<rparr>"

definition demo_limit :: PendingLimit where
  "demo_limit =
     \<lparr>lim_user_id = ''42'', lim_timestamp = 0, lim_chat_id = 7, lim_text = ''hi'',
      lim_username = Some ''ann'', lim_session = 0\<rparr>"

text \<open>One user with a session and a turn that waits for its limit verdict.\<close>

definition demo_state :: state where
  "demo_state =
     \<lparr>sessions = [(''42'', 0)], objs = (\<lambda>a. new_session 0 ''42'' (Some ''ann'')),
      next_obj = 1, pending_requests = [], pending_limits = [(''L1'', demo_limit)],
      actor_system = True\<rparr>"

definition status_verdict :: limit_response where
  "status_verdict =
     \<lparr>is_status_check = True, is_auth_check = False, lr_request_id = Some ''L1'',
      approaching_limit = False, messages_remaining = None, limit = Some 10,
      subscription_expiring = False, days_remaining = None, unlimited = False,
      messages_today = Some 10\<rparr>"

text \<open>
  A pending generation record as the continuation of a turn writes it when a vector search
  was decided: it expects long-term memories and an embedding, and nothing has arrived.
\<close>

definition demo_request :: PendingRequest where
  "demo_request =
     \<lparr>req_user_id = ''42'', req_chat_id = 7, req_text = ''hi'', req_include_prompt = True,
      req_message_count = 1,
      req_session_data = \<lparr>sd_username = Some ''ann'', sd_created_at = 0\<rparr>,
      req_mode = ''expert'', req_mode_confidence = 1, req_timestamp = 0,
      expecting_ltm = Some True, ltm_search_type = Some ''vector'',
      stm_received = Some False, ltm_received = Some False, stm_context = PyNone,
      ltm_memories = PyNone, ltm_request_timestamp = Some 0,
      expecting_embedding = Some True, embedding_received = Some False,
      query_vector = Missing\<rparr>"

definition join_state :: "PendingRequest \<Rightarrow> state" where
  "join_state p = demo_state\<lparr>pending_requests := [(''R1'', p)], pending_limits := []\<rparr>"

definition context_reply :: context_response where
  "context_reply = \<lparr>ctx_request_id = Some ''R1'', messages = Some [''hello'']\<rparr>"

definition ltm_reply :: ltm_response where
  "ltm_reply =
     \<lparr>ltm_request_id = Some ''R1'', ltm_success = Some True, results = Some [''memory'']\<rparr>"

definition ltm_failure :: ltm_response where
  "ltm_failure = \<lparr>ltm_request_id = Some ''R1'', ltm_success = Some False, results = None\<rparr>"

definition embedding_reply :: embedding_response where
  "embedding_reply =
     \<lparr>emb_request_id = Some ''R1'', emb_success = Some True, embedding = Some [1, 0]\<rparr>"

definition embedding_failure :: embedding_response where
  "embedding_failure =
     \<lparr>emb_request_id = Some ''R1'', emb_success = Some False, embedding = None\<rparr>"

text \<open>What a continuation leaves alone.\<close>

definition same_frame :: "state \<Rightarrow> state \<Rightarrow> bool" where
  "same_frame s s' \<longleftrightarrow>
     pending_limits s' = pending_limits s \<and> sessions s' = sessions s
     \<and> next_obj s' = next_obj s \<and> actor_system s' = actor_system s"

text \<open>
  The contract of the mode detector: a mode of the closed set and a confidence within the
  bounds that the session validates.
\<close>

definition valid_policy :: "settings \<Rightarrow> collaborators \<Rightarrow> bool" where
  "valid_policy cfg pol \<longleftrightarrow>
     (\<forall>text session.
        fst (determine_generation_mode pol text session) \<in> set valid_modes
        \<and> PYDANTIC_CONFIDENCE_MIN cfg \<le> snd (determine_generation_mode pol text session)
        \<and> snd (determine_generation_mode pol text session) \<le> PYDANTIC_CONFIDENCE_MAX cfg)"

text \<open>Every allocated session object keeps its mode history within the cap.\<close>

definition history_capped :: "settings \<Rightarrow> state \<Rightarrow> bool" where
  "history_capped cfg s \<longleftrightarrow>
     (\<forall>a < next_obj s. length (mode_history (objs s a)) \<le> MODE_HISTORY_SIZE cfg)"

definition deny_verdict :: limit_response where
  "deny_verdict =
     \<lparr>is_status_check = False, is_auth_check = False, lr_request_id = Some ''L1'',
      approaching_limit = False, messages_remaining = None, limit = Some 10,
      subscription_expiring = False, days_remaining = None, unlimited = False,
      messages_today = Some 10\<rparr>"

definition allow_verdict :: limit_response where
  "allow_verdict =
     \<lparr>is_status_check = False, is_auth_check = False, lr_request_id = Some ''L1'',
      approaching_limit = False, messages_remaining = None, limit = Some 10,
      subscription_expiring = False, days_remaining = None, unlimited = False,
      messages_today = Some 3\<rparr>"

text \<open>The sample state with the mode history of the session at the cap of five.\<close>

definition full_state :: state where
  "full_state =
     demo_state\<lparr>objs := (\<lambda>a. (new_session 0 ''42'' (Some ''ann''))
                  \<lparr>mode_history := [''talk'', ''talk'', ''expert'', ''talk'', ''base'']\<rparr>)\<rparr>"

text \<open>A supply of ids for a pass of the sweep: pairwise distinct, none of them in use.\<close>

definition demo_uuid4 :: "nat \<Rightarrow> string" where
  "demo_uuid4 k = replicate (Suc k) (CHR ''u'')"

text \<open>A verdict that allows the turn and carries no warning.\<close>

definition plain_allow :: "string \<Rightarrow> limit_response" where
  "plain_allow rid =
     \<lparr>is_status_check = False, is_auth_check = False, lr_request_id = Some rid,
      approaching_limit = False, messages_remaining = None, limit = None,
      subscription_expiring = False, days_remaining = None, unlimited = True,
      messages_today = None\<rparr>"

text \<open>
  The sweep of the limit checks in the words of the specification, for the policy that
  falls back to the demo tier: each expired record, in the order of the table, is logged
  and its turn is continued as if the verdict had arrived and allowed it.
\<close>

fun continue_as_allowed ::
  "settings \<Rightarrow> collaborators \<Rightarrow> time \<Rightarrow> (nat \<Rightarrow> string) \<Rightarrow> nat \<Rightarrow> string list
     \<Rightarrow> state \<Rightarrow> outcome" where
  "continue_as_allowed cfg pol now uuid4 k [] s = ret s"
| "continue_as_allowed cfg pol now uuid4 k (rid # rest) s =
     (case map_of (pending_limits s) rid of
        None \<Rightarrow> raise (KeyError rid) s
      | Some p \<Rightarrow>
          seq (seq (emit (LogWarning (LimitCheckTimeout (lim_user_id p))) s)
                   (handle_message cfg pol now (uuid4 k) (LIMIT_RESPONSE (plain_allow rid))))
              (continue_as_allowed cfg pol now uuid4 (Suc k) rest))"

text \<open>
  The sample policy with a long-term-memory leg: every turn asks for the recent memories.
\<close>

definition memory_policy :: collaborators where
  "memory_policy = demo_policy\<lparr>should_request_ltm := (\<lambda>text session. (True, ''recent''))\<rparr>"

text \<open>The reply of a memory service that holds no message of the user.\<close>

definition empty_context_reply :: context_response where
  "empty_context_reply = \<lparr>ctx_request_id = Some ''R1'', messages = Some []\<rparr>"

text \<open>
  A run on the sample record once it no longer waits for an embedding: the context reply
  resolves it, the same reply and a long-term-memory reply for the same id follow.
\<close>

definition replayed :: "stimulus list" where
  "replayed =
     [Deliver 1 ''U1'' (CONTEXT_RESPONSE context_reply),
      Deliver 2 ''U2'' (CONTEXT_RESPONSE context_reply),
      Deliver 3 ''U3'' (LTM_RESPONSE ltm_reply)]"

section \<open>The algebra of outcomes\<close>

lemma seq_ret: "seq (ret s) f = f s"
  by (simp add: seq_def ret_def)

lemma seq_raise: "seq (raise x s) f = raise x s"
  by (simp add: seq_def raise_def)

lemma seq_assoc: "seq (seq r f) g = seq r (\<lambda>s. seq (f s) g)"
  by (auto simp: seq_def Let_def split: option.splits)

lemma get_flag_iff: "get_flag x \<longleftrightarrow> x = Some True"
  by (cases x) auto

lemma map_of_set_request:
  "map_of (pending_requests (set_request rid p s)) r = (if r = rid then Some p else map_of (pending_requests s) r)"
  by (simp add: set_request_def update_conv')

lemma map_of_pop_request:
  "map_of (pending_requests (pop_request rid s)) r = (if r = rid then None else map_of (pending_requests s) r)"
  by (simp add: pop_request_def delete_conv')

lemma find_pending_Some:
  "find_pending x table = Some (rid, p) \<longleftrightarrow> x = Some rid \<and> rid \<noteq> [] \<and> map_of table rid = Some p"
  by (auto simp: find_pending_def split: option.splits if_splits)

lemma find_pending_None:
  "find_pending x table = None \<longleftrightarrow> (\<forall>rid. x = Some rid \<longrightarrow> rid = [] \<or> map_of table rid = None)"
  by (auto simp: find_pending_def split: option.splits if_splits)

lemma fallback_found:
  "map_of (pending_requests s) rid = Some p \<Longrightarrow>
   fallback_to_recent_search cfg rid s =
     send ''ltm'' (GET_LTM_MEMORY (req_user_id p) ''recent'' None (LTM_CONTEXT_LIMIT cfg) rid)
       (set_request rid (without_embedding p) s)"
  by (simp add: fallback_to_recent_search_def)

lemma ready_by_spec_code:
  "ready_by_spec cfg now p \<longleftrightarrow>
     (get_flag (stm_received p) \<and>
       (get_flag (ltm_received p) \<or> \<not> get_flag (expecting_ltm p) \<or>
         (get_flag (expecting_ltm p) \<and> \<not> get_flag (ltm_received p) \<and>
            elapsed_exceeds now (ltm_request_timestamp p) (LTM_REQUEST_TIMEOUT cfg))))"
  by (auto simp: ready_by_spec_def get_flag_iff elapsed_exceeds_def split: option.splits)

lemma check_ready_found:
  assumes "map_of (pending_requests s) rid = Some p"
  shows "check_ready_to_generate cfg now rid s =
     (if awaiting_embedding p
      then (if elapsed_exceeds now (ltm_request_timestamp p) (LTM_EMBEDDING_REQUEST_TIMEOUT cfg)
            then fallback_to_recent_search cfg rid s else ret s)
      else if ready_by_spec cfg now p
           then send_if_system ''generation'' (GENERATE_RESPONSE (ready_payload p)) (pop_request rid s)
           else ret s)"
  using assms
  by (auto simp: check_ready_to_generate_def awaiting_embedding_def ready_by_spec_code Let_def)


lemma send_simps:
  "state_of (send t msg s) = s"
  "effects (send t msg s) = (if actor_system s then [Send t msg] else [])"
  "raised (send t msg s) = (if actor_system s then None else Some AttributeError)"
  by (simp_all add: send_def emit_def raise_def)

lemma send_if_system_simps:
  "state_of (send_if_system t msg s) = s"
  "effects (send_if_system t msg s) = (if actor_system s then [Send t msg] else [])"
  "raised (send_if_system t msg s) = None"
  by (simp_all add: send_if_system_def emit_def ret_def)

lemma ret_simps: "state_of (ret s) = s" "effects (ret s) = []" "raised (ret s) = None"
  by (simp_all add: ret_def)

lemma emit_simps: "state_of (emit e s) = s" "effects (emit e s) = [e]" "raised (emit e s) = None"
  by (simp_all add: emit_def)

lemma seq_emit_simps:
  "state_of (seq (emit e s) f) = state_of (f s)"
  "effects (seq (emit e s) f) = e # effects (f s)"
  "raised (seq (emit e s) f) = raised (f s)"
  by (simp_all add: seq_def emit_def Let_def)

lemma actor_system_set_request: "actor_system (set_request rid p s) = actor_system s"
  by (simp add: set_request_def)

lemma actor_system_pop_request: "actor_system (pop_request rid s) = actor_system s"
  by (simp add: pop_request_def)

lemma check_ready_summary:
  assumes "map_of (pending_requests s) rid = Some p"
  shows
    "(\<not> awaiting_embedding p \<longrightarrow>
        (map_of (pending_requests (state_of (check_ready_to_generate cfg now rid s))) rid = None
           \<longleftrightarrow> ready_by_spec cfg now p)
        \<and> generation_requests (effects (check_ready_to_generate cfg now rid s))
            = (if ready_by_spec cfg now p \<and> actor_system s then [ready_payload p] else []))
     \<and> (awaiting_embedding p \<longrightarrow>
        map_of (pending_requests (state_of (check_ready_to_generate cfg now rid s))) rid
          = Some (if elapsed_exceeds now (ltm_request_timestamp p)
                       (LTM_EMBEDDING_REQUEST_TIMEOUT cfg)
                  then without_embedding p else p)
        \<and> generation_requests (effects (check_ready_to_generate cfg now rid s)) = []
        \<and> (elapsed_exceeds now (ltm_request_timestamp p) (LTM_EMBEDDING_REQUEST_TIMEOUT cfg)
             \<and> actor_system s \<longrightarrow>
            effects (check_ready_to_generate cfg now rid s)
              = [Send ''ltm'' (GET_LTM_MEMORY (req_user_id p) ''recent'' None
                   (LTM_CONTEXT_LIMIT cfg) rid)]))"
  using assms
  by (simp add: check_ready_found fallback_found send_simps send_if_system_simps ret_simps
        map_of_set_request map_of_pop_request actor_system_set_request actor_system_pop_request)


lemma handle_context_known:
  "find_pending (ctx_request_id c) (pending_requests s) = Some (rid, p0) \<Longrightarrow>
   handle_context_response cfg now c s
     = check_ready_to_generate cfg now rid (set_request rid (with_context c p0) s)"
  by (simp add: handle_context_response_def)

lemma handle_ltm_known:
  assumes "find_pending (ltm_request_id l) (pending_requests s) = Some (rid, p0)"
  shows "state_of (handle_ltm_response cfg now l s)
           = state_of (check_ready_to_generate cfg now rid (set_request rid (with_memories l p0) s))"
    and "effects (handle_ltm_response cfg now l s)
           = (if get_flag (ltm_success l) then [] else [LogWarning (LtmSearchFailed rid)])
             @ effects (check_ready_to_generate cfg now rid
                          (set_request rid (with_memories l p0) s))"
    and "raised (handle_ltm_response cfg now l s)
           = raised (check_ready_to_generate cfg now rid (set_request rid (with_memories l p0) s))"
  using assms by (simp_all add: handle_ltm_response_def seq_emit_simps)

lemma handle_embedding_known:
  assumes "find_pending (emb_request_id e) (pending_requests s) = Some (rid, p0)"
  shows "handle_embedding_response cfg e s =
     (if get_flag (emb_success e) \<and> embedding e \<noteq> None \<and> embedding e \<noteq> Some []
      then send ''ltm''
             (GET_LTM_MEMORY (req_user_id p0) ''vector'' (embedding e) (LTM_CONTEXT_LIMIT cfg) rid)
             (set_request rid (with_embedding (the (embedding e)) p0) s)
      else seq (emit (LogWarning (if get_flag (emb_success e) then EmptyEmbedding
                                  else EmbeddingFailed)) s)
               (fallback_to_recent_search cfg rid))"
  using assms
  by (auto simp: handle_embedding_response_def split: option.splits list.splits)

lemma generation_requests_append:
  "generation_requests (xs @ ys) = generation_requests xs @ generation_requests ys"
  by (induction xs rule: generation_requests.induct) simp_all

lemma check_ready_effects:
  assumes "x \<in> set (effects (check_ready_to_generate cfg now rid s))"
  shows "(\<exists>msg. x = Send ''ltm'' msg) \<or> (\<exists>msg. x = Send ''generation'' msg)"
proof (cases "map_of (pending_requests s) rid")
  case None
  then show ?thesis using assms by (simp add: check_ready_to_generate_def ret_simps)
next
  case (Some p)
  then show ?thesis
    using assms
    by (auto simp: check_ready_found fallback_found send_simps send_if_system_simps ret_simps
          split: if_splits)
qed

lemma check_ready_not_ready:
  "map_of (pending_requests s) rid = Some p \<Longrightarrow> \<not> awaiting_embedding p \<Longrightarrow>
   \<not> ready_by_spec cfg now p \<Longrightarrow> check_ready_to_generate cfg now rid s = ret s"
  by (simp add: check_ready_found)

section \<open>What a continuation changes\<close>

lemma seq_simps:
  "state_of (seq r f) = (case raised r of Some x \<Rightarrow> state_of r | None \<Rightarrow> state_of (f (state_of r)))"
  "effects (seq r f) = (case raised r of Some x \<Rightarrow> effects r
                        | None \<Rightarrow> effects r @ effects (f (state_of r)))"
  "raised (seq r f) = (case raised r of Some x \<Rightarrow> Some x | None \<Rightarrow> raised (f (state_of r)))"
  by (simp_all add: seq_def Let_def split: option.splits)

lemma seq_state_rule:
  "Q (state_of r) \<Longrightarrow> (\<And>s. Q s \<Longrightarrow> Q (state_of (f s))) \<Longrightarrow> Q (state_of (seq r f))"
  by (simp add: seq_simps split: option.splits)

lemma seq_effects_rule:
  "\<forall>x \<in> set (effects r). E x \<Longrightarrow> (\<And>s. \<forall>x \<in> set (effects (f s)). E x)
     \<Longrightarrow> \<forall>x \<in> set (effects (seq r f)). E x"
  by (auto simp: seq_simps split: option.splits)

lemma same_frame_refl: "same_frame s s"
  by (simp add: same_frame_def)

lemma same_frame_trans: "same_frame s s' \<Longrightarrow> same_frame s' s'' \<Longrightarrow> same_frame s s''"
  by (simp add: same_frame_def)

lemma update_session_mode_frame: "same_frame s (state_of (update_session_mode cfg pol now pending s))"
  by (simp add: update_session_mode_def same_frame_def Let_def store_session_def raise_def
        split: prod.splits sum.splits)

lemma update_session_mode_requests:
  "pending_requests (state_of (update_session_mode cfg pol now pending s)) = pending_requests s"
  by (simp add: update_session_mode_def Let_def store_session_def raise_def
        split: prod.splits sum.splits)

lemma register_request_frame: "same_frame s (state_of (register_request pol now rid pending s))"
  by (simp add: register_request_def same_frame_def Let_def set_request_def)

lemma register_request_requests:
  "map_of (pending_requests (state_of (register_request pol now rid pending s))) r =
     (if r = rid then Some (new_request now (should_include_prompt pol (objs s (lim_session pending)))
                              pending (objs s (lim_session pending)))
      else map_of (pending_requests s) r)"
  by (simp add: register_request_def Let_def map_of_set_request)

lemma request_ltm_frame: "same_frame s (state_of (request_ltm cfg pol now rid pending s))"
  by (simp add: request_ltm_def same_frame_def Let_def set_request_def send_simps ret_simps
        raise_def split: prod.splits option.splits)

lemma request_ltm_requests:
  "r \<noteq> rid \<Longrightarrow>
   map_of (pending_requests (state_of (request_ltm cfg pol now rid pending s))) r
     = map_of (pending_requests s) r"
  by (simp add: request_ltm_def Let_def map_of_set_request send_simps ret_simps
        raise_def split: prod.splits option.splits)

lemma request_ltm_objs: "objs (state_of (request_ltm cfg pol now rid pending s)) = objs s"
  by (simp add: request_ltm_def Let_def set_request_def send_simps ret_simps
        raise_def split: prod.splits option.splits)

lemma register_request_objs: "objs (state_of (register_request pol now rid pending s)) = objs s"
  by (simp add: register_request_def Let_def set_request_def)



lemma continue_frame:
  "same_frame s (state_of (continue_message_processing cfg pol now rid pending s))"
  unfolding continue_message_processing_def
proof (intro seq_state_rule [where Q = "same_frame s"])
  show "same_frame s (state_of (send_if_system ''perception''
          (ANALYZE_EMOTION (lim_user_id pending) (lim_text pending)) s))"
    by (simp add: send_if_system_simps same_frame_refl)
next
  fix s' assume "same_frame s s'"
  then show "same_frame s (state_of (update_session_mode cfg pol now pending s'))"
    by (rule same_frame_trans) (rule update_session_mode_frame)
next
  fix s' assume "same_frame s s'"
  then show "same_frame s (state_of (register_request pol now rid pending s'))"
    by (rule same_frame_trans) (rule register_request_frame)
next
  fix s' assume "same_frame s s'"
  then show "same_frame s (state_of (send ''memory''
          (GET_CONTEXT (lim_user_id pending) rid (STM_CONTEXT_SIZE_FOR_GENERATION cfg)) s'))"
    by (simp add: send_simps)
next
  fix s' assume "same_frame s s'"
  then show "same_frame s (state_of (request_ltm cfg pol now rid pending s'))"
    by (rule same_frame_trans) (rule request_ltm_frame)
qed


lemma continue_requests:
  assumes "r \<noteq> rid"
  shows "map_of (pending_requests (state_of (continue_message_processing cfg pol now rid pending s))) r
     = map_of (pending_requests s) r"
  unfolding continue_message_processing_def
  by (intro seq_state_rule
        [where Q = "\<lambda>s'. map_of (pending_requests s') r = map_of (pending_requests s) r"])
     (simp_all add: send_simps send_if_system_simps update_session_mode_requests
        register_request_requests request_ltm_requests assms)

lemma seq_generation_rule:
  "generation_requests (effects r) = [] \<Longrightarrow> (\<And>s. generation_requests (effects (f s)) = [])
     \<Longrightarrow> generation_requests (effects (seq r f)) = []"
  by (simp add: seq_simps generation_requests_append split: option.splits)

lemma update_session_mode_generation:
  "generation_requests (effects (update_session_mode cfg pol now pending s)) = []"
  by (simp add: update_session_mode_def Let_def raise_def split: prod.splits sum.splits)

lemma register_request_generation:
  "generation_requests (effects (register_request pol now rid pending s)) = []"
  by (simp add: register_request_def Let_def)

lemma request_ltm_generation:
  "generation_requests (effects (request_ltm cfg pol now rid pending s)) = []"
  by (simp add: request_ltm_def Let_def send_simps ret_simps raise_def
        split: prod.splits option.splits)

lemma continue_generation:
  "generation_requests (effects (continue_message_processing cfg pol now rid pending s)) = []"
  unfolding continue_message_processing_def
  by (intro seq_generation_rule)
     (simp_all add: send_simps send_if_system_simps update_session_mode_generation
        register_request_generation request_ltm_generation)

lemma limit_warning_simps:
  assumes "approaching_limit m \<longrightarrow> messages_remaining m \<noteq> None \<and> limit m \<noteq> None"
  shows "state_of (limit_warning m p s) = s" "raised (limit_warning m p s) = None"
    "generation_requests (effects (limit_warning m p s)) = []"
  using assms
  by (auto simp: limit_warning_def send_if_system_simps ret_simps split: option.splits)

lemma expiry_warning_simps:
  assumes "subscription_expiring m \<longrightarrow> days_remaining m \<noteq> None"
  shows "state_of (expiry_warning m p s) = s" "raised (expiry_warning m p s) = None"
    "generation_requests (effects (expiry_warning m p s)) = []"
  using assms
  by (auto simp: expiry_warning_def send_if_system_simps ret_simps split: option.splits)

lemma actor_system_pop_limit: "actor_system (pop_limit rid s) = actor_system s"
  by (simp add: pop_limit_def)

section \<open>The mode history through handlers, sweep and runs\<close>

lemma append_mode_length:
  "length h \<le> MODE_HISTORY_SIZE cfg \<Longrightarrow> length (append_mode cfg m h) \<le> MODE_HISTORY_SIZE cfg"
  by (auto simp: append_mode_def Let_def)

lemma append_mode_shape:
  "append_mode cfg m h = (if length h < MODE_HISTORY_SIZE cfg then h @ [m] else tl (h @ [m]))"
  by (auto simp: append_mode_def Let_def)

lemma history_capped_cong:
  "objs s' = objs s \<Longrightarrow> next_obj s' = next_obj s \<Longrightarrow> history_capped cfg s' = history_capped cfg s"
  by (simp add: history_capped_def)

lemma update_session_mode_history:
  "mode_history (objs (state_of (update_session_mode cfg pol now pending s)) a)
     = (if a = lim_session pending \<and> raised (update_session_mode cfg pol now pending s) = None
        then append_mode cfg (fst (determine_generation_mode pol (lim_text pending)
                                     (objs s (lim_session pending))))
               (mode_history (objs s a))
        else mode_history (objs s a))"
  by (simp add: update_session_mode_def Let_def store_session_def raise_def
        assign_current_mode_def assign_mode_confidence_def
        split: prod.splits sum.splits if_splits)

lemma update_session_mode_raised:
  "raised (update_session_mode cfg pol now pending s) = None \<longleftrightarrow>
     (fst (determine_generation_mode pol (lim_text pending) (objs s (lim_session pending)))
          = current_mode (objs s (lim_session pending))
        \<or> fst (determine_generation_mode pol (lim_text pending) (objs s (lim_session pending)))
             \<in> set valid_modes)
     \<and> PYDANTIC_CONFIDENCE_MIN cfg
          \<le> snd (determine_generation_mode pol (lim_text pending) (objs s (lim_session pending)))
     \<and> snd (determine_generation_mode pol (lim_text pending) (objs s (lim_session pending)))
          \<le> PYDANTIC_CONFIDENCE_MAX cfg"
  by (auto simp: update_session_mode_def Let_def store_session_def raise_def
        assign_current_mode_def assign_mode_confidence_def
        split: prod.splits sum.splits if_splits)

lemma update_session_mode_capped:
  assumes "history_capped cfg s"
  shows "history_capped cfg (state_of (update_session_mode cfg pol now pending s))"
  using assms update_session_mode_frame [of s cfg pol now pending]
  by (auto simp: history_capped_def same_frame_def update_session_mode_history
        append_mode_length)


lemma continue_capped:
  assumes "history_capped cfg s"
  shows "history_capped cfg (state_of (continue_message_processing cfg pol now rid pending s))"
  unfolding continue_message_processing_def
proof (intro seq_state_rule [where Q = "history_capped cfg"])
  show "history_capped cfg (state_of (send_if_system ''perception''
          (ANALYZE_EMOTION (lim_user_id pending) (lim_text pending)) s))"
    using assms by (simp add: send_if_system_simps)
next
  fix s' assume "history_capped cfg s'"
  then show "history_capped cfg (state_of (update_session_mode cfg pol now pending s'))"
    by (rule update_session_mode_capped)
next
  fix s' assume "history_capped cfg s'"
  then show "history_capped cfg (state_of (register_request pol now rid pending s'))"
    using register_request_frame [of s' pol now rid pending]
    by (simp add: history_capped_def same_frame_def register_request_objs)
next
  fix s' assume "history_capped cfg s'"
  then show "history_capped cfg (state_of (send ''memory''
          (GET_CONTEXT (lim_user_id pending) rid (STM_CONTEXT_SIZE_FOR_GENERATION cfg)) s'))"
    by (simp add: send_simps)
next
  fix s' assume "history_capped cfg s'"
  then show "history_capped cfg (state_of (request_ltm cfg pol now rid pending s'))"
    using request_ltm_frame [of s' cfg pol now rid pending]
    by (simp add: history_capped_def same_frame_def request_ltm_objs)
qed

lemma check_ready_frame:
  "same_frame s (state_of (check_ready_to_generate cfg now rid s))
   \<and> objs (state_of (check_ready_to_generate cfg now rid s)) = objs s"
proof (cases "map_of (pending_requests s) rid")
  case None
  then show ?thesis by (simp add: check_ready_to_generate_def ret_simps same_frame_refl)
next
  case (Some p)
  then show ?thesis
    by (simp add: check_ready_found fallback_found send_simps send_if_system_simps ret_simps
          same_frame_def set_request_def pop_request_def)
qed

lemma set_request_frame:
  "same_frame s (set_request rid p s)" "objs (set_request rid p s) = objs s"
  by (simp_all add: same_frame_def set_request_def)

lemma handle_context_frame:
  "same_frame s (state_of (handle_context_response cfg now m s))
   \<and> objs (state_of (handle_context_response cfg now m s)) = objs s"
proof (cases "find_pending (ctx_request_id m) (pending_requests s)")
  case None
  then show ?thesis by (simp add: handle_context_response_def emit_simps same_frame_refl)
next
  case (Some a)
  obtain rid p where a: "a = (rid, p)" by (cases a)
  show ?thesis
    using check_ready_frame [of "set_request rid (with_context m p) s" cfg now rid]
    by (simp add: handle_context_known [OF Some [unfolded a]] same_frame_def set_request_def)
qed

lemma handle_ltm_frame:
  "same_frame s (state_of (handle_ltm_response cfg now m s))
   \<and> objs (state_of (handle_ltm_response cfg now m s)) = objs s"
proof (cases "find_pending (ltm_request_id m) (pending_requests s)")
  case None
  then show ?thesis by (simp add: handle_ltm_response_def emit_simps same_frame_refl)
next
  case (Some a)
  obtain rid p where a: "a = (rid, p)" by (cases a)
  show ?thesis
    using check_ready_frame [of "set_request rid (with_memories m p) s" cfg now rid]
    by (simp add: handle_ltm_known [OF Some [unfolded a]] same_frame_def set_request_def)
qed

lemma handle_embedding_frame:
  "same_frame s (state_of (handle_embedding_response cfg m s))
   \<and> objs (state_of (handle_embedding_response cfg m s)) = objs s"
proof (cases "find_pending (emb_request_id m) (pending_requests s)")
  case None
  then show ?thesis by (simp add: handle_embedding_response_def emit_simps same_frame_refl)
next
  case (Some a)
  obtain rid p where a: "a = (rid, p)" by (cases a)
  have "map_of (pending_requests s) rid = Some p"
    using Some a by (simp add: find_pending_Some)
  then show ?thesis
    by (simp add: handle_embedding_known [OF Some [unfolded a]] send_simps seq_emit_simps
          fallback_found same_frame_def set_request_def)
qed


lemma limit_warning_state: "state_of (limit_warning m p s) = s"
  by (simp add: limit_warning_def send_if_system_simps ret_simps raise_def split: option.splits)

lemma expiry_warning_state: "state_of (expiry_warning m p s) = s"
  by (simp add: expiry_warning_def send_if_system_simps ret_simps raise_def split: option.splits)

lemma limit_verdict_denied:
  "denies cfg m \<Longrightarrow> state_of (limit_verdict cfg pol now uuid m p s) = s"
  by (simp add: limit_verdict_def Let_def seq_simps emit_simps send_if_system_simps)

lemma limit_verdict_allowed:
  "\<not> denies cfg m \<Longrightarrow>
   limit_verdict cfg pol now uuid m p s = continue_message_processing cfg pol now uuid p s"
  by (simp add: limit_verdict_def Let_def)

lemma pop_limit_capped: "history_capped cfg (pop_limit rid s) = history_capped cfg s"
  by (simp add: history_capped_def pop_limit_def)

lemma pop_request_capped: "history_capped cfg (pop_request rid s) = history_capped cfg s"
  by (simp add: history_capped_def pop_request_def)

lemma limit_verdict_capped:
  "history_capped cfg s \<Longrightarrow> history_capped cfg (state_of (limit_verdict cfg pol now uuid m p s))"
  by (cases "denies cfg m") (simp_all add: limit_verdict_denied limit_verdict_allowed continue_capped)

lemma handle_limit_capped:
  assumes "history_capped cfg s"
  shows "history_capped cfg (state_of (handle_limit_response cfg pol now uuid m s))"
proof (cases "is_status_check m \<or> is_auth_check m")
  case True
  then show ?thesis using assms by (simp add: handle_limit_response_def ret_simps)
next
  case False
  show ?thesis
  proof (cases "find_pending (lr_request_id m) (pending_limits s)")
    case None
    then show ?thesis using assms False by (simp add: handle_limit_response_def emit_simps)
  next
    case (Some a)
    obtain rid p where a: "a = (rid, p)" by (cases a)
    have "history_capped cfg (state_of
        (seq (seq (limit_warning m p (pop_limit rid s)) (expiry_warning m p))
             (limit_verdict cfg pol now uuid m p)))"
      by (intro seq_state_rule [where Q = "history_capped cfg"])
         (simp_all add: limit_warning_state expiry_warning_state pop_limit_capped assms
            limit_verdict_capped)
    then show ?thesis using False Some a by (simp add: handle_limit_response_def)
  qed
qed

lemma handle_user_capped:
  assumes "history_capped cfg s"
  shows "history_capped cfg (state_of (handle_user_message now uuid m s))"
  using assms
  by (auto simp: handle_user_message_def get_or_create_session_def seq_simps ret_simps
        emit_simps raise_def send_simps send_if_system_simps store_session_def
        history_capped_def new_session_def less_Suc_eq
        split: option.splits)

lemma handle_message_capped:
  "history_capped cfg s \<Longrightarrow> history_capped cfg (state_of (handle_message cfg pol now uuid m s))"
proof (cases m)
  case (USER_MESSAGE x)
  then show "history_capped cfg s \<Longrightarrow> ?thesis" by (simp add: handle_user_capped)
next
  case (CONTEXT_RESPONSE x)
  then show "history_capped cfg s \<Longrightarrow> ?thesis"
    using handle_context_frame [of s cfg now x]
    by (simp add: history_capped_def same_frame_def)
next
  case (LTM_RESPONSE x)
  then show "history_capped cfg s \<Longrightarrow> ?thesis"
    using handle_ltm_frame [of s cfg now x]
    by (simp add: history_capped_def same_frame_def)
next
  case (EMBEDDING_RESPONSE x)
  then show "history_capped cfg s \<Longrightarrow> ?thesis"
    using handle_embedding_frame [of s cfg x]
    by (simp add: history_capped_def same_frame_def)
next
  case (LIMIT_RESPONSE x)
  then show "history_capped cfg s \<Longrightarrow> ?thesis" by (simp add: handle_limit_capped)
qed

lemma expire_requests_capped:
  "history_capped cfg s \<Longrightarrow> history_capped cfg (state_of (expire_requests ids s))"
proof (induction ids arbitrary: s)
  case Nil
  then show ?case by (simp add: ret_simps)
next
  case (Cons rid ids)
  show ?case
  proof (cases "map_of (pending_requests s) rid")
    case None
    then show ?thesis using Cons.prems by (simp add: raise_def)
  next
    case (Some p)
    have "history_capped cfg (state_of
        (seq (seq (emit (LogWarning (ContextRequestTimeout (req_user_id p))) (pop_request rid s))
                  (send_if_system ''generation'' (GENERATE_RESPONSE (timeout_payload p))))
             (expire_requests ids)))"
      by (intro seq_state_rule [where Q = "history_capped cfg"])
         (simp_all add: emit_simps send_if_system_simps pop_request_capped Cons.prems Cons.IH)
    then show ?thesis using Some by simp
  qed
qed

lemma expire_limits_capped:
  "history_capped cfg s \<Longrightarrow> history_capped cfg (state_of (expire_limits cfg pol now uuid4 k ids s))"
proof (induction ids arbitrary: s k)
  case Nil
  then show ?case by (simp add: ret_simps)
next
  case (Cons rid ids)
  show ?case
  proof (cases "map_of (pending_limits s) rid")
    case None
    then show ?thesis using Cons.prems by (simp add: raise_def)
  next
    case (Some p)
    have "history_capped cfg (state_of
        (seq (seq (emit (LogWarning (LimitCheckTimeout (lim_user_id p))) (pop_limit rid s))
                  (\<lambda>s'. if AUTH_FALLBACK_TO_DEMO cfg
                        then continue_message_processing cfg pol now (uuid4 k) p s'
                        else ret s'))
             (expire_limits cfg pol now uuid4 (Suc k) ids)))"
      by (intro seq_state_rule [where Q = "history_capped cfg"])
         (simp_all add: emit_simps ret_simps pop_limit_capped Cons.prems Cons.IH continue_capped)
    then show ?thesis using Some by simp
  qed
qed

lemma cleanup_capped:
  "history_capped cfg s \<Longrightarrow> history_capped cfg (state_of (cleanup_expired_requests cfg pol now uuid4 s))"
  unfolding cleanup_expired_requests_def
  by (intro seq_state_rule [where Q = "history_capped cfg"])
     (simp_all add: expire_requests_capped expire_limits_capped)

lemma step_capped:
  "history_capped cfg s \<Longrightarrow> history_capped cfg (state_of (step cfg pol x s))"
  by (cases x) (simp_all add: handle_message_capped cleanup_capped)

lemma run_Cons:
  "fst (run cfg pol (x # xs) s) = fst (run cfg pol xs (state_of (step cfg pol x s)))"
  "snd (run cfg pol (x # xs) s)
     = effects (step cfg pol x s) @ snd (run cfg pol xs (state_of (step cfg pol x s)))"
  by (simp_all add: Let_def case_prod_beta)

lemma run_capped:
  "history_capped cfg s \<Longrightarrow> history_capped cfg (fst (run cfg pol xs s))"
  by (induction xs arbitrary: s) (simp_all add: step_capped run_Cons del: run.simps(2))

section \<open>The two passes of the sweep\<close>

lemma expired_ids_distinct:
  "distinct (map fst table) \<Longrightarrow> distinct (expired_ids timeout now stamp table)"
  by (simp add: expired_ids_def distinct_map_filter)

lemma expired_ids_iff:
  assumes "distinct (map fst table)"
  shows "rid \<in> set (expired_ids timeout now stamp table)
     \<longleftrightarrow> (\<exists>d. map_of table rid = Some d \<and> now - stamp d > timeout)"
  using assms by (force simp: expired_ids_def)

lemma filter_keys_delete:
  "filter (\<lambda>(k, d). k \<notin> set ids) (AList.delete rid al)
     = filter (\<lambda>(k, d). k \<noteq> rid \<and> k \<notin> set ids) al"
  by (induction al) auto

lemma filter_keys_none: "filter (\<lambda>(k, d). k \<notin> set []) al = al"
  by (induction al) auto

lemma expire_requests_run:
  assumes "distinct ids" and "\<forall>rid \<in> set ids. map_of (pending_requests s) rid \<noteq> None"
  shows "raised (expire_requests ids s) = None
     \<and> state_of (expire_requests ids s)
         = s\<lparr>pending_requests := filter (\<lambda>(k, d). k \<notin> set ids) (pending_requests s)\<rparr>
     \<and> generation_requests (effects (expire_requests ids s))
         = (if actor_system s
            then map (\<lambda>rid. timeout_payload (the (map_of (pending_requests s) rid))) ids
            else [])"
  using assms
proof (induction ids arbitrary: s)
  case Nil
  show ?case using filter_keys_none [of "pending_requests s"] by (simp add: ret_simps)
next
  case (Cons rid ids)
  obtain p where p: "map_of (pending_requests s) rid = Some p"
    using Cons.prems(2) by auto
  let ?s1 = "pop_request rid s"
  have pre: "distinct ids" "\<forall>r \<in> set ids. map_of (pending_requests ?s1) r \<noteq> None"
    using Cons.prems by (auto simp: map_of_pop_request)
  note ih = Cons.IH [OF pre]
  have same: "\<forall>r \<in> set ids. map_of (pending_requests ?s1) r = map_of (pending_requests s) r"
    using Cons.prems(1) by (auto simp: map_of_pop_request)
  have gen: "map (\<lambda>r. timeout_payload (the (map_of (pending_requests ?s1) r))) ids
      = map (\<lambda>r. timeout_payload (the (map_of (pending_requests s) r))) ids"
    using same by simp
  have st: "state_of (expire_requests ids ?s1)
      = s\<lparr>pending_requests := filter (\<lambda>(k, d). k \<noteq> rid \<and> k \<notin> set ids) (pending_requests s)\<rparr>"
    using ih by (simp add: pop_request_def filter_keys_delete)
  have ef: "generation_requests (effects (expire_requests ids ?s1))
      = (if actor_system s
         then map (\<lambda>r. timeout_payload (the (map_of (pending_requests s) r))) ids else [])"
    using ih by (simp add: gen actor_system_pop_request)
  have ra: "raised (expire_requests ids ?s1) = None"
    using ih by simp
  show ?case
    by (simp add: p seq_simps emit_simps send_if_system_simps actor_system_pop_request
          generation_requests_append st ef ra)
qed


lemma request_ltm_raised:
  "actor_system s \<Longrightarrow> map_of (pending_requests s) rid \<noteq> None \<Longrightarrow>
   raised (request_ltm cfg pol now rid pending s) = None"
  by (auto simp: request_ltm_def Let_def send_simps ret_simps actor_system_set_request
        split: prod.splits option.splits)

lemma register_request_raised: "raised (register_request pol now rid pending s) = None"
  by (simp add: register_request_def Let_def)

lemma continue_raised:
  assumes "actor_system s" and "valid_policy cfg pol"
  shows "raised (continue_message_processing cfg pol now rid pending s) = None"
proof -
  let ?u = "update_session_mode cfg pol now pending s"
  let ?r = "register_request pol now rid pending (state_of ?u)"
  have u: "raised ?u = None"
    using assms(2) by (simp add: update_session_mode_raised valid_policy_def)
  have su: "actor_system (state_of ?u)"
    using update_session_mode_frame [of s cfg pol now pending] assms(1)
    by (simp add: same_frame_def)
  have sr: "actor_system (state_of ?r)"
    using register_request_frame [of "state_of ?u" pol now rid pending] su
    by (simp add: same_frame_def)
  have l: "raised (request_ltm cfg pol now rid pending (state_of ?r)) = None"
    by (rule request_ltm_raised [OF sr]) (simp add: register_request_requests)
  show ?thesis
    using assms(1) u su sr l
    by (simp add: continue_message_processing_def seq_simps send_simps send_if_system_simps
          register_request_raised)
qed

lemma expire_limits_requests:
  assumes "\<forall>k. uuid4 k \<noteq> r"
  shows "map_of (pending_requests (state_of (expire_limits cfg pol now uuid4 k ids s))) r
     = map_of (pending_requests s) r"
proof (induction ids arbitrary: s k)
  case Nil
  then show ?case by (simp add: ret_simps)
next
  case (Cons rid ids)
  have ne: "r \<noteq> uuid4 k" for k
    using assms by auto
  show ?case
  proof (cases "map_of (pending_limits s) rid")
    case None
    then show ?thesis by (simp add: raise_def)
  next
    case (Some p)
    have "map_of (pending_requests (state_of
        (seq (seq (emit (LogWarning (LimitCheckTimeout (lim_user_id p))) (pop_limit rid s))
                  (\<lambda>s'. if AUTH_FALLBACK_TO_DEMO cfg
                        then continue_message_processing cfg pol now (uuid4 k) p s'
                        else ret s'))
             (expire_limits cfg pol now uuid4 (Suc k) ids)))) r = map_of (pending_requests s) r"
      using ne
      by (intro seq_state_rule
            [where Q = "\<lambda>s'. map_of (pending_requests s') r = map_of (pending_requests s) r"])
         (simp_all add: emit_simps ret_simps pop_limit_def Cons.IH continue_requests)
    then show ?thesis using Some by simp
  qed
qed

lemma expire_limits_generation:
  "generation_requests (effects (expire_limits cfg pol now uuid4 k ids s)) = []"
proof (induction ids arbitrary: s k)
  case Nil
  then show ?case by (simp add: ret_simps)
next
  case (Cons rid ids)
  show ?case
  proof (cases "map_of (pending_limits s) rid")
    case None
    then show ?thesis by (simp add: raise_def)
  next
    case (Some p)
    have "generation_requests (effects
        (seq (seq (emit (LogWarning (LimitCheckTimeout (lim_user_id p))) (pop_limit rid s))
                  (\<lambda>s'. if AUTH_FALLBACK_TO_DEMO cfg
                        then continue_message_processing cfg pol now (uuid4 k) p s'
                        else ret s'))
             (expire_limits cfg pol now uuid4 (Suc k) ids))) = []"
      by (intro seq_generation_rule)
         (simp_all add: emit_simps ret_simps Cons.IH continue_generation)
    then show ?thesis using Some by simp
  qed
qed

lemma expire_limits_absent:
  "map_of (pending_limits s) r = None \<Longrightarrow>
   map_of (pending_limits (state_of (expire_limits cfg pol now uuid4 k ids s))) r = None"
proof (induction ids arbitrary: s k)
  case Nil
  then show ?case by (simp add: ret_simps)
next
  case (Cons rid ids)
  show ?case
  proof (cases "map_of (pending_limits s) rid")
    case None
    then show ?thesis using Cons.prems by (simp add: raise_def)
  next
    case (Some p)
    have "map_of (pending_limits (state_of
        (seq (seq (emit (LogWarning (LimitCheckTimeout (lim_user_id p))) (pop_limit rid s))
                  (\<lambda>s'. if AUTH_FALLBACK_TO_DEMO cfg
                        then continue_message_processing cfg pol now (uuid4 k) p s'
                        else ret s'))
             (expire_limits cfg pol now uuid4 (Suc k) ids)))) r = None"
    proof (intro seq_state_rule [where Q = "\<lambda>s'. map_of (pending_limits s') r = None"])
      show "map_of (pending_limits (state_of (emit (LogWarning (LimitCheckTimeout (lim_user_id p)))
              (pop_limit rid s)))) r = None"
        using Cons.prems by (simp add: emit_simps pop_limit_def delete_conv')
    next
      fix s' :: state
      assume "map_of (pending_limits s') r = None"
      then show "map_of (pending_limits (state_of
            (if AUTH_FALLBACK_TO_DEMO cfg
             then continue_message_processing cfg pol now (uuid4 k) p s' else ret s'))) r = None"
        using continue_frame [of s' cfg pol now "uuid4 k" p]
        by (simp add: ret_simps same_frame_def)
    next
      fix s' :: state
      assume "map_of (pending_limits s') r = None"
      then show "map_of (pending_limits (state_of
            (expire_limits cfg pol now uuid4 (Suc k) ids s'))) r = None"
        by (rule Cons.IH)
    qed
    then show ?thesis using Some by simp
  qed
qed

lemma map_of_filter_keys:
  "map_of (filter (\<lambda>(k, d). k \<notin> A) al) r = (if r \<in> A then None else map_of al r)"
  by (induction al) auto

lemma cleanup_requests_phase:
  assumes "distinct (map fst (pending_requests s))"
    and "ids = expired_ids (STM_CONTEXT_REQUEST_TIMEOUT cfg) now req_timestamp (pending_requests s)"
    and "out = cleanup_expired_requests cfg pol now draw s"
  shows "generation_requests (effects out)
       = (if actor_system s
          then map (\<lambda>rid. timeout_payload (the (map_of (pending_requests s) rid))) ids else [])"
    and "\<forall>k. draw k \<noteq> r \<Longrightarrow>
         map_of (pending_requests (state_of out)) r
           = (if r \<in> set ids then None else map_of (pending_requests s) r)"
proof -
  have d: "distinct ids"
    using assms(1,2) by (simp add: expired_ids_distinct)
  have pr: "\<forall>rid \<in> set ids. map_of (pending_requests s) rid \<noteq> None"
    using assms(1,2) by (auto simp: expired_ids_iff)
  note run = expire_requests_run [OF d pr]
  show "generation_requests (effects out)
       = (if actor_system s
          then map (\<lambda>rid. timeout_payload (the (map_of (pending_requests s) rid))) ids else [])"
    using run
    by (simp add: assms(3) cleanup_expired_requests_def assms(2) [symmetric] seq_simps
          generation_requests_append expire_limits_generation)
  show "map_of (pending_requests (state_of out)) r
           = (if r \<in> set ids then None else map_of (pending_requests s) r)"
    if "\<forall>k. draw k \<noteq> r"
    using run that
    by (simp add: assms(3) cleanup_expired_requests_def assms(2) [symmetric] seq_simps
          expire_limits_requests map_of_filter_keys)
qed

lemma expired_demo:
  "expired_ids timeout now stamp [(k, d)] = (if now - stamp d > timeout then [k] else [])"
  "expired_ids timeout now stamp [] = []"
  by (simp_all add: expired_ids_def)

text \<open>Unfolding sets for the evaluation of sample inputs.\<close>

lemmas demo_defs = demo_request_def join_state_def demo_state_def context_reply_def
  ltm_reply_def ltm_failure_def embedding_reply_def embedding_failure_def default_settings_def
  demo_limit_def demo_policy_def deny_verdict_def allow_verdict_def status_verdict_def
  demo_uuid4_def

lemmas handler_defs = handle_context_response_def handle_ltm_response_def
  handle_embedding_response_def check_ready_to_generate_def fallback_to_recent_search_def
  find_pending_def set_request_def pop_request_def with_context_def with_memories_def
  with_embedding_def without_embedding_def elapsed_exceeds_def send_def send_if_system_def
  emit_def ret_def raise_def seq_def ready_payload_def

lemma seq_emit: "seq (emit e s) f = (f s)\<lparr>effects := e # effects (f s)\<rparr>"
  by (simp add: seq_def emit_def Let_def)

lemma plain_allow_continues:
  assumes "map_of (pending_limits s) rid = Some p" and "rid \<noteq> []"
  shows "handle_limit_response cfg pol now u (plain_allow rid) s
     = continue_message_processing cfg pol now u p (pop_limit rid s)"
  using assms
  by (simp add: handle_limit_response_def plain_allow_def find_pending_def limit_warning_def
        expiry_warning_def seq_ret limit_verdict_def denies_def)

lemma expire_limits_as_allowed:
  assumes "AUTH_FALLBACK_TO_DEMO cfg" and "[] \<notin> set ids"
  shows "expire_limits cfg pol now draw k ids s = continue_as_allowed cfg pol now draw k ids s"
  using assms(2)
proof (induction ids arbitrary: s k)
  case Nil
  then show ?case by simp
next
  case (Cons rid ids)
  show ?case
  proof (cases "map_of (pending_limits s) rid")
    case None
    then show ?thesis by simp
  next
    case (Some p)
    have ne: "rid \<noteq> []" using Cons.prems by auto
    have ih: "expire_limits cfg pol now draw (Suc k) ids = continue_as_allowed cfg pol now draw (Suc k) ids"
      using Cons.IH Cons.prems by auto
    show ?thesis
      using assms(1)
      by (simp add: Some seq_emit plain_allow_continues [OF Some ne] ih emit_simps)
  qed
qed

lemma expire_requests_limits:
  "pending_limits (state_of (expire_requests ids s)) = pending_limits s
   \<and> actor_system (state_of (expire_requests ids s)) = actor_system s"
proof (induction ids arbitrary: s)
  case Nil
  then show ?case by (simp add: ret_simps)
next
  case (Cons rid ids)
  show ?case
  proof (cases "map_of (pending_requests s) rid")
    case None
    then show ?thesis by (simp add: raise_def)
  next
    case (Some p)
    have "(\<lambda>s'. pending_limits s' = pending_limits s \<and> actor_system s' = actor_system s)
      (state_of
        (seq (seq (emit (LogWarning (ContextRequestTimeout (req_user_id p))) (pop_request rid s))
                  (send_if_system ''generation'' (GENERATE_RESPONSE (timeout_payload p))))
             (expire_requests ids)))"
      by (intro seq_state_rule
            [where Q = "\<lambda>s'. pending_limits s' = pending_limits s \<and> actor_system s' = actor_system s"])
         (simp_all add: emit_simps send_if_system_simps pop_request_def Cons.IH)
    then show ?thesis using Some by simp
  qed
qed

lemma expire_limits_removed:
  "raised (expire_limits cfg pol now draw k ids s) = None \<Longrightarrow> rid \<in> set ids \<Longrightarrow>
   map_of (pending_limits (state_of (expire_limits cfg pol now draw k ids s))) rid = None"
proof (induction ids arbitrary: s k)
  case Nil
  then show ?case by simp
next
  case (Cons r ids)
  show ?case
  proof (cases "map_of (pending_limits s) r")
    case None
    then show ?thesis using Cons.prems by (simp add: raise_def)
  next
    case (Some p)
    let ?body = "seq (emit (LogWarning (LimitCheckTimeout (lim_user_id p))) (pop_limit r s))
                   (\<lambda>s'. if AUTH_FALLBACK_TO_DEMO cfg
                         then continue_message_processing cfg pol now (draw k) p s'
                         else ret s')"
    have unf: "expire_limits cfg pol now draw k (r # ids) s
        = seq ?body (expire_limits cfg pol now draw (Suc k) ids)"
      using Some by simp
    have all_ok: "raised (seq ?body (expire_limits cfg pol now draw (Suc k) ids)) = None"
      using Cons.prems(1) unfolding unf .
    have body_ok: "raised ?body = None"
      using all_ok by (simp add: seq_simps(3) [of ?body] split: option.splits)
    have rest_ok: "raised (expire_limits cfg pol now draw (Suc k) ids (state_of ?body)) = None"
      using all_ok body_ok by (simp add: seq_simps(3) [of ?body])
    have st: "state_of (expire_limits cfg pol now draw k (r # ids) s)
        = state_of (expire_limits cfg pol now draw (Suc k) ids (state_of ?body))"
      unfolding unf using body_ok by (simp add: seq_simps(1) [of ?body])
    have lim: "pending_limits (state_of ?body) = AList.delete r (pending_limits s)"
      using continue_frame [of "pop_limit r s" cfg pol now "draw k" p]
      by (simp add: seq_emit_simps ret_simps same_frame_def pop_limit_def)
    show ?thesis
    proof (cases "rid = r")
      case True
      have "map_of (pending_limits (state_of ?body)) rid = None"
        by (simp add: lim True delete_conv')
      then show ?thesis
        unfolding st by (rule expire_limits_absent)
    next
      case False
      then have "rid \<in> set ids" using Cons.prems(2) by simp
      then show ?thesis
        unfolding st by (rule Cons.IH [OF rest_ok])
    qed
  qed
qed


lemma expire_limits_raised:
  assumes "valid_policy cfg pol"
  shows "actor_system s \<Longrightarrow> distinct ids \<Longrightarrow>
     \<forall>rid \<in> set ids. map_of (pending_limits s) rid \<noteq> None \<Longrightarrow>
     raised (expire_limits cfg pol now draw k ids s) = None"
proof (induction ids arbitrary: s k)
  case Nil
  then show ?case by (simp add: ret_simps)
next
  case (Cons r ids)
  obtain p where p: "map_of (pending_limits s) r = Some p"
    using Cons.prems(3) by auto
  let ?body = "seq (emit (LogWarning (LimitCheckTimeout (lim_user_id p))) (pop_limit r s))
                 (\<lambda>s'. if AUTH_FALLBACK_TO_DEMO cfg
                       then continue_message_processing cfg pol now (draw k) p s'
                       else ret s')"
  have unf: "expire_limits cfg pol now draw k (r # ids) s
      = seq ?body (expire_limits cfg pol now draw (Suc k) ids)"
    using p by simp
  have body_ok: "raised ?body = None"
    using Cons.prems(1) assms
    by (simp add: seq_emit_simps ret_simps continue_raised actor_system_pop_limit)
  have fr: "pending_limits (state_of ?body) = AList.delete r (pending_limits s)
      \<and> actor_system (state_of ?body) = actor_system s"
    using continue_frame [of "pop_limit r s" cfg pol now "draw k" p]
    by (simp add: seq_emit_simps ret_simps same_frame_def pop_limit_def)
  have present: "\<forall>rid \<in> set ids. map_of (pending_limits (state_of ?body)) rid \<noteq> None"
    using Cons.prems(2,3) by (auto simp: fr delete_conv')
  have "raised (expire_limits cfg pol now draw (Suc k) ids (state_of ?body)) = None"
    using Cons.prems(1,2) by (intro Cons.IH present) (simp_all add: fr)
  then show ?case
    unfolding unf using body_ok by (simp add: seq_simps(3) [of ?body])
qed

lemma expire_limits_disabled:
  assumes "\<not> AUTH_FALLBACK_TO_DEMO cfg"
  shows "distinct ids \<Longrightarrow> \<forall>rid \<in> set ids. map_of (pending_limits s) rid \<noteq> None \<Longrightarrow>
     raised (expire_limits cfg pol now draw k ids s) = None
     \<and> state_of (expire_limits cfg pol now draw k ids s)
         = s\<lparr>pending_limits := filter (\<lambda>(k, d). k \<notin> set ids) (pending_limits s)\<rparr>"
proof (induction ids arbitrary: s k)
  case Nil
  show ?case using filter_keys_none [of "pending_limits s"] by (simp add: ret_simps)
next
  case (Cons r ids)
  obtain p where p: "map_of (pending_limits s) r = Some p"
    using Cons.prems(2) by auto
  let ?s1 = "pop_limit r s"
  have pre: "distinct ids" "\<forall>rid \<in> set ids. map_of (pending_limits ?s1) rid \<noteq> None"
    using Cons.prems by (auto simp: pop_limit_def delete_conv')
  note ih = Cons.IH [OF pre, of "Suc k"]
  have st: "state_of (expire_limits cfg pol now draw (Suc k) ids ?s1)
      = s\<lparr>pending_limits := filter (\<lambda>(k, d). k \<noteq> r \<and> k \<notin> set ids) (pending_limits s)\<rparr>"
    using ih by (simp add: pop_limit_def filter_keys_delete)
  have ra: "raised (expire_limits cfg pol now draw (Suc k) ids ?s1) = None"
    using ih by simp
  show ?case
    using assms by (simp add: p seq_simps emit_simps ret_simps st ra)
qed


lemma seq_cong_state: "f (state_of r) = g (state_of r) \<Longrightarrow> seq r f = seq r g"
  by (simp add: seq_def Let_def split: option.splits)

text \<open>One turn of the sweep of the limit checks, in closed form.\<close>

lemma expire_limits_append:
  "expire_limits cfg pol now draw k (xs @ ys) s
     = seq (expire_limits cfg pol now draw k xs s)
           (expire_limits cfg pol now draw (k + length xs) ys)"
proof (induction xs arbitrary: s k)
  case Nil
  then show ?case by (simp add: seq_ret)
next
  case (Cons r xs)
  show ?case
  proof (cases "map_of (pending_limits s) r")
    case None
    then show ?thesis by (simp add: seq_raise)
  next
    case (Some p)
    have ih: "expire_limits cfg pol now draw (Suc k) (xs @ ys)
        = (\<lambda>s. seq (expire_limits cfg pol now draw (Suc k) xs s)
                  (expire_limits cfg pol now draw (Suc k + length xs) ys))"
      by (rule ext) (rule Cons.IH)
    show ?thesis using Some by (simp add: seq_assoc ih)
  qed
qed

lemma expire_limits_other:
  assumes "rid \<notin> set ids"
  shows "map_of (pending_limits (state_of (expire_limits cfg pol now draw k ids s))) rid
       = map_of (pending_limits s) rid
     \<and> actor_system (state_of (expire_limits cfg pol now draw k ids s)) = actor_system s"
  using assms
proof (induction ids arbitrary: s k)
  case Nil
  then show ?case by (simp add: ret_simps)
next
  case (Cons r ids)
  show ?case
  proof (cases "map_of (pending_limits s) r")
    case None
    then show ?thesis by (simp add: raise_def)
  next
    case (Some p)
    let ?Q = "\<lambda>s'. map_of (pending_limits s') rid = map_of (pending_limits s) rid
                \<and> actor_system s' = actor_system s"
    have "?Q (state_of
        (seq (seq (emit (LogWarning (LimitCheckTimeout (lim_user_id p))) (pop_limit r s))
                  (\<lambda>s'. if AUTH_FALLBACK_TO_DEMO cfg
                        then continue_message_processing cfg pol now (draw k) p s'
                        else ret s'))
             (expire_limits cfg pol now draw (Suc k) ids)))"
    proof (intro seq_state_rule [where Q = ?Q])
      show "?Q (state_of (emit (LogWarning (LimitCheckTimeout (lim_user_id p))) (pop_limit r s)))"
        using Cons.prems by (simp add: emit_simps pop_limit_def delete_conv')
    next
      fix s' :: state
      assume "?Q s'"
      then show "?Q (state_of
            (if AUTH_FALLBACK_TO_DEMO cfg
             then continue_message_processing cfg pol now (draw k) p s' else ret s'))"
        using continue_frame [of s' cfg pol now "draw k" p]
        by (simp add: ret_simps same_frame_def)
    next
      fix s' :: state
      assume "?Q s'"
      then show "?Q (state_of (expire_limits cfg pol now draw (Suc k) ids s'))"
        using Cons.IH [where s = s' and k = "Suc k"] Cons.prems by simp
    qed
    then show ?thesis using Some by simp
  qed
qed

lemma update_session_mode_exact:
  assumes "valid_policy cfg pol"
  shows "update_session_mode cfg pol now p s =
     (let session = objs s (lim_session p);
          new_mode = fst (determine_generation_mode pol (lim_text p) session);
          confidence = snd (determine_generation_mode pol (lim_text p) session);
          mode_changed = (new_mode \<noteq> current_mode session);
          updated = session
            \<lparr>last_mode_change :=
               (if mode_changed then Some now else last_mode_change session),
             current_mode := new_mode, mode_confidence := confidence,
             mode_history := append_mode cfg new_mode (mode_history session),
             message_count := message_count session + 1, last_activity := now\<rparr>
      in \<lparr>state_of = s\<lparr>objs := (objs s)(lim_session p := updated)\<rparr>,
          effects =
            (if mode_changed
             then [AppendEvent (ModeDetectedEvent (lim_user_id p) new_mode confidence
                                  (previous_mode (mode_history updated)) now)]
             else []),
          raised = None\<rparr>)"
proof -
  obtain m c where mc: "determine_generation_mode pol (lim_text p) (objs s (lim_session p)) = (m, c)"
    by (cases "determine_generation_mode pol (lim_text p) (objs s (lim_session p))")
  have "fst (determine_generation_mode pol (lim_text p) (objs s (lim_session p)))
          \<in> set valid_modes
      \<and> PYDANTIC_CONFIDENCE_MIN cfg
          \<le> snd (determine_generation_mode pol (lim_text p) (objs s (lim_session p)))
      \<and> snd (determine_generation_mode pol (lim_text p) (objs s (lim_session p)))
          \<le> PYDANTIC_CONFIDENCE_MAX cfg"
    using assms unfolding valid_policy_def by blast
  then have ok: "m \<in> set valid_modes" "PYDANTIC_CONFIDENCE_MIN cfg \<le> c"
      "c \<le> PYDANTIC_CONFIDENCE_MAX cfg"
    by (simp_all add: mc)
  show ?thesis
    using ok
    by (cases "m = current_mode (objs s (lim_session p))")
       (simp_all add: mc update_session_mode_def Let_def store_session_def
          assign_current_mode_def assign_mode_confidence_def)
qed

lemma continued_turn_exact:
  assumes "actor_system s" and "valid_policy cfg pol"
  shows "seq (emit (LogWarning (LimitCheckTimeout (lim_user_id p))) (pop_limit rid s))
             (continue_message_processing cfg pol now request_id p)
     = (let session = objs s (lim_session p);
            (new_mode, confidence) = determine_generation_mode pol (lim_text p) session;
            mode_changed = (new_mode \<noteq> current_mode session);
            updated = session
              \<lparr>last_mode_change :=
                 (if mode_changed then Some now else last_mode_change session),
               current_mode := new_mode, mode_confidence := confidence,
               mode_history := append_mode cfg new_mode (mode_history session),
               message_count := message_count session + 1, last_activity := now\<rparr>;
            include_prompt = should_include_prompt pol updated;
            (need_ltm, search_type) = should_request_ltm pol (lim_text p) updated;
            created = new_request now include_prompt p updated;
            waiting = created
              \<lparr>expecting_ltm := Some need_ltm, stm_received := Some False,
               ltm_received := Some False, stm_context := PyNone, ltm_memories := PyNone\<rparr>;
            searching = waiting
              \<lparr>ltm_search_type := Some search_type, ltm_request_timestamp := Some now\<rparr>;
            joined =
              (if \<not> LTM_REQUEST_ENABLED cfg then created
               else if \<not> need_ltm then waiting
               else if search_type = ''vector''
               then searching\<lparr>expecting_embedding := Some True,
                              embedding_received := Some False\<rparr>
               else searching)
        in \<lparr>state_of =
              s\<lparr>pending_limits := AList.delete rid (pending_limits s),
                objs := (objs s)(lim_session p := updated),
                pending_requests := AList.update request_id joined (pending_requests s)\<rparr>,
            effects =
              [LogWarning (LimitCheckTimeout (lim_user_id p)),
               Send ''perception'' (ANALYZE_EMOTION (lim_user_id p) (lim_text p))]
              @ (if mode_changed
                 then [AppendEvent (ModeDetectedEvent (lim_user_id p) new_mode confidence
                                      (previous_mode (mode_history updated)) now)]
                 else [])
              @ (if include_prompt
                 then [AppendEvent (PromptInclusionEvent (lim_user_id p)
                                      (message_count updated) (get_prompt_reason pol updated))]
                 else [])
              @ [Send ''memory'' (GET_CONTEXT (lim_user_id p) request_id
                                    (STM_CONTEXT_SIZE_FOR_GENERATION cfg))]
              @ (if LTM_REQUEST_ENABLED cfg \<and> need_ltm
                 then [Send ''ltm''
                         (if search_type = ''vector''
                          then GENERATE_EMBEDDING (lim_text p)
                                 (case last_emotion_vector updated of
                                    None \<Rightarrow> [] | Some v \<Rightarrow> v)
                                 request_id
                          else GET_LTM_MEMORY (lim_user_id p) search_type None
                                 (LTM_CONTEXT_LIMIT cfg) request_id)]
                 else []),
            raised = None\<rparr>)"
proof -
  have sys: "actor_system (pop_limit rid s)"
    using assms(1) by (simp add: pop_limit_def)
  show ?thesis
    using assms(1)
    by (simp add: continue_message_processing_def update_session_mode_exact [OF assms(2)]
          register_request_def request_ltm_def new_request_def
          seq_def emit_def ret_def raise_def send_def send_if_system_def
          set_request_def pop_limit_def Let_def update_conv'
          split: prod.splits)
qed

section \<open>An id that is not in a table does not come back\<close>

lemma request_ids_iff: "r \<in> request_ids s \<longleftrightarrow> map_of (pending_requests s) r \<noteq> None"
  by (simp add: request_ids_def map_of_eq_None_iff)

lemma limit_ids_iff: "r \<in> limit_ids s \<longleftrightarrow> map_of (pending_limits s) r \<noteq> None"
  by (simp add: limit_ids_def map_of_eq_None_iff)

lemma check_ready_other:
  "r \<noteq> rid \<Longrightarrow>
   map_of (pending_requests (state_of (check_ready_to_generate cfg now rid s))) r
     = map_of (pending_requests s) r"
proof (cases "map_of (pending_requests s) rid")
  case None
  then show ?thesis by (simp add: check_ready_to_generate_def ret_simps)
next
  case (Some p)
  assume "r \<noteq> rid"
  then show ?thesis
    by (simp add: check_ready_found [OF Some] fallback_found [OF Some] send_simps
          send_if_system_simps ret_simps map_of_set_request map_of_pop_request)
qed

lemma handle_context_other:
  assumes "map_of (pending_requests s) r = None"
  shows "map_of (pending_requests (state_of (handle_context_response cfg now m s))) r = None"
proof (cases "find_pending (ctx_request_id m) (pending_requests s)")
  case None
  then show ?thesis using assms by (simp add: handle_context_response_def emit_simps)
next
  case (Some a)
  obtain rid p where a: "a = (rid, p)" by (cases a)
  have "r \<noteq> rid" using Some a assms by (auto simp: find_pending_Some)
  then show ?thesis
    using assms
    by (simp add: handle_context_known [OF Some [unfolded a]] check_ready_other
          map_of_set_request)
qed

lemma handle_ltm_other:
  assumes "map_of (pending_requests s) r = None"
  shows "map_of (pending_requests (state_of (handle_ltm_response cfg now m s))) r = None"
proof (cases "find_pending (ltm_request_id m) (pending_requests s)")
  case None
  then show ?thesis using assms by (simp add: handle_ltm_response_def emit_simps)
next
  case (Some a)
  obtain rid p where a: "a = (rid, p)" by (cases a)
  have "r \<noteq> rid" using Some a assms by (auto simp: find_pending_Some)
  then show ?thesis
    using assms
    by (simp add: handle_ltm_known [OF Some [unfolded a]] check_ready_other
          map_of_set_request)
qed

lemma handle_embedding_other:
  assumes "map_of (pending_requests s) r = None"
  shows "map_of (pending_requests (state_of (handle_embedding_response cfg m s))) r = None"
proof (cases "find_pending (emb_request_id m) (pending_requests s)")
  case None
  then show ?thesis using assms by (simp add: handle_embedding_response_def emit_simps)
next
  case (Some a)
  obtain rid p where a: "a = (rid, p)" by (cases a)
  have known: "map_of (pending_requests s) rid = Some p"
    using Some a by (simp add: find_pending_Some)
  have "r \<noteq> rid" using known assms by auto
  then show ?thesis
    using assms
    by (simp add: handle_embedding_known [OF Some [unfolded a]] send_simps seq_emit_simps
          fallback_found [OF known] map_of_set_request)
qed

lemma limit_verdict_requests:
  "r \<noteq> uuid \<Longrightarrow>
   map_of (pending_requests (state_of (limit_verdict cfg pol now uuid m p s))) r
     = map_of (pending_requests s) r"
  by (cases "denies cfg m")
     (simp_all add: limit_verdict_denied limit_verdict_allowed continue_requests)

lemma handle_limit_requests:
  assumes "r \<noteq> uuid"
  shows "map_of (pending_requests (state_of (handle_limit_response cfg pol now uuid m s))) r
     = map_of (pending_requests s) r"
proof (cases "is_status_check m \<or> is_auth_check m")
  case True
  then show ?thesis by (simp add: handle_limit_response_def ret_simps)
next
  case False
  show ?thesis
  proof (cases "find_pending (lr_request_id m) (pending_limits s)")
    case None
    then show ?thesis using False by (simp add: handle_limit_response_def emit_simps)
  next
    case (Some a)
    obtain rid p where a: "a = (rid, p)" by (cases a)
    have "map_of (pending_requests (state_of
        (seq (seq (limit_warning m p (pop_limit rid s)) (expiry_warning m p))
             (limit_verdict cfg pol now uuid m p)))) r = map_of (pending_requests s) r"
      by (intro seq_state_rule
            [where Q = "\<lambda>s'. map_of (pending_requests s') r = map_of (pending_requests s) r"])
         (simp_all add: limit_warning_state expiry_warning_state pop_limit_def
            limit_verdict_requests [OF assms])
    then show ?thesis using False Some a by (simp add: handle_limit_response_def)
  qed
qed

lemma handle_limit_limits:
  assumes "map_of (pending_limits s) r = None"
  shows "map_of (pending_limits (state_of (handle_limit_response cfg pol now uuid m s))) r = None"
proof (cases "is_status_check m \<or> is_auth_check m")
  case True
  then show ?thesis using assms by (simp add: handle_limit_response_def ret_simps)
next
  case False
  show ?thesis
  proof (cases "find_pending (lr_request_id m) (pending_limits s)")
    case None
    then show ?thesis using False assms by (simp add: handle_limit_response_def emit_simps)
  next
    case (Some a)
    obtain rid p where a: "a = (rid, p)" by (cases a)
    have "map_of (pending_limits (state_of
        (seq (seq (limit_warning m p (pop_limit rid s)) (expiry_warning m p))
             (limit_verdict cfg pol now uuid m p)))) r = None"
    proof (intro seq_state_rule [where Q = "\<lambda>s'. map_of (pending_limits s') r = None"])
      show "map_of (pending_limits (state_of (limit_warning m p (pop_limit rid s)))) r = None"
        using assms by (simp add: limit_warning_state pop_limit_def delete_conv')
    next
      fix s' :: state
      assume "map_of (pending_limits s') r = None"
      then show "map_of (pending_limits (state_of (expiry_warning m p s'))) r = None"
        by (simp add: expiry_warning_state)
    next
      fix s' :: state
      assume "map_of (pending_limits s') r = None"
      then show "map_of (pending_limits (state_of (limit_verdict cfg pol now uuid m p s'))) r = None"
        using continue_frame [of s' cfg pol now uuid p]
        by (cases "denies cfg m")
           (simp_all add: limit_verdict_denied limit_verdict_allowed same_frame_def)
    qed
    then show ?thesis using False Some a by (simp add: handle_limit_response_def)
  qed
qed

lemma handle_user_tables:
  "pending_requests (state_of (handle_user_message now uuid m s)) = pending_requests s"
  "r \<noteq> uuid \<Longrightarrow> map_of (pending_limits s) r = None \<Longrightarrow>
     map_of (pending_limits (state_of (handle_user_message now uuid m s))) r = None"
  by (auto simp: handle_user_message_def get_or_create_session_def seq_simps ret_simps
        emit_simps raise_def send_simps send_if_system_simps store_session_def update_conv'
        split: option.splits)


lemma expire_requests_absent:
  "map_of (pending_requests s) r = None \<Longrightarrow>
   map_of (pending_requests (state_of (expire_requests ids s))) r = None"
proof (induction ids arbitrary: s)
  case Nil
  then show ?case by (simp add: ret_simps)
next
  case (Cons rid ids)
  show ?case
  proof (cases "map_of (pending_requests s) rid")
    case None
    then show ?thesis using Cons.prems by (simp add: raise_def)
  next
    case (Some p)
    have "map_of (pending_requests (state_of
        (seq (seq (emit (LogWarning (ContextRequestTimeout (req_user_id p))) (pop_request rid s))
                  (send_if_system ''generation'' (GENERATE_RESPONSE (timeout_payload p))))
             (expire_requests ids)))) r = None"
      by (intro seq_state_rule [where Q = "\<lambda>s'. map_of (pending_requests s') r = None"])
         (simp_all add: emit_simps send_if_system_simps map_of_pop_request Cons.prems Cons.IH)
    then show ?thesis using Some by simp
  qed
qed

lemma cleanup_absent_requests:
  assumes "map_of (pending_requests s) r = None" and "\<forall>k. draw k \<noteq> r"
  shows "map_of (pending_requests (state_of (cleanup_expired_requests cfg pol now draw s))) r = None"
  unfolding cleanup_expired_requests_def
  by (intro seq_state_rule [where Q = "\<lambda>s'. map_of (pending_requests s') r = None"])
     (simp_all add: expire_requests_absent assms expire_limits_requests)

lemma cleanup_absent_limits:
  assumes "map_of (pending_limits s) r = None"
  shows "map_of (pending_limits (state_of (cleanup_expired_requests cfg pol now draw s))) r = None"
  unfolding cleanup_expired_requests_def
  by (intro seq_state_rule [where Q = "\<lambda>s'. map_of (pending_limits s') r = None"])
     (simp_all add: expire_requests_limits assms expire_limits_absent)

lemma step_absent_requests:
  assumes "r \<notin> request_ids s" and "r \<notin> drawn x"
  shows "r \<notin> request_ids (state_of (step cfg pol x s))"
proof (cases x)
  case (Deliver now uuid m)
  then have ne: "r \<noteq> uuid" using assms(2) by simp
  show ?thesis
    using assms(1)
    by (cases m)
       (simp_all add: Deliver request_ids_iff handle_context_other handle_ltm_other
          handle_embedding_other handle_limit_requests [OF ne] handle_user_tables)
next
  case (Sweep now draw)
  then have "\<forall>k. draw k \<noteq> r" using assms(2) by auto
  then show ?thesis
    using assms(1) by (simp add: Sweep request_ids_iff cleanup_absent_requests)
qed

lemma step_absent_limits:
  assumes "r \<notin> limit_ids s" and "r \<notin> drawn x"
  shows "r \<notin> limit_ids (state_of (step cfg pol x s))"
proof (cases x)
  case (Deliver now uuid m)
  then have ne: "r \<noteq> uuid" using assms(2) by simp
  show ?thesis
  proof (cases m)
    case (USER_MESSAGE u)
    then show ?thesis
      using assms(1) ne by (simp add: Deliver limit_ids_iff handle_user_tables)
  next
    case (CONTEXT_RESPONSE c)
    then show ?thesis
      using assms(1) handle_context_frame [of s cfg now c]
      by (simp add: Deliver limit_ids_iff same_frame_def)
  next
    case (LTM_RESPONSE l)
    then show ?thesis
      using assms(1) handle_ltm_frame [of s cfg now l]
      by (simp add: Deliver limit_ids_iff same_frame_def)
  next
    case (EMBEDDING_RESPONSE e)
    then show ?thesis
      using assms(1) handle_embedding_frame [of s cfg e]
      by (simp add: Deliver limit_ids_iff same_frame_def)
  next
    case (LIMIT_RESPONSE v)
    then show ?thesis
      using assms(1) by (simp add: Deliver limit_ids_iff handle_limit_limits)
  qed
next
  case (Sweep now draw)
  then show ?thesis
    using assms(1) by (simp add: limit_ids_iff cleanup_absent_limits)
qed

lemma removal_count_absent:
  assumes stays: "\<And>x s. r \<notin> ids s \<Longrightarrow> r \<notin> drawn x \<Longrightarrow> r \<notin> ids (state_of (step cfg pol x s))"
  shows "r \<notin> ids s \<Longrightarrow> r \<notin> \<Union> (drawn ` set xs) \<Longrightarrow> removal_count cfg pol ids r xs s = 0"
  by (induction xs arbitrary: s) (simp_all add: stays)

lemma removal_count_once:
  assumes stays: "\<And>x s. r \<notin> ids s \<Longrightarrow> r \<notin> drawn x \<Longrightarrow> r \<notin> ids (state_of (step cfg pol x s))"
  shows "r \<notin> \<Union> (drawn ` set xs) \<Longrightarrow> removal_count cfg pol ids r xs s \<le> 1"
proof (induction xs arbitrary: s)
  case Nil
  then show ?case by simp
next
  case (Cons x xs)
  show ?case
  proof (cases "r \<in> ids s \<and> r \<notin> ids (state_of (step cfg pol x s))")
    case True
    have "removal_count cfg pol ids r xs (state_of (step cfg pol x s)) = 0"
      by (rule removal_count_absent [where ids = ids, OF stays])
         (use True Cons.prems in auto)
    then show ?thesis using True by simp
  next
    case False
    then show ?thesis using Cons.IH [of "state_of (step cfg pol x s)"] Cons.prems by auto
  qed
qed

lemma run_absent:
  assumes stays: "\<And>x s. r \<notin> ids s \<Longrightarrow> r \<notin> drawn x \<Longrightarrow> r \<notin> ids (state_of (step cfg pol x s))"
  shows "r \<notin> ids s \<Longrightarrow> r \<notin> \<Union> (drawn ` set xs) \<Longrightarrow> r \<notin> ids (fst (run cfg pol xs s))"
  by (induction xs arbitrary: s) (simp_all add: stays run_Cons del: run.simps(2))

section \<open>The table of pending generation records stays a dictionary\<close>

lemma keys_distinct_set_request: "keys_distinct s \<Longrightarrow> keys_distinct (set_request rid p s)"
  by (simp add: keys_distinct_def set_request_def distinct_update)

lemma keys_distinct_pop_request: "keys_distinct s \<Longrightarrow> keys_distinct (pop_request rid s)"
  by (simp add: keys_distinct_def pop_request_def distinct_delete)

lemma keys_distinct_cong:
  "pending_requests s' = pending_requests s \<Longrightarrow> keys_distinct s' = keys_distinct s"
  by (simp add: keys_distinct_def)

lemma check_ready_distinct:
  assumes "keys_distinct s"
  shows "keys_distinct (state_of (check_ready_to_generate cfg now rid s))"
proof (cases "map_of (pending_requests s) rid")
  case None
  then show ?thesis using assms by (simp add: check_ready_to_generate_def ret_simps)
next
  case (Some p)
  show ?thesis
    using assms
    by (simp add: check_ready_found [OF Some] fallback_found [OF Some] send_simps
          send_if_system_simps ret_simps keys_distinct_set_request keys_distinct_pop_request)
qed

lemma handle_context_distinct:
  assumes "keys_distinct s"
  shows "keys_distinct (state_of (handle_context_response cfg now m s))"
proof (cases "find_pending (ctx_request_id m) (pending_requests s)")
  case None
  then show ?thesis using assms by (simp add: handle_context_response_def emit_simps)
next
  case (Some a)
  obtain rid p where a: "a = (rid, p)" by (cases a)
  show ?thesis
    using assms
    by (simp add: handle_context_known [OF Some [unfolded a]] check_ready_distinct
          keys_distinct_set_request)
qed

lemma handle_ltm_distinct:
  assumes "keys_distinct s"
  shows "keys_distinct (state_of (handle_ltm_response cfg now m s))"
proof (cases "find_pending (ltm_request_id m) (pending_requests s)")
  case None
  then show ?thesis using assms by (simp add: handle_ltm_response_def emit_simps)
next
  case (Some a)
  obtain rid p where a: "a = (rid, p)" by (cases a)
  show ?thesis
    using assms
    by (simp add: handle_ltm_known [OF Some [unfolded a]] check_ready_distinct
          keys_distinct_set_request)
qed

lemma handle_embedding_distinct:
  assumes "keys_distinct s"
  shows "keys_distinct (state_of (handle_embedding_response cfg m s))"
proof (cases "find_pending (emb_request_id m) (pending_requests s)")
  case None
  then show ?thesis using assms by (simp add: handle_embedding_response_def emit_simps)
next
  case (Some a)
  obtain rid p where a: "a = (rid, p)" by (cases a)
  have known: "map_of (pending_requests s) rid = Some p"
    using Some a by (simp add: find_pending_Some)
  show ?thesis
    using assms
    by (simp add: handle_embedding_known [OF Some [unfolded a]] send_simps seq_emit_simps
          fallback_found [OF known] keys_distinct_set_request)
qed

lemma request_ltm_distinct:
  "keys_distinct s \<Longrightarrow> keys_distinct (state_of (request_ltm cfg pol now rid pending s))"
  by (auto simp: request_ltm_def Let_def send_simps ret_simps raise_def
        keys_distinct_set_request split: prod.splits option.splits)

lemma continue_distinct:
  assumes "keys_distinct s"
  shows "keys_distinct (state_of (continue_message_processing cfg pol now rid pending s))"
  unfolding continue_message_processing_def
proof (intro seq_state_rule [where Q = keys_distinct])
  show "keys_distinct (state_of (send_if_system ''perception''
          (ANALYZE_EMOTION (lim_user_id pending) (lim_text pending)) s))"
    using assms by (simp add: send_if_system_simps)
next
  fix s' assume "keys_distinct s'"
  then show "keys_distinct (state_of (update_session_mode cfg pol now pending s'))"
    by (simp add: keys_distinct_def update_session_mode_requests)
next
  fix s' assume "keys_distinct s'"
  then show "keys_distinct (state_of (register_request pol now rid pending s'))"
    by (simp add: register_request_def Let_def keys_distinct_set_request)
next
  fix s' assume "keys_distinct s'"
  then show "keys_distinct (state_of (send ''memory''
          (GET_CONTEXT (lim_user_id pending) rid (STM_CONTEXT_SIZE_FOR_GENERATION cfg)) s'))"
    by (simp add: send_simps)
next
  fix s' assume "keys_distinct s'"
  then show "keys_distinct (state_of (request_ltm cfg pol now rid pending s'))"
    by (rule request_ltm_distinct)
qed

lemma handle_limit_distinct:
  assumes "keys_distinct s"
  shows "keys_distinct (state_of (handle_limit_response cfg pol now uuid m s))"
proof (cases "is_status_check m \<or> is_auth_check m")
  case True
  then show ?thesis using assms by (simp add: handle_limit_response_def ret_simps)
next
  case False
  show ?thesis
  proof (cases "find_pending (lr_request_id m) (pending_limits s)")
    case None
    then show ?thesis using False assms by (simp add: handle_limit_response_def emit_simps)
  next
    case (Some a)
    obtain rid p where a: "a = (rid, p)" by (cases a)
    have "keys_distinct (state_of
        (seq (seq (limit_warning m p (pop_limit rid s)) (expiry_warning m p))
             (limit_verdict cfg pol now uuid m p)))"
    proof (intro seq_state_rule [where Q = keys_distinct])
      show "keys_distinct (state_of (limit_warning m p (pop_limit rid s)))"
        using assms by (simp add: limit_warning_state keys_distinct_def pop_limit_def)
    next
      fix s' assume "keys_distinct s'"
      then show "keys_distinct (state_of (expiry_warning m p s'))"
        by (simp add: expiry_warning_state)
    next
      fix s' assume "keys_distinct s'"
      then show "keys_distinct (state_of (limit_verdict cfg pol now uuid m p s'))"
        by (cases "denies cfg m")
           (simp_all add: limit_verdict_denied limit_verdict_allowed continue_distinct)
    qed
    then show ?thesis using False Some a by (simp add: handle_limit_response_def)
  qed
qed

lemma handle_message_distinct:
  assumes "keys_distinct s"
  shows "keys_distinct (state_of (handle_message cfg pol now uuid m s))"
proof (cases m)
  case (USER_MESSAGE u)
  then show ?thesis
    using assms by (simp add: keys_distinct_def handle_user_tables)
qed (simp_all add: assms handle_context_distinct handle_ltm_distinct
       handle_embedding_distinct handle_limit_distinct)

lemma expire_requests_distinct:
  "keys_distinct s \<Longrightarrow> keys_distinct (state_of (expire_requests ids s))"
proof (induction ids arbitrary: s)
  case Nil
  then show ?case by (simp add: ret_simps)
next
  case (Cons rid ids)
  show ?case
  proof (cases "map_of (pending_requests s) rid")
    case None
    then show ?thesis using Cons.prems by (simp add: raise_def)
  next
    case (Some p)
    have "keys_distinct (state_of
        (seq (seq (emit (LogWarning (ContextRequestTimeout (req_user_id p))) (pop_request rid s))
                  (send_if_system ''generation'' (GENERATE_RESPONSE (timeout_payload p))))
             (expire_requests ids)))"
      by (intro seq_state_rule [where Q = keys_distinct])
         (simp_all add: emit_simps send_if_system_simps keys_distinct_pop_request
            Cons.prems Cons.IH)
    then show ?thesis using Some by simp
  qed
qed

lemma expire_limits_distinct:
  "keys_distinct s \<Longrightarrow> keys_distinct (state_of (expire_limits cfg pol now draw k ids s))"
proof (induction ids arbitrary: s k)
  case Nil
  then show ?case by (simp add: ret_simps)
next
  case (Cons rid ids)
  show ?case
  proof (cases "map_of (pending_limits s) rid")
    case None
    then show ?thesis using Cons.prems by (simp add: raise_def)
  next
    case (Some p)
    have "keys_distinct (state_of
        (seq (seq (emit (LogWarning (LimitCheckTimeout (lim_user_id p))) (pop_limit rid s))
                  (\<lambda>s'. if AUTH_FALLBACK_TO_DEMO cfg
                        then continue_message_processing cfg pol now (draw k) p s'
                        else ret s'))
             (expire_limits cfg pol now draw (Suc k) ids)))"
    proof (intro seq_state_rule [where Q = keys_distinct])
      show "keys_distinct (state_of (emit (LogWarning (LimitCheckTimeout (lim_user_id p)))
              (pop_limit rid s)))"
        using Cons.prems by (simp add: emit_simps keys_distinct_def pop_limit_def)
    next
      fix s' assume "keys_distinct s'"
      then show "keys_distinct (state_of
            (if AUTH_FALLBACK_TO_DEMO cfg
             then continue_message_processing cfg pol now (draw k) p s' else ret s'))"
        by (simp add: ret_simps continue_distinct)
    next
      fix s' assume "keys_distinct s'"
      then show "keys_distinct (state_of (expire_limits cfg pol now draw (Suc k) ids s'))"
        by (rule Cons.IH)
    qed
    then show ?thesis using Some by simp
  qed
qed

lemma step_distinct:
  assumes "keys_distinct s"
  shows "keys_distinct (state_of (step cfg pol x s))"
proof (cases x)
  case (Deliver now uuid m)
  then show ?thesis using assms by (simp add: handle_message_distinct)
next
  case (Sweep now draw)
  have "keys_distinct (state_of (cleanup_expired_requests cfg pol now draw s))"
    unfolding cleanup_expired_requests_def
    by (intro seq_state_rule [where Q = keys_distinct])
       (simp_all add: assms expire_requests_distinct expire_limits_distinct)
  then show ?thesis by (simp add: Sweep)
qed

section \<open>Generation requests and removed records\<close>

lemma finite_request_ids: "finite (request_ids s)"
  by (simp add: request_ids_def)

lemma card_removed_ge:
  assumes "r \<in> request_ids s" and "r \<notin> request_ids s'"
  shows "1 \<le> card (request_ids s - request_ids s')"
proof -
  have "r \<in> request_ids s - request_ids s'" using assms by simp
  moreover have "finite (request_ids s - request_ids s')"
    by (simp add: finite_request_ids)
  ultimately show ?thesis
    by (metis One_nat_def Suc_leI card_gt_0_iff empty_iff)
qed

lemma check_ready_dispatch:
  assumes "map_of (pending_requests s) rid = Some p"
  shows "generation_requests (effects (check_ready_to_generate cfg now rid s)) = []
     \<or> (length (generation_requests (effects (check_ready_to_generate cfg now rid s))) = 1
        \<and> map_of (pending_requests (state_of (check_ready_to_generate cfg now rid s))) rid = None)"
  using check_ready_summary [OF assms, of cfg now]
  by (cases "awaiting_embedding p") (auto split: if_splits)

lemma handle_context_dispatch:
  "length (generation_requests (effects (handle_context_response cfg now m s)))
     \<le> card (request_ids s - request_ids (state_of (handle_context_response cfg now m s)))"
proof (cases "find_pending (ctx_request_id m) (pending_requests s)")
  case None
  then show ?thesis by (simp add: handle_context_response_def emit_simps)
next
  case (Some a)
  obtain rid p where a: "a = (rid, p)" by (cases a)
  have known: "rid \<in> request_ids s"
    using Some a by (simp add: find_pending_Some request_ids_iff)
  have stored: "map_of (pending_requests (set_request rid (with_context m p) s)) rid
      = Some (with_context m p)"
    by (simp add: map_of_set_request)
  show ?thesis
    using check_ready_dispatch [OF stored, of cfg now] card_removed_ge [OF known]
    by (auto simp: handle_context_known [OF Some [unfolded a]] request_ids_iff)
qed

lemma handle_ltm_dispatch:
  "length (generation_requests (effects (handle_ltm_response cfg now m s)))
     \<le> card (request_ids s - request_ids (state_of (handle_ltm_response cfg now m s)))"
proof (cases "find_pending (ltm_request_id m) (pending_requests s)")
  case None
  then show ?thesis by (simp add: handle_ltm_response_def emit_simps)
next
  case (Some a)
  obtain rid p where a: "a = (rid, p)" by (cases a)
  have known: "rid \<in> request_ids s"
    using Some a by (simp add: find_pending_Some request_ids_iff)
  have stored: "map_of (pending_requests (set_request rid (with_memories m p) s)) rid
      = Some (with_memories m p)"
    by (simp add: map_of_set_request)
  show ?thesis
    using check_ready_dispatch [OF stored, of cfg now] card_removed_ge [OF known]
    by (auto simp: handle_ltm_known [OF Some [unfolded a]] request_ids_iff
          generation_requests_append)
qed

lemma handle_embedding_dispatch:
  "generation_requests (effects (handle_embedding_response cfg m s)) = []"
proof (cases "find_pending (emb_request_id m) (pending_requests s)")
  case None
  then show ?thesis by (simp add: handle_embedding_response_def emit_simps)
next
  case (Some a)
  obtain rid p where a: "a = (rid, p)" by (cases a)
  have known: "map_of (pending_requests s) rid = Some p"
    using Some a by (simp add: find_pending_Some)
  show ?thesis
    by (simp add: handle_embedding_known [OF Some [unfolded a]] send_simps seq_emit_simps
          fallback_found [OF known])
qed

lemma limit_warning_generation: "generation_requests (effects (limit_warning m p s)) = []"
  by (simp add: limit_warning_def send_if_system_simps ret_simps raise_def split: option.splits)

lemma expiry_warning_generation: "generation_requests (effects (expiry_warning m p s)) = []"
  by (simp add: expiry_warning_def send_if_system_simps ret_simps raise_def split: option.splits)

lemma limit_verdict_generation:
  "generation_requests (effects (limit_verdict cfg pol now uuid m p s)) = []"
  by (cases "denies cfg m")
     (simp_all add: limit_verdict_allowed continue_generation limit_verdict_def Let_def
        seq_simps emit_simps send_if_system_simps)

lemma handle_limit_dispatch:
  "generation_requests (effects (handle_limit_response cfg pol now uuid m s)) = []"
proof (cases "is_status_check m \<or> is_auth_check m")
  case True
  then show ?thesis by (simp add: handle_limit_response_def ret_simps)
next
  case False
  show ?thesis
  proof (cases "find_pending (lr_request_id m) (pending_limits s)")
    case None
    then show ?thesis using False by (simp add: handle_limit_response_def emit_simps)
  next
    case (Some a)
    obtain rid p where a: "a = (rid, p)" by (cases a)
    have "generation_requests (effects
        (seq (seq (limit_warning m p (pop_limit rid s)) (expiry_warning m p))
             (limit_verdict cfg pol now uuid m p))) = []"
      by (intro seq_generation_rule)
         (simp_all add: limit_warning_generation expiry_warning_generation
            limit_verdict_generation)
    then show ?thesis using False Some a by (simp add: handle_limit_response_def)
  qed
qed

lemma handle_user_dispatch:
  "generation_requests (effects (handle_user_message now uuid m s)) = []"
  by (auto simp: handle_user_message_def get_or_create_session_def seq_simps ret_simps
        emit_simps raise_def send_simps send_if_system_simps generation_requests_append
        split: option.splits)

lemma cleanup_dispatch:
  assumes "keys_distinct s" and "range draw \<inter> request_ids s = {}"
  shows "length (generation_requests (effects (cleanup_expired_requests cfg pol now draw s)))
     \<le> card (request_ids s - request_ids (state_of (cleanup_expired_requests cfg pol now draw s)))"
proof -
  let ?out = "cleanup_expired_requests cfg pol now draw s"
  let ?gone = "expired_ids (STM_CONTEXT_REQUEST_TIMEOUT cfg) now req_timestamp (pending_requests s)"
  have d: "distinct (map fst (pending_requests s))"
    using assms(1) by (simp add: keys_distinct_def)
  note ph = cleanup_requests_phase [OF d refl refl, where cfg = cfg and now = now
      and pol = pol and draw = draw]
  have dg: "distinct ?gone" using d by (simp add: expired_ids_distinct)
  have sub: "set ?gone \<subseteq> request_ids s - request_ids (state_of ?out)"
  proof
    fix r assume r: "r \<in> set ?gone"
    then have pres: "r \<in> request_ids s"
      using d by (auto simp: expired_ids_iff request_ids_iff)
    then have "\<forall>k. draw k \<noteq> r" using assms(2) by auto
    then have "map_of (pending_requests (state_of ?out)) r = None"
      using ph(2) [of r] r by simp
    then show "r \<in> request_ids s - request_ids (state_of ?out)"
      using pres by (simp add: request_ids_iff)
  qed
  have "length (generation_requests (effects ?out)) \<le> length ?gone"
    using ph(1) by simp
  also have "\<dots> = card (set ?gone)"
    using dg by (simp add: distinct_card)
  also have "\<dots> \<le> card (request_ids s - request_ids (state_of ?out))"
    by (rule card_mono [OF _ sub]) (simp add: finite_request_ids)
  finally show ?thesis .
qed

lemma step_dispatch:
  assumes "keys_distinct s" and "drawn x \<inter> request_ids s = {}"
  shows "length (generation_requests (effects (step cfg pol x s)))
     \<le> card (request_ids s - request_ids (state_of (step cfg pol x s)))"
proof (cases x)
  case (Deliver now uuid m)
  show ?thesis
    by (cases m)
       (simp_all add: Deliver handle_context_dispatch handle_ltm_dispatch
          handle_embedding_dispatch handle_limit_dispatch handle_user_dispatch)
next
  case (Sweep now draw)
  then show ?thesis
    using assms cleanup_dispatch [of s draw cfg pol now] by simp
qed

lemma removed_subset:
  "removed_in_run cfg pol xs s \<subseteq> request_ids s \<union> \<Union> (drawn ` set xs)"
proof (induction xs arbitrary: s)
  case Nil
  then show ?case by simp
next
  case (Cons x xs)
  have "request_ids (state_of (step cfg pol x s)) \<subseteq> request_ids s \<union> drawn x"
    using step_absent_requests [of _ s x cfg pol] by blast
  then show ?case
    using Cons.IH [of "state_of (step cfg pol x s)"] by auto
qed

lemma finite_removed: "finite (removed_in_run cfg pol xs s)"
  by (induction xs arbitrary: s) (simp_all add: finite_request_ids)

lemma fresh_draws_disjoint: "fresh_draws U xs \<Longrightarrow> \<Union> (drawn ` set xs) \<inter> U = {}"
proof (induction xs arbitrary: U)
  case Nil
  then show ?case by simp
next
  case (Cons x xs)
  have "\<Union> (drawn ` set xs) \<inter> (U \<union> drawn x) = {}"
    using Cons.IH [of "U \<union> drawn x"] Cons.prems by simp
  then show ?case
    using Cons.prems by auto
qed

lemma run_dispatch:
  "keys_distinct s \<Longrightarrow> request_ids s \<subseteq> used \<Longrightarrow> fresh_draws used xs \<Longrightarrow>
   length (generation_requests (snd (run cfg pol xs s))) \<le> card (removed_in_run cfg pol xs s)"
proof (induction xs arbitrary: s used)
  case Nil
  then show ?case by simp
next
  case (Cons x xs)
  let ?s' = "state_of (step cfg pol x s)"
  let ?A = "request_ids s - request_ids ?s'"
  let ?B = "removed_in_run cfg pol xs ?s'"
  have dx: "drawn x \<inter> request_ids s = {}"
    using Cons.prems(2,3) by auto
  have first: "length (generation_requests (effects (step cfg pol x s))) \<le> card ?A"
    by (rule step_dispatch [OF Cons.prems(1) dx])
  have sub': "request_ids ?s' \<subseteq> used \<union> drawn x"
    using step_absent_requests [of _ s x cfg pol] Cons.prems(2) by blast
  have fr': "fresh_draws (used \<union> drawn x) xs"
    using Cons.prems(3) by simp
  have rest: "length (generation_requests (snd (run cfg pol xs ?s'))) \<le> card ?B"
    by (rule Cons.IH [OF step_distinct [OF Cons.prems(1)] sub' fr'])
  have later: "\<Union> (drawn ` set xs) \<inter> (used \<union> drawn x) = {}"
    by (rule fresh_draws_disjoint [OF fr'])
  have "?A \<inter> ?B = {}"
    using removed_subset [of cfg pol xs ?s'] later Cons.prems(2) by auto
  then have "card (?A \<union> ?B) = card ?A + card ?B"
    by (intro card_Un_disjoint) (simp_all add: finite_request_ids finite_removed)
  then show ?case
    using first rest
    by (simp add: run_Cons generation_requests_append del: run.simps(2))
qed

section \<open>Readiness after a partial reply\<close>

text \<open>
  C1, as amended. Let a context reply or a long-term-memory reply arrive for a pending record,
  and let \<open>p\<close> be the record with the reply stored. If \<open>p\<close> does not wait for an
  embedding, the record leaves the table exactly when the context has been received and the
  long-term memories have been received, are not expected, or have been awaited for longer
  than the timeout; exactly then, with an actor system attached, one generation request is
  dispatched, and none otherwise. If \<open>p\<close> waits for an embedding, the record stays in the
  table and no generation request is dispatched; when the embedding timeout has passed, the
  fallback marks the embedding as received and sends the search for recent memories, and
  the check returns without evaluating readiness again. An embedding reply runs no
  readiness check: the record stays in the table and no generation request is dispatched.
\<close>

theorem readiness_after_reply:
  assumes "find_pending (ctx_request_id c) (pending_requests s) = Some (rid, p0)"
    and "ltm_request_id l = ctx_request_id c" and "emb_request_id e = ctx_request_id c"
  shows
    "(\<forall>(out, p) \<in> {(handle_message cfg pol now uuid (CONTEXT_RESPONSE c) s, with_context c p0),
                     (handle_message cfg pol now uuid (LTM_RESPONSE l) s, with_memories l p0)}.
        (\<not> awaiting_embedding p \<longrightarrow>
           (map_of (pending_requests (state_of out)) rid = None \<longleftrightarrow> ready_by_spec cfg now p)
           \<and> generation_requests (effects out)
               = (if ready_by_spec cfg now p \<and> actor_system s then [ready_payload p] else []))
        \<and> (awaiting_embedding p \<longrightarrow>
           map_of (pending_requests (state_of out)) rid
             = Some (if elapsed_exceeds now (ltm_request_timestamp p)
                          (LTM_EMBEDDING_REQUEST_TIMEOUT cfg)
                     then without_embedding p else p)
           \<and> generation_requests (effects out) = []
           \<and> (elapsed_exceeds now (ltm_request_timestamp p) (LTM_EMBEDDING_REQUEST_TIMEOUT cfg)
                \<and> actor_system s \<longrightarrow>
               Send ''ltm'' (GET_LTM_MEMORY (req_user_id p) ''recent'' None
                  (LTM_CONTEXT_LIMIT cfg) rid) \<in> set (effects out))))
     \<and> map_of (pending_requests
                 (state_of (handle_message cfg pol now uuid (EMBEDDING_RESPONSE e) s))) rid \<noteq> None
     \<and> generation_requests (effects (handle_message cfg pol now uuid (EMBEDDING_RESPONSE e) s)) = []"
proof -
  have known: "map_of (pending_requests s) rid = Some p0"
    using assms(1) by (simp add: find_pending_Some)
  have ctx: "handle_context_response cfg now c s
      = check_ready_to_generate cfg now rid (set_request rid (with_context c p0) s)"
    using assms(1) by (simp add: handle_context_known)
  have l: "find_pending (ltm_request_id l) (pending_requests s) = Some (rid, p0)"
    using assms by simp
  have e: "find_pending (emb_request_id e) (pending_requests s) = Some (rid, p0)"
    using assms by simp
  have c1: "map_of (pending_requests (set_request rid (with_context c p0) s)) rid
      = Some (with_context c p0)"
    by (simp add: map_of_set_request)
  have l1: "map_of (pending_requests (set_request rid (with_memories l p0) s)) rid
      = Some (with_memories l p0)"
    by (simp add: map_of_set_request)
  let ?P = "\<lambda>out p.
        (\<not> awaiting_embedding p \<longrightarrow>
           (map_of (pending_requests (state_of out)) rid = None \<longleftrightarrow> ready_by_spec cfg now p)
           \<and> generation_requests (effects out)
               = (if ready_by_spec cfg now p \<and> actor_system s then [ready_payload p] else []))
        \<and> (awaiting_embedding p \<longrightarrow>
           map_of (pending_requests (state_of out)) rid
             = Some (if elapsed_exceeds now (ltm_request_timestamp p)
                          (LTM_EMBEDDING_REQUEST_TIMEOUT cfg)
                     then without_embedding p else p)
           \<and> generation_requests (effects out) = []
           \<and> (elapsed_exceeds now (ltm_request_timestamp p) (LTM_EMBEDDING_REQUEST_TIMEOUT cfg)
                \<and> actor_system s \<longrightarrow>
               Send ''ltm'' (GET_LTM_MEMORY (req_user_id p) ''recent'' None
                  (LTM_CONTEXT_LIMIT cfg) rid) \<in> set (effects out)))"
  have pc: "?P (handle_message cfg pol now uuid (CONTEXT_RESPONSE c) s) (with_context c p0)"
    using check_ready_summary [OF c1, of cfg now]
    by (simp add: ctx actor_system_set_request)
  have pl: "?P (handle_message cfg pol now uuid (LTM_RESPONSE l) s) (with_memories l p0)"
    using check_ready_summary [OF l1, of cfg now]
    by (simp add: handle_ltm_known [OF l] actor_system_set_request generation_requests_append)
  have emb: "map_of (pending_requests
                 (state_of (handle_message cfg pol now uuid (EMBEDDING_RESPONSE e) s))) rid \<noteq> None
     \<and> generation_requests (effects (handle_message cfg pol now uuid (EMBEDDING_RESPONSE e) s)) = []"
    using known
    by (simp add: handle_embedding_known [OF e] send_simps seq_emit_simps fallback_found
          map_of_set_request actor_system_set_request)
  show ?thesis
    using pc pl emb by simp
qed

theorem readiness_after_reply_witness:
  "find_pending (ctx_request_id context_reply) (pending_requests (join_state demo_request))
     = Some (''R1'', demo_request)
   \<and> ltm_request_id ltm_reply = ctx_request_id context_reply
   \<and> emb_request_id embedding_reply = ctx_request_id context_reply
   \<and> awaiting_embedding (with_context context_reply demo_request)
   \<and> map_of (pending_requests (state_of
        (handle_message default_settings demo_policy 3 ''U1'' (CONTEXT_RESPONSE context_reply)
           (join_state demo_request)))) ''R1''
       = Some (without_embedding (with_context context_reply demo_request))
   \<and> \<not> awaiting_embedding (with_context context_reply (without_embedding demo_request))
   \<and> ready_by_spec default_settings 3 (with_context context_reply (without_embedding demo_request))
   \<and> map_of (pending_requests (state_of
        (handle_message default_settings demo_policy 3 ''U1'' (CONTEXT_RESPONSE context_reply)
           (join_state (without_embedding demo_request))))) ''R1'' = None
   \<and> generation_requests (effects
        (handle_message default_settings demo_policy 3 ''U1'' (CONTEXT_RESPONSE context_reply)
           (join_state (without_embedding demo_request))))
       = [ready_payload (with_context context_reply (without_embedding demo_request))]"
  using readiness_after_reply [of context_reply "join_state demo_request" "''R1''" demo_request
          ltm_reply embedding_reply default_settings demo_policy 3 "''U1''"]
        readiness_after_reply [of context_reply "join_state (without_embedding demo_request)"
          "''R1''" "without_embedding demo_request"
          ltm_reply embedding_reply default_settings demo_policy 3 "''U1''"]
  by (simp add: demo_defs find_pending_def awaiting_embedding_def ready_by_spec_def
        with_context_def without_embedding_def elapsed_exceeds_def)

text \<open>
  The claim as stated fails twice on the same turn, whose record expects long-term memories
  and an embedding, both requested at time 0. A context reply at time 3 finds the embedding
  overdue: the fallback runs, yet the record stays pending and nothing is dispatched, though
  the stated condition holds and a second run of the check on the resulting state would
  dispatch. An embedding reply for the record with its context stored leaves the record
  pending as well, though it no longer waits for an embedding and the stated condition holds.
\<close>

theorem readiness_not_reevaluated:
  "awaiting_embedding (with_context context_reply demo_request)
   \<and> elapsed_exceeds 3 (ltm_request_timestamp (with_context context_reply demo_request))
        (LTM_EMBEDDING_REQUEST_TIMEOUT default_settings)
   \<and> ready_by_spec default_settings 3 (with_context context_reply demo_request)
   \<and> map_of (pending_requests (state_of
        (handle_message default_settings demo_policy 3 ''U1'' (CONTEXT_RESPONSE context_reply)
           (join_state demo_request)))) ''R1'' \<noteq> None
   \<and> generation_requests (effects
        (handle_message default_settings demo_policy 3 ''U1'' (CONTEXT_RESPONSE context_reply)
           (join_state demo_request))) = []
   \<and> generation_requests (effects
        (check_ready_to_generate default_settings 3 ''R1'' (state_of
           (handle_message default_settings demo_policy 3 ''U1'' (CONTEXT_RESPONSE context_reply)
              (join_state demo_request))))) \<noteq> []
   \<and> \<not> awaiting_embedding (with_embedding [1, 0] (with_context context_reply demo_request))
   \<and> ready_by_spec default_settings 3
        (with_embedding [1, 0] (with_context context_reply demo_request))
   \<and> map_of (pending_requests (state_of
        (handle_message default_settings demo_policy 3 ''U1'' (EMBEDDING_RESPONSE embedding_reply)
           (join_state (with_context context_reply demo_request))))) ''R1''
       = Some (with_embedding [1, 0] (with_context context_reply demo_request))"
  by (simp add: demo_defs handler_defs awaiting_embedding_def ready_by_spec_def)

section \<open>The embedding reply\<close>

text \<open>
  C5. Let an embedding reply arrive for a pending generation record, with an actor system
  attached. A successful reply with a non-empty vector stores the vector, marks the
  embedding as received and sends the vector search for long-term memories, and nothing
  else. A successful reply with no vector or an empty one, and a failed reply, mark the
  embedding as received, leave the vector unset, log a warning and send the search for
  recent memories. In both cases no exception is raised and the record left in the table
  no longer waits for an embedding.
\<close>

theorem embedding_reply_handled:
  assumes "find_pending (emb_request_id e) (pending_requests s) = Some (rid, p)"
    and "actor_system s"
  shows
    "(emb_success e = Some True \<and> embedding e = Some v \<and> v \<noteq> [] \<longrightarrow>
        state_of (handle_message cfg pol now uuid (EMBEDDING_RESPONSE e) s)
          = set_request rid (p\<lparr>query_vector := Present v, embedding_received := Some True\<rparr>) s
        \<and> effects (handle_message cfg pol now uuid (EMBEDDING_RESPONSE e) s)
          = [Send ''ltm'' (GET_LTM_MEMORY (req_user_id p) ''vector'' (Some v)
                            (LTM_CONTEXT_LIMIT cfg) rid)])
     \<and> (emb_success e \<noteq> Some True \<or> embedding e = None \<or> embedding e = Some [] \<longrightarrow>
        state_of (handle_message cfg pol now uuid (EMBEDDING_RESPONSE e) s)
          = set_request rid (p\<lparr>embedding_received := Some True, query_vector := PyNone\<rparr>) s
        \<and> effects (handle_message cfg pol now uuid (EMBEDDING_RESPONSE e) s)
          = [LogWarning (if emb_success e = Some True then EmptyEmbedding else EmbeddingFailed),
             Send ''ltm'' (GET_LTM_MEMORY (req_user_id p) ''recent'' None
                            (LTM_CONTEXT_LIMIT cfg) rid)])
     \<and> raised (handle_message cfg pol now uuid (EMBEDDING_RESPONSE e) s) = None
     \<and> (\<exists>p'. map_of (pending_requests
                  (state_of (handle_message cfg pol now uuid (EMBEDDING_RESPONSE e) s))) rid
               = Some p'
             \<and> embedding_received p' = Some True \<and> \<not> awaiting_embedding p')"
proof -
  have known: "map_of (pending_requests s) rid = Some p"
    using assms(1) by (simp add: find_pending_Some)
  show ?thesis
    using assms(2) known
    by (auto simp: handle_embedding_known [OF assms(1)] send_simps seq_emit_simps fallback_found
          map_of_set_request actor_system_set_request get_flag_iff with_embedding_def
          without_embedding_def awaiting_embedding_def)
qed

theorem embedding_reply_handled_witness:
  "find_pending (emb_request_id embedding_reply) (pending_requests (join_state demo_request))
     = Some (''R1'', demo_request)
   \<and> find_pending (emb_request_id embedding_failure) (pending_requests (join_state demo_request))
     = Some (''R1'', demo_request)
   \<and> actor_system (join_state demo_request)
   \<and> effects (handle_message default_settings demo_policy 1 ''U1''
        (EMBEDDING_RESPONSE embedding_reply) (join_state demo_request))
       = [Send ''ltm'' (GET_LTM_MEMORY ''42'' ''vector'' (Some [1, 0]) 3 ''R1'')]
   \<and> effects (handle_message default_settings demo_policy 1 ''U1''
        (EMBEDDING_RESPONSE embedding_failure) (join_state demo_request))
       = [LogWarning EmbeddingFailed,
          Send ''ltm'' (GET_LTM_MEMORY ''42'' ''recent'' None 3 ''R1'')]"
  using embedding_reply_handled [of embedding_reply "join_state demo_request" "''R1''"
          demo_request "[1, 0]" default_settings demo_policy 1 "''U1''"]
        embedding_reply_handled [of embedding_failure "join_state demo_request" "''R1''"
          demo_request "[]" default_settings demo_policy 1 "''U1''"]
  by (simp add: demo_defs find_pending_def)

section \<open>The long-term-memory reply\<close>

text \<open>
  C6. Let a long-term-memory reply arrive for a pending generation record, and let
  \<open>mems\<close> be its result list when it reports success (the empty list when it carries
  none) and the empty list when it reports failure. The handler stores \<open>mems\<close>, marks the
  leg as received and runs the readiness check. If the context has been received and the
  record does not wait for an embedding, the record leaves the table and, with an actor
  system attached, one generation request is dispatched, whose long-term-memory list is
  \<open>mems\<close>. Otherwise the record stays in the table, with \<open>mems\<close> stored and the leg marked
  as received. A failure is logged as a warning; in no case is a message sent to the user.
\<close>

theorem ltm_reply_never_blocks:
  assumes "find_pending (ltm_request_id l) (pending_requests s) = Some (rid, p0)"
    and "mems = (if ltm_success l = Some True
                 then (case results l of None \<Rightarrow> [] | Some rs \<Rightarrow> rs) else [])"
    and "p = p0\<lparr>ltm_memories := Present mems, ltm_received := Some True\<rparr>"
    and "out = handle_message cfg pol now uuid (LTM_RESPONSE l) s"
  shows
    "(stm_received p0 = Some True \<and> \<not> awaiting_embedding p0 \<longrightarrow>
        map_of (pending_requests (state_of out)) rid = None
        \<and> generation_requests (effects out) = (if actor_system s then [ready_payload p] else [])
        \<and> gen_ltm_memories (ready_payload p) = Present mems)
     \<and> (\<not> (stm_received p0 = Some True \<and> \<not> awaiting_embedding p0) \<longrightarrow>
        (\<exists>p'. map_of (pending_requests (state_of out)) rid = Some p'
              \<and> ltm_memories p' = Present mems \<and> ltm_received p' = Some True)
        \<and> generation_requests (effects out) = [])
     \<and> (\<forall>msg. Send ''telegram'' msg \<notin> set (effects out))
     \<and> (ltm_success l \<noteq> Some True \<longrightarrow> LogWarning (LtmSearchFailed rid) \<in> set (effects out))"
proof -
  have p: "p = with_memories l p0"
    using assms(2,3) by (simp add: with_memories_def get_flag_iff)
  have stored: "map_of (pending_requests (set_request rid p s)) rid = Some p"
    by (simp add: map_of_set_request)
  have await: "awaiting_embedding p = awaiting_embedding p0"
    by (simp add: assms(3) awaiting_embedding_def)
  have ready: "ready_by_spec cfg now p \<longleftrightarrow> stm_received p0 = Some True"
    by (simp add: assms(3) ready_by_spec_def)
  have fields: "ltm_memories p = Present mems" "ltm_received p = Some True"
    "ltm_memories (without_embedding p) = Present mems"
    "ltm_received (without_embedding p) = Some True"
    by (simp_all add: assms(3) without_embedding_def)
  have tele: "\<forall>msg. Send ''telegram'' msg \<notin> set (effects out)"
    using check_ready_effects [of _ cfg now rid "set_request rid p s"]
    by (auto simp: assms(4) handle_ltm_known [OF assms(1)] p [symmetric])
  have warn: "ltm_success l \<noteq> Some True \<longrightarrow> LogWarning (LtmSearchFailed rid) \<in> set (effects out)"
    by (simp add: assms(4) handle_ltm_known [OF assms(1)] get_flag_iff)
  have main: "(stm_received p0 = Some True \<and> \<not> awaiting_embedding p0 \<longrightarrow>
        map_of (pending_requests (state_of out)) rid = None
        \<and> generation_requests (effects out) = (if actor_system s then [ready_payload p] else []))
     \<and> (\<not> (stm_received p0 = Some True \<and> \<not> awaiting_embedding p0) \<longrightarrow>
        (\<exists>p'. map_of (pending_requests (state_of out)) rid = Some p'
              \<and> ltm_memories p' = Present mems \<and> ltm_received p' = Some True)
        \<and> generation_requests (effects out) = [])"
    using check_ready_summary [OF stored, of cfg now] fields
      check_ready_not_ready [OF stored, of cfg now]
    by (auto simp: assms(4) handle_ltm_known [OF assms(1)] p [symmetric] await ready
          actor_system_set_request generation_requests_append ret_simps map_of_set_request)
  have payload: "gen_ltm_memories (ready_payload p) = Present mems"
    by (simp add: ready_payload_def assms(3))
  show ?thesis using tele warn main payload by simp
qed

theorem ltm_reply_never_blocks_witness:
  "find_pending (ltm_request_id ltm_failure)
      (pending_requests (join_state (with_context context_reply (without_embedding demo_request))))
     = Some (''R1'', with_context context_reply (without_embedding demo_request))
   \<and> stm_received (with_context context_reply (without_embedding demo_request)) = Some True
   \<and> \<not> awaiting_embedding (with_context context_reply (without_embedding demo_request))
   \<and> map_of (pending_requests (state_of
        (handle_message default_settings demo_policy 1 ''U1'' (LTM_RESPONSE ltm_failure)
           (join_state (with_context context_reply (without_embedding demo_request)))))) ''R1''
       = None
   \<and> map gen_ltm_memories (generation_requests (effects
        (handle_message default_settings demo_policy 1 ''U1'' (LTM_RESPONSE ltm_failure)
           (join_state (with_context context_reply (without_embedding demo_request))))))
       = [Present []]
   \<and> LogWarning (LtmSearchFailed ''R1'') \<in> set (effects
        (handle_message default_settings demo_policy 1 ''U1'' (LTM_RESPONSE ltm_failure)
           (join_state (with_context context_reply (without_embedding demo_request)))))"
  using ltm_reply_never_blocks [OF _ refl refl refl, of ltm_failure
          "join_state (with_context context_reply (without_embedding demo_request))" "''R1''"
          "with_context context_reply (without_embedding demo_request)"
          default_settings demo_policy 1 "''U1''"]
  by (simp add: demo_defs find_pending_def with_context_def without_embedding_def
        awaiting_embedding_def)

section \<open>The denying verdict\<close>

text \<open>
  C8. Let a limit verdict arrive that is neither a status nor an authorisation check, whose
  correlation id matches a pending limit check, and which denies: the user is not unlimited
  and the usage count is at least the limit. The verdict is well formed (a warning flag
  comes with the fields its notice prints) and an actor system is attached. Then the
  handler removes the pending record, appends the limit-exceeded event, sends the
  limit-exceeded notice to the front end and stops without an exception: it changes nothing
  else in the state, so no pending generation record is created and the sessions, with
  their mode, mode history and message count, are as before; it dispatches no generation
  request.
\<close>

theorem denied_turn_stops:
  assumes "\<not> is_status_check m" and "\<not> is_auth_check m"
    and "find_pending (lr_request_id m) (pending_limits s) = Some (rid, p)"
    and "denies cfg m"
    and "approaching_limit m \<longrightarrow> messages_remaining m \<noteq> None \<and> limit m \<noteq> None"
    and "subscription_expiring m \<longrightarrow> days_remaining m \<noteq> None"
    and "actor_system s"
    and "today = (case messages_today m of None \<Rightarrow> 0 | Some n \<Rightarrow> n)"
    and "l = (case limit m of None \<Rightarrow> DAILY_MESSAGE_LIMIT cfg | Some l \<Rightarrow> l)"
    and "out = handle_message cfg pol now uuid (LIMIT_RESPONSE m) s"
  shows
    "state_of out = s\<lparr>pending_limits := AList.delete rid (pending_limits s)\<rparr>
     \<and> map_of (pending_limits (state_of out)) rid = None
     \<and> raised out = None
     \<and> AppendEvent (LimitExceededEvent (lim_user_id p) today l) \<in> set (effects out)
     \<and> Send ''telegram'' (LIMIT_EXCEEDED (lim_user_id p) (lim_chat_id p) today l)
          \<in> set (effects out)
     \<and> generation_requests (effects out) = []
     \<and> pending_requests (state_of out) = pending_requests s
     \<and> sessions (state_of out) = sessions s \<and> objs (state_of out) = objs s"
proof -
  have out: "out = seq (seq (limit_warning m p (pop_limit rid s)) (expiry_warning m p))
                     (limit_verdict cfg pol now uuid m p)"
    using assms(1,2,3,10) by (simp add: handle_limit_response_def)
  have sys: "actor_system (pop_limit rid s)"
    using assms(7) by (simp add: actor_system_pop_limit)
  have verdict: "limit_verdict cfg pol now uuid m p (pop_limit rid s) =
      \<lparr>state_of = pop_limit rid s,
       effects = [LogWarning (DailyLimitExceeded (lim_user_id p) today l),
                  AppendEvent (LimitExceededEvent (lim_user_id p) today l),
                  Send ''telegram'' (LIMIT_EXCEEDED (lim_user_id p) (lim_chat_id p) today l)],
       raised = None\<rparr>"
    using assms(4) sys
    by (simp add: limit_verdict_def assms(8,9) seq_def emit_def send_if_system_def Let_def)
  have "state_of out = pop_limit rid s
     \<and> raised out = None
     \<and> AppendEvent (LimitExceededEvent (lim_user_id p) today l) \<in> set (effects out)
     \<and> Send ''telegram'' (LIMIT_EXCEEDED (lim_user_id p) (lim_chat_id p) today l)
          \<in> set (effects out)
     \<and> generation_requests (effects out) = []"
    by (simp add: out seq_simps limit_warning_simps [OF assms(5)]
          expiry_warning_simps [OF assms(6)] verdict generation_requests_append)
  then show ?thesis
    by (simp add: pop_limit_def delete_conv')
qed

theorem denied_turn_stops_witness:
  "\<not> is_status_check deny_verdict \<and> \<not> is_auth_check deny_verdict
   \<and> find_pending (lr_request_id deny_verdict) (pending_limits demo_state)
       = Some (''L1'', demo_limit)
   \<and> denies default_settings deny_verdict
   \<and> actor_system demo_state
   \<and> state_of (handle_message default_settings demo_policy 1 ''R1'' (LIMIT_RESPONSE deny_verdict)
        demo_state) = demo_state\<lparr>pending_limits := []\<rparr>
   \<and> Send ''telegram'' (LIMIT_EXCEEDED ''42'' 7 10 10)
        \<in> set (effects (handle_message default_settings demo_policy 1 ''R1''
                          (LIMIT_RESPONSE deny_verdict) demo_state))
   \<and> AppendEvent (LimitExceededEvent ''42'' 10 10)
        \<in> set (effects (handle_message default_settings demo_policy 1 ''R1''
                          (LIMIT_RESPONSE deny_verdict) demo_state))"
  using denied_turn_stops [OF _ _ _ _ _ _ _ refl refl refl, of deny_verdict demo_state "''L1''"
          demo_limit default_settings demo_policy 1 "''R1''"]
  by (simp add: demo_defs find_pending_def denies_def)

section \<open>The cap on the mode history\<close>

text \<open>
  C9. The mode history of every allocated session stays within
  \<^verbatim>\<open>MODE_HISTORY_SIZE\<close>: the bound holds when the actor starts and every run of
  messages and sweeps preserves it, whether or not a handler ends in an exception. A turn
  continuation whose mode detector keeps its contract appends the detected mode to the
  history of the turn's session; when the history was at the cap, the first (oldest) entry
  is dropped and the others keep their order.
\<close>

theorem mode_history_capped:
  "(history_capped cfg s \<longrightarrow> history_capped cfg (fst (run cfg pol xs s)))
   \<and> history_capped cfg (initial_state attached)
   \<and> (valid_policy cfg pol \<longrightarrow>
        mode_history (objs (state_of (continue_message_processing cfg pol now rid pending s))
                        (lim_session pending))
          = (if length (mode_history (objs s (lim_session pending))) < MODE_HISTORY_SIZE cfg
             then mode_history (objs s (lim_session pending))
                    @ [fst (determine_generation_mode pol (lim_text pending)
                              (objs s (lim_session pending)))]
             else tl (mode_history (objs s (lim_session pending))
                        @ [fst (determine_generation_mode pol (lim_text pending)
                                  (objs s (lim_session pending)))])))"
proof -
  let ?out = "continue_message_processing cfg pol now rid pending s"
  let ?u = "update_session_mode cfg pol now pending s"
  have objs: "objs (state_of ?out) = objs (state_of ?u)"
    by (simp add: continue_message_processing_def seq_simps send_simps send_if_system_simps
          register_request_objs request_ltm_objs split: option.splits)
  have init: "history_capped cfg (initial_state attached)"
    by (simp add: history_capped_def initial_state_def)
  have shape: "mode_history (objs (state_of ?out) (lim_session pending))
      = (if raised ?u = None
         then (if length (mode_history (objs s (lim_session pending))) < MODE_HISTORY_SIZE cfg
               then mode_history (objs s (lim_session pending))
                      @ [fst (determine_generation_mode pol (lim_text pending)
                                (objs s (lim_session pending)))]
               else tl (mode_history (objs s (lim_session pending))
                          @ [fst (determine_generation_mode pol (lim_text pending)
                                    (objs s (lim_session pending)))]))
         else mode_history (objs s (lim_session pending)))"
    by (simp add: objs update_session_mode_history append_mode_shape)
  have valid: "valid_policy cfg pol \<Longrightarrow> raised ?u = None"
    by (simp add: update_session_mode_raised valid_policy_def)
  show ?thesis
    using run_capped [of cfg s pol xs] init shape valid by simp
qed

theorem mode_history_capped_witness:
  "history_capped default_settings full_state
   \<and> valid_policy default_settings demo_policy
   \<and> history_capped default_settings
        (fst (run default_settings demo_policy
                [Deliver 1 ''R1'' (LIMIT_RESPONSE allow_verdict)] full_state))
   \<and> mode_history (objs (state_of
        (continue_message_processing default_settings demo_policy 1 ''R1'' demo_limit full_state))
        (lim_session demo_limit))
       = [''talk'', ''expert'', ''talk'', ''base'', ''expert'']"
  using mode_history_capped [of default_settings full_state demo_policy
          "[Deliver 1 ''R1'' (LIMIT_RESPONSE allow_verdict)]" True 1 "''R1''" demo_limit]
  by (simp add: history_capped_def valid_policy_def valid_modes_def full_state_def demo_defs
        new_session_def)

section \<open>The sweep of the pending generation records\<close>

text \<open>
  What a pass does with an expired record. Let a pending generation record be older than
  the context-request timeout when the sweep runs, in a table without duplicate ids, with an
  actor system attached, and let no id drawn during the pass equal the record's. Then the
  sweep removes the record and dispatches a generation request with the empty list as
  context and with the record's snapshot of the turn (user, chat, text, prompt flag, message
  count, session data, mode and confidence); the request has no long-term-memory field,
  whatever the record holds. The sweep dispatches one generation request for each expired
  record.
\<close>

lemma sweep_completes_expired_request:
  assumes "map_of (pending_requests s) rid = Some p"
    and "now - req_timestamp p > STM_CONTEXT_REQUEST_TIMEOUT cfg"
    and "distinct (map fst (pending_requests s))"
    and "actor_system s"
    and "\<forall>k. draw k \<noteq> rid"
    and "out = cleanup_expired_requests cfg pol now draw s"
  shows
    "map_of (pending_requests (state_of out)) rid = None
     \<and> (\<exists>g \<in> set (generation_requests (effects out)).
           historical_context g = Present []
           \<and> gen_user_id g = req_user_id p \<and> gen_chat_id g = req_chat_id p
           \<and> gen_text g = req_text p \<and> gen_include_prompt g = req_include_prompt p
           \<and> gen_message_count g = req_message_count p
           \<and> gen_session_data g = req_session_data p
           \<and> gen_mode g = req_mode p \<and> gen_mode_confidence g = req_mode_confidence p
           \<and> gen_ltm_memories g = Missing)
     \<and> length (generation_requests (effects out))
         = length (expired_ids (STM_CONTEXT_REQUEST_TIMEOUT cfg) now req_timestamp
                     (pending_requests s))"
proof -
  let ?ids = "expired_ids (STM_CONTEXT_REQUEST_TIMEOUT cfg) now req_timestamp (pending_requests s)"
  have mem: "rid \<in> set ?ids"
    using assms(1,2,3) by (simp add: expired_ids_iff)
  note ph = cleanup_requests_phase [OF assms(3) refl assms(6)]
  have gone: "map_of (pending_requests (state_of out)) rid = None"
    using ph(2) [OF assms(5)] mem by simp
  have gen: "generation_requests (effects out)
      = map (\<lambda>rid. timeout_payload (the (map_of (pending_requests s) rid))) ?ids"
    using ph(1) assms(4) by simp
  have "timeout_payload p \<in> set (generation_requests (effects out))"
    using mem assms(1) by (force simp: gen)
  then have "\<exists>g \<in> set (generation_requests (effects out)).
           historical_context g = Present []
           \<and> gen_user_id g = req_user_id p \<and> gen_chat_id g = req_chat_id p
           \<and> gen_text g = req_text p \<and> gen_include_prompt g = req_include_prompt p
           \<and> gen_message_count g = req_message_count p
           \<and> gen_session_data g = req_session_data p
           \<and> gen_mode g = req_mode p \<and> gen_mode_confidence g = req_mode_confidence p
           \<and> gen_ltm_memories g = Missing"
    by (rule bexI [rotated]) (simp add: timeout_payload_def)
  then show ?thesis
    using gone by (simp add: gen)
qed

lemma sweep_completes_expired_request_sample:
  "map_of (pending_requests (join_state demo_request)) ''R1'' = Some demo_request
   \<and> 31 - req_timestamp demo_request > STM_CONTEXT_REQUEST_TIMEOUT default_settings
   \<and> distinct (map fst (pending_requests (join_state demo_request)))
   \<and> actor_system (join_state demo_request)
   \<and> (\<forall>k. demo_uuid4 k \<noteq> ''R1'')
   \<and> map_of (pending_requests (state_of
        (cleanup_expired_requests default_settings demo_policy 31 demo_uuid4
           (join_state demo_request)))) ''R1'' = None
   \<and> length (generation_requests (effects
        (cleanup_expired_requests default_settings demo_policy 31 demo_uuid4
           (join_state demo_request)))) = 1"
  using sweep_completes_expired_request [where s = "join_state demo_request" and rid = "''R1''"
          and p = demo_request and now = 31 and cfg = default_settings and draw = demo_uuid4
          and pol = demo_policy, OF _ _ _ _ _ refl]
  by (simp add: demo_defs expired_demo)

text \<open>
  C3, at the input where the code departs from it. With the settings of the repository and
  a policy that asks for the recent memories, a turn is allowed at time 1 and its pending
  generation record is created; at time 2 the long-term-memory reply arrives and the record
  stores the memory it carries, still waiting for the context. The context never arrives,
  and the sweep at time 32 completes the record: the one generation request it dispatches
  has the empty list as context and no long-term-memory field, so the memory the record had
  accumulated is lost. Had the context reply arrived at that time with no message, the
  readiness check would have dispatched the same empty context together with the memory.
\<close>

theorem sweep_drops_memories:
  "map (\<lambda>(k, d). (k, ltm_memories d, stm_received d)) (pending_requests (fst
        (run default_settings memory_policy
           [Deliver 1 ''R1'' (LIMIT_RESPONSE allow_verdict),
            Deliver 2 ''U2'' (LTM_RESPONSE ltm_reply)] demo_state)))
     = [(''R1'', Present [''memory''], Some False)]
   \<and> map (\<lambda>g. (historical_context g, gen_ltm_memories g)) (generation_requests (snd
        (run default_settings memory_policy
           [Deliver 1 ''R1'' (LIMIT_RESPONSE allow_verdict),
            Deliver 2 ''U2'' (LTM_RESPONSE ltm_reply),
            Sweep 32 demo_uuid4] demo_state)))
     = [(Present [], Missing)]
   \<and> map (\<lambda>g. (historical_context g, gen_ltm_memories g)) (generation_requests (snd
        (run default_settings memory_policy
           [Deliver 1 ''R1'' (LIMIT_RESPONSE allow_verdict),
            Deliver 2 ''U2'' (LTM_RESPONSE ltm_reply),
            Deliver 32 ''U3'' (CONTEXT_RESPONSE empty_context_reply)] demo_state)))
     = [(Present [], Present [''memory''])]"
  by code_simp

section \<open>The lists of the generation payload\<close>

text \<open>
  C4, at the input where the code departs from it. With the settings of the repository
  (long-term memory enabled), a turn is allowed and its policy decides against long-term
  memory; the continuation then binds \<^verbatim>\<open>ltm_memories\<close> of the new record to None. The
  context reply makes the record ready, and \<^verbatim>\<open>pending.get('ltm_memories', [])\<close> reads
  the None that is bound: the one generation request dispatched carries the context list
  of the reply and None, not the empty list, as its long-term-memory field.
\<close>

theorem memories_field_is_none:
  "fst (should_request_ltm demo_policy ''hi'' (new_session 0 ''42'' (Some ''ann''))) = False
   \<and> map gen_ltm_memories (generation_requests (snd
        (run default_settings demo_policy
           [Deliver 1 ''R1'' (LIMIT_RESPONSE allow_verdict),
            Deliver 2 ''U2'' (CONTEXT_RESPONSE context_reply)] demo_state))) = [PyNone]
   \<and> map historical_context (generation_requests (snd
        (run default_settings demo_policy
           [Deliver 1 ''R1'' (LIMIT_RESPONSE allow_verdict),
            Deliver 2 ''U2'' (CONTEXT_RESPONSE context_reply)] demo_state)))
       = [Present [''hello'']]"
  by code_simp

section \<open>The sweep of the pending limit checks\<close>

text \<open>
  C7. Let a pending limit check be older than the authorisation-check timeout when the sweep
  runs, neither table holding an id twice. A pass that ends without an exception has
  removed the record, and a pass ends so whenever an actor system is attached and the mode
  detector keeps its contract. With the fallback to the demo tier disabled the pass never
  raises and does nothing but remove: the state afterwards is the state before without the
  expired records of the two tables, so no session is updated and no pending generation
  record exists for the dropped turn, and the only generation requests of the pass are
  those that complete the expired generation records. With the fallback enabled (and no
  empty id in the table) the pass is, after the completion of the expired generation
  records, the handling of one allowing verdict for each expired limit check, in the order
  of the table, each preceded by the warning in the log.

  What the continued turn does is spelled out. The record stands at some position of the
  list of expired limit checks, \<open>pre\<close> before it and \<open>post\<close> after it. With the fallback
  enabled, an actor system attached and the mode detector within its contract, the pass
  reaches the record without an exception, and from the state \<open>s'\<close> it has reached the
  turn of the record is this and nothing else:
  \<^item> mode detection: the detector is asked with the text of the turn and the session; when
    the mode differs from the current one the time of the change is recorded and a
    \<^verbatim>\<open>ModeDetectedEvent\<close> is appended;
  \<^item> session update: mode, confidence, the capped mode history, the message count plus one
    and the time of the last activity are written to the session object of the record;
  \<^item> fan-out: the emotion analysis is requested, a pending generation record is created
    under the id drawn for the turn, from the record of the limit check and the updated
    session, the short-term context is requested under that id, and, when long-term memory
    is enabled and wanted, the embedding (vector search) or the memories (any other search)
    are requested under the same id, the pending record marked accordingly;
  \<^item> the record of the limit check has left its table.

  The rest of the pass continues the records after it.
\<close>

theorem sweep_of_limit_checks:
  assumes "map_of (pending_limits s) rid = Some p"
    and "now - lim_timestamp p > AUTH_CHECK_TIMEOUT cfg"
    and "distinct (map fst (pending_limits s))"
    and "distinct (map fst (pending_requests s))"
    and "gone = expired_ids (STM_CONTEXT_REQUEST_TIMEOUT cfg) now req_timestamp
                  (pending_requests s)"
    and "late = expired_ids (AUTH_CHECK_TIMEOUT cfg) now lim_timestamp (pending_limits s)"
    and "out = cleanup_expired_requests cfg pol now draw s"
  shows
    "(raised out = None \<longrightarrow> map_of (pending_limits (state_of out)) rid = None)
     \<and> (actor_system s \<and> valid_policy cfg pol \<longrightarrow> raised out = None)
     \<and> (\<not> AUTH_FALLBACK_TO_DEMO cfg \<longrightarrow>
          raised out = None
          \<and> state_of out
              = s\<lparr>pending_requests := filter (\<lambda>(k, d). k \<notin> set gone) (pending_requests s),
                  pending_limits := filter (\<lambda>(k, d). k \<notin> set late) (pending_limits s)\<rparr>
          \<and> generation_requests (effects out)
              = (if actor_system s
                 then map (\<lambda>r. timeout_payload (the (map_of (pending_requests s) r))) gone
                 else []))
     \<and> (AUTH_FALLBACK_TO_DEMO cfg \<and> [] \<notin> set late \<longrightarrow>
          out = seq (expire_requests gone s) (continue_as_allowed cfg pol now draw 0 late))
     \<and> (\<exists>pre post. late = pre @ rid # post)
     \<and> (\<forall>pre post.
          late = pre @ rid # post \<and> AUTH_FALLBACK_TO_DEMO cfg \<and> actor_system s
            \<and> valid_policy cfg pol \<longrightarrow>
          raised (seq (expire_requests gone s) (expire_limits cfg pol now draw 0 pre)) = None
          \<and> out =
              seq (seq (seq (expire_requests gone s) (expire_limits cfg pol now draw 0 pre))
                (\<lambda>s'.
                   let session = objs s' (lim_session p);
                       (new_mode, confidence) =
                         determine_generation_mode pol (lim_text p) session;
                       mode_changed = (new_mode \<noteq> current_mode session);
                       updated = session
                         \<lparr>last_mode_change :=
                            (if mode_changed then Some now else last_mode_change session),
                          current_mode := new_mode, mode_confidence := confidence,
                          mode_history := append_mode cfg new_mode (mode_history session),
                          message_count := message_count session + 1,
                          last_activity := now\<rparr>;
                       include_prompt = should_include_prompt pol updated;
                       (need_ltm, search_type) = should_request_ltm pol (lim_text p) updated;
                       created = new_request now include_prompt p updated;
                       waiting = created
                         \<lparr>expecting_ltm := Some need_ltm, stm_received := Some False,
                          ltm_received := Some False, stm_context := PyNone,
                          ltm_memories := PyNone\<rparr>;
                       searching = waiting
                         \<lparr>ltm_search_type := Some search_type,
                          ltm_request_timestamp := Some now\<rparr>;
                       joined =
                         (if \<not> LTM_REQUEST_ENABLED cfg then created
                          else if \<not> need_ltm then waiting
                          else if search_type = ''vector''
                          then searching\<lparr>expecting_embedding := Some True,
                                         embedding_received := Some False\<rparr>
                          else searching)
                   in \<lparr>state_of =
                         s'\<lparr>pending_limits := AList.delete rid (pending_limits s'),
                            objs := (objs s')(lim_session p := updated),
                            pending_requests :=
                              AList.update (draw (length pre)) joined (pending_requests s')\<rparr>,
                       effects =
                         [LogWarning (LimitCheckTimeout (lim_user_id p)),
                          Send ''perception'' (ANALYZE_EMOTION (lim_user_id p) (lim_text p))]
                         @ (if mode_changed
                            then [AppendEvent
                                    (ModeDetectedEvent (lim_user_id p) new_mode confidence
                                       (previous_mode (mode_history updated)) now)]
                            else [])
                         @ (if include_prompt
                            then [AppendEvent
                                    (PromptInclusionEvent (lim_user_id p)
                                       (message_count updated)
                                       (get_prompt_reason pol updated))]
                            else [])
                         @ [Send ''memory''
                              (GET_CONTEXT (lim_user_id p) (draw (length pre))
                                 (STM_CONTEXT_SIZE_FOR_GENERATION cfg))]
                         @ (if LTM_REQUEST_ENABLED cfg \<and> need_ltm
                            then [Send ''ltm''
                                    (if search_type = ''vector''
                                     then GENERATE_EMBEDDING (lim_text p)
                                            (case last_emotion_vector updated of
                                               None \<Rightarrow> [] | Some v \<Rightarrow> v)
                                            (draw (length pre))
                                     else GET_LTM_MEMORY (lim_user_id p) search_type None
                                            (LTM_CONTEXT_LIMIT cfg) (draw (length pre)))]
                            else []),
                       raised = None\<rparr>))
                (expire_limits cfg pol now draw (Suc (length pre)) post))"
proof -
  let ?e = "expire_requests gone s"
  let ?s1 = "state_of ?e"
  have dg: "distinct gone"
    using assms(4,5) by (simp add: expired_ids_distinct)
  have pg: "\<forall>r \<in> set gone. map_of (pending_requests s) r \<noteq> None"
    using assms(4,5) by (auto simp: expired_ids_iff)
  note run = expire_requests_run [OF dg pg]
  have e_ok: "raised ?e = None" using run by simp
  have s1: "?s1 = s\<lparr>pending_requests := filter (\<lambda>(k, d). k \<notin> set gone) (pending_requests s)\<rparr>"
    using run by simp
  have lim1: "pending_limits ?s1 = pending_limits s" "actor_system ?s1 = actor_system s"
    by (simp_all add: s1)
  have dl: "distinct late"
    using assms(3,6) by (simp add: expired_ids_distinct)
  have pl: "\<forall>r \<in> set late. map_of (pending_limits ?s1) r \<noteq> None"
    using assms(3,6) by (auto simp: expired_ids_iff lim1)
  have mem: "rid \<in> set late"
    using assms(1,2,3,6) by (simp add: expired_ids_iff)
  have out: "out = seq ?e (\<lambda>s'. expire_limits cfg pol now draw 0 late s')"
    unfolding assms(7) cleanup_expired_requests_def assms(5) [symmetric]
    by (rule seq_cong_state) (simp add: lim1 assms(6))
  have st: "state_of out = state_of (expire_limits cfg pol now draw 0 late ?s1)"
    and ra: "raised out = raised (expire_limits cfg pol now draw 0 late ?s1)"
    using e_ok by (simp_all add: out seq_simps)
  have a: "raised out = None \<longrightarrow> map_of (pending_limits (state_of out)) rid = None"
    using mem by (simp add: st ra expire_limits_removed)
  have b: "actor_system s \<and> valid_policy cfg pol \<longrightarrow> raised out = None"
    using dl pl by (simp add: ra expire_limits_raised lim1)
  have gen: "generation_requests (effects out)
      = (if actor_system s
         then map (\<lambda>r. timeout_payload (the (map_of (pending_requests s) r))) gone else [])"
    by (rule cleanup_requests_phase(1) [OF assms(4,5,7)])
  have c: "\<not> AUTH_FALLBACK_TO_DEMO cfg \<longrightarrow>
          raised out = None
          \<and> state_of out
              = s\<lparr>pending_requests := filter (\<lambda>(k, d). k \<notin> set gone) (pending_requests s),
                  pending_limits := filter (\<lambda>(k, d). k \<notin> set late) (pending_limits s)\<rparr>
          \<and> generation_requests (effects out)
              = (if actor_system s
                 then map (\<lambda>r. timeout_payload (the (map_of (pending_requests s) r))) gone
                 else [])"
    using expire_limits_disabled [OF _ dl pl, of cfg pol now draw 0]
    by (simp add: st ra s1 gen)
  have d: "AUTH_FALLBACK_TO_DEMO cfg \<and> [] \<notin> set late \<longrightarrow>
          out = seq ?e (continue_as_allowed cfg pol now draw 0 late)"
    unfolding out by (auto intro!: seq_cong_state simp: expire_limits_as_allowed)
  have ex: "\<exists>pre post. late = pre @ rid # post"
    using mem by (rule split_list)
  show ?thesis
    apply (intro conjI)
         apply (rule a)
        apply (rule b)
       apply (rule c)
      apply (rule d)
     apply (rule ex)
    apply (intro allI impI)
    apply (elim conjE)
    subgoal premises prems for pre post
    proof -
      let ?b = "seq ?e (expire_limits cfg pol now draw 0 pre)"
      let ?rest = "expire_limits cfg pol now draw (Suc (length pre)) post"
      define turn where "turn = (\<lambda>s'.
          seq (emit (LogWarning (LimitCheckTimeout (lim_user_id p))) (pop_limit rid s'))
              (continue_message_processing cfg pol now (draw (length pre)) p))"
      note dec = prems(1) and en = prems(2) and sys = prems(3) and vp = prems(4)
      have np: "rid \<notin> set pre" and dp: "distinct pre" and sub: "set pre \<subseteq> set late"
        using dl by (auto simp: dec)
      have stb: "state_of ?b = state_of (expire_limits cfg pol now draw 0 pre ?s1)"
        and rab: "raised ?b = raised (expire_limits cfg pol now draw 0 pre ?s1)"
        using e_ok by (simp_all add: seq_simps)
      have lim_b: "map_of (pending_limits (state_of ?b)) rid = Some p"
        and sys_b: "actor_system (state_of ?b)"
        using expire_limits_other [OF np, of cfg pol now draw 0 ?s1] assms(1) sys
        by (simp_all add: stb lim1)
      have r: "raised ?b = None"
        unfolding rab using sub pl dp sys
        by (intro expire_limits_raised [OF vp]) (auto simp: lim1)
      have split: "expire_limits cfg pol now draw 0 late
          = (\<lambda>s'. seq (expire_limits cfg pol now draw 0 pre s')
                     (expire_limits cfg pol now draw (length pre) (rid # post)))"
        by (rule ext) (simp add: dec expire_limits_append)
      have o1: "out = seq ?b (expire_limits cfg pol now draw (length pre) (rid # post))"
        by (simp add: out split seq_assoc)
      have o2: "out = seq ?b (\<lambda>s'. seq (turn s') ?rest)"
        unfolding o1 by (rule seq_cong_state) (simp add: lim_b en turn_def)
      have o3: "out = seq (seq ?b turn) ?rest"
        by (simp add: o2 seq_assoc)
      note te = continued_turn_exact [OF sys_b vp, of p rid now "draw (length pre)"]
      show ?thesis
        apply (rule conjI [OF r])
        apply (subst o3)
        apply (rule arg_cong [where f = "\<lambda>x. seq x ?rest"])
        apply (rule seq_cong_state)
        apply (simp only: turn_def te)
        done
    qed
    done
qed

theorem sweep_of_limit_checks_witness:
  "map_of (pending_limits demo_state) ''L1'' = Some demo_limit
   \<and> 3 - lim_timestamp demo_limit > AUTH_CHECK_TIMEOUT default_settings
   \<and> distinct (map fst (pending_limits demo_state))
   \<and> distinct (map fst (pending_requests demo_state))
   \<and> actor_system demo_state \<and> valid_policy default_settings memory_policy
   \<and> AUTH_FALLBACK_TO_DEMO default_settings
   \<and> expired_ids (AUTH_CHECK_TIMEOUT default_settings) 3 lim_timestamp
        (pending_limits demo_state) = [] @ ''L1'' # []
   \<and> raised (cleanup_expired_requests default_settings memory_policy 3 demo_uuid4 demo_state)
       = None
   \<and> map_of (pending_limits (state_of
        (cleanup_expired_requests default_settings memory_policy 3 demo_uuid4 demo_state)))
        ''L1'' = None
   \<and> effects (cleanup_expired_requests default_settings memory_policy 3 demo_uuid4 demo_state)
       = [LogWarning (LimitCheckTimeout ''42''),
          Send ''perception'' (ANALYZE_EMOTION ''42'' ''hi''),
          AppendEvent (ModeDetectedEvent ''42'' ''expert'' 1 None 3),
          AppendEvent (PromptInclusionEvent ''42'' 1 ''periodic''),
          Send ''memory'' (GET_CONTEXT ''42'' ''u'' 20),
          Send ''ltm'' (GET_LTM_MEMORY ''42'' ''recent'' None 3 ''u'')]
   \<and> objs (state_of
        (cleanup_expired_requests default_settings memory_policy 3 demo_uuid4 demo_state)) 0
       = (new_session 0 ''42'' (Some ''ann''))
           \<lparr>last_mode_change := Some 3, current_mode := ''expert'', mode_confidence := 1,
            mode_history := [''expert''], message_count := 1, last_activity := 3\<rparr>
   \<and> map fst (pending_requests (state_of
        (cleanup_expired_requests default_settings memory_policy 3 demo_uuid4 demo_state)))
       = [''u'']
   \<and> \<not> AUTH_FALLBACK_TO_DEMO (default_settings\<lparr>AUTH_FALLBACK_TO_DEMO := False\<rparr>)
   \<and> state_of (cleanup_expired_requests (default_settings\<lparr>AUTH_FALLBACK_TO_DEMO := False\<rparr>)
        memory_policy 3 demo_uuid4 demo_state) = demo_state\<lparr>pending_limits := []\<rparr>
   \<and> generation_requests (effects
        (cleanup_expired_requests (default_settings\<lparr>AUTH_FALLBACK_TO_DEMO := False\<rparr>)
           memory_policy 3 demo_uuid4 demo_state)) = []"
proof -
  note enabled = sweep_of_limit_checks [where s = demo_state and rid = "''L1''"
      and p = demo_limit and now = 3 and cfg = default_settings and pol = memory_policy
      and draw = demo_uuid4, OF _ _ _ _ refl refl refl]
  note disabled = sweep_of_limit_checks [where s = demo_state and rid = "''L1''"
      and p = demo_limit and now = 3
      and cfg = "default_settings\<lparr>AUTH_FALLBACK_TO_DEMO := False\<rparr>"
      and pol = memory_policy and draw = demo_uuid4, OF _ _ _ _ refl refl refl]
  note turn = enabled [THEN conjunct2, THEN conjunct2, THEN conjunct2, THEN conjunct2,
      THEN conjunct2, THEN spec [of _ "[]"], THEN spec [of _ "[]"]]
  have hyps: "map_of (pending_limits demo_state) ''L1'' = Some demo_limit"
    "3 - lim_timestamp demo_limit > AUTH_CHECK_TIMEOUT default_settings"
    "distinct (map fst (pending_limits demo_state))"
    "distinct (map fst (pending_requests demo_state))"
    "actor_system demo_state" "valid_policy default_settings memory_policy"
    "AUTH_FALLBACK_TO_DEMO default_settings"
    "expired_ids (AUTH_CHECK_TIMEOUT default_settings) 3 lim_timestamp
        (pending_limits demo_state) = [] @ ''L1'' # []"
    by (simp_all add: demo_defs memory_policy_def valid_policy_def valid_modes_def
          expired_demo)
  note t1 = turn [OF hyps(1-4), THEN mp, OF conjI [OF hyps(8) conjI [OF hyps(7) conjI [OF hyps(5,6)]]]]
  have en_out: "cleanup_expired_requests default_settings memory_policy 3 demo_uuid4 demo_state
      = \<lparr>state_of = demo_state
           \<lparr>pending_limits := [],
            objs := (objs demo_state)(0 := (new_session 0 ''42'' (Some ''ann''))
              \<lparr>last_mode_change := Some 3, current_mode := ''expert'', mode_confidence := 1,
               mode_history := [''expert''], message_count := 1, last_activity := 3\<rparr>),
            pending_requests :=
              [(''u'', (new_request 3 True demo_limit
                  ((new_session 0 ''42'' (Some ''ann''))
                     \<lparr>last_mode_change := Some 3, current_mode := ''expert'',
                      mode_confidence := 1, mode_history := [''expert''],
                      message_count := 1, last_activity := 3\<rparr>))
                 \<lparr>expecting_ltm := Some True, stm_received := Some False,
                  ltm_received := Some False, stm_context := PyNone, ltm_memories := PyNone,
                  ltm_search_type := Some ''recent'', ltm_request_timestamp := Some 3\<rparr>)]\<rparr>,
         effects = [LogWarning (LimitCheckTimeout ''42''),
          Send ''perception'' (ANALYZE_EMOTION ''42'' ''hi''),
          AppendEvent (ModeDetectedEvent ''42'' ''expert'' 1 None 3),
          AppendEvent (PromptInclusionEvent ''42'' 1 ''periodic''),
          Send ''memory'' (GET_CONTEXT ''42'' ''u'' 20),
          Send ''ltm'' (GET_LTM_MEMORY ''42'' ''recent'' None 3 ''u'')],
         raised = None\<rparr>"
    using t1 [THEN conjunct2]
    by (simp add: demo_defs memory_policy_def expired_demo seq_def ret_def Let_def
          new_request_def new_session_def append_mode_def previous_mode_def)
  note d1 = disabled [OF hyps(1) _ hyps(3,4), THEN conjunct2, THEN conjunct2, THEN conjunct1]
  have dis: "state_of (cleanup_expired_requests
        (default_settings\<lparr>AUTH_FALLBACK_TO_DEMO := False\<rparr>) memory_policy 3 demo_uuid4
        demo_state) = demo_state\<lparr>pending_limits := []\<rparr>"
    "generation_requests (effects (cleanup_expired_requests
        (default_settings\<lparr>AUTH_FALLBACK_TO_DEMO := False\<rparr>) memory_policy 3 demo_uuid4
        demo_state)) = []"
    using d1 by (simp_all add: demo_defs expired_demo)
  show ?thesis
    using hyps dis by (simp add: en_out)
qed

section \<open>Each record is settled once\<close>

text \<open>
  C2. A context, long-term-memory or embedding reply whose correlation id is missing, empty
  or not in the table of pending generation records, and a limit verdict (not flagged as a
  status or authorisation check) whose id is not in the table of pending limit checks, is
  logged as a warning and ignored: the state is unchanged, nothing else is among the
  effects, no exception is raised. In a run during which \<^verbatim>\<open>uuid4\<close> never yields
  the id \<open>r\<close>, the record of \<open>r\<close> is removed from either table at most once, and once \<open>r\<close>
  is not in a table it is in it at no later state, so that every later reply for \<open>r\<close> is
  such an ignored one. In a run that starts with a table without duplicate ids and in which
  every id drawn is fresh, the generation requests dispatched are no more than the ids whose
  pending generation record the run removes: at most one for each.
\<close>

theorem settled_ids_stay_settled:
  "(find_pending (ctx_request_id c) (pending_requests s) = None \<longrightarrow>
      handle_message cfg pol now uuid (CONTEXT_RESPONSE c) s
        = \<lparr>state_of = s,
           effects = [LogWarning (UnknownRequestId ''CONTEXT_RESPONSE'' (ctx_request_id c))],
           raised = None\<rparr>)
   \<and> (find_pending (ltm_request_id l) (pending_requests s) = None \<longrightarrow>
      handle_message cfg pol now uuid (LTM_RESPONSE l) s
        = \<lparr>state_of = s,
           effects = [LogWarning (UnknownRequestId ''LTM_RESPONSE'' (ltm_request_id l))],
           raised = None\<rparr>)
   \<and> (find_pending (emb_request_id e) (pending_requests s) = None \<longrightarrow>
      handle_message cfg pol now uuid (EMBEDDING_RESPONSE e) s
        = \<lparr>state_of = s,
           effects = [LogWarning (UnknownRequestId ''EMBEDDING_RESPONSE'' (emb_request_id e))],
           raised = None\<rparr>)
   \<and> (\<not> is_status_check v \<and> \<not> is_auth_check v
        \<and> find_pending (lr_request_id v) (pending_limits s) = None \<longrightarrow>
      handle_message cfg pol now uuid (LIMIT_RESPONSE v) s
        = \<lparr>state_of = s,
           effects = [LogWarning (UnknownRequestId ''LIMIT_RESPONSE'' (lr_request_id v))],
           raised = None\<rparr>)
   \<and> (r \<notin> \<Union> (drawn ` set xs) \<longrightarrow>
        removal_count cfg pol request_ids r xs s \<le> 1
        \<and> removal_count cfg pol limit_ids r xs s \<le> 1
        \<and> (r \<notin> request_ids s \<longrightarrow> r \<notin> request_ids (fst (run cfg pol xs s)))
        \<and> (r \<notin> limit_ids s \<longrightarrow> r \<notin> limit_ids (fst (run cfg pol xs s))))
   \<and> (keys_distinct s \<and> fresh_draws (request_ids s) xs \<longrightarrow>
        length (generation_requests (snd (run cfg pol xs s)))
          \<le> card (removed_in_run cfg pol xs s))"
proof -
  have unknown:
    "find_pending (ctx_request_id c) (pending_requests s) = None \<longrightarrow>
      handle_message cfg pol now uuid (CONTEXT_RESPONSE c) s
        = \<lparr>state_of = s,
           effects = [LogWarning (UnknownRequestId ''CONTEXT_RESPONSE'' (ctx_request_id c))],
           raised = None\<rparr>"
    "find_pending (ltm_request_id l) (pending_requests s) = None \<longrightarrow>
      handle_message cfg pol now uuid (LTM_RESPONSE l) s
        = \<lparr>state_of = s,
           effects = [LogWarning (UnknownRequestId ''LTM_RESPONSE'' (ltm_request_id l))],
           raised = None\<rparr>"
    "find_pending (emb_request_id e) (pending_requests s) = None \<longrightarrow>
      handle_message cfg pol now uuid (EMBEDDING_RESPONSE e) s
        = \<lparr>state_of = s,
           effects = [LogWarning (UnknownRequestId ''EMBEDDING_RESPONSE'' (emb_request_id e))],
           raised = None\<rparr>"
    "\<not> is_status_check v \<and> \<not> is_auth_check v
        \<and> find_pending (lr_request_id v) (pending_limits s) = None \<longrightarrow>
      handle_message cfg pol now uuid (LIMIT_RESPONSE v) s
        = \<lparr>state_of = s,
           effects = [LogWarning (UnknownRequestId ''LIMIT_RESPONSE'' (lr_request_id v))],
           raised = None\<rparr>"
    by (simp_all add: handle_context_response_def handle_ltm_response_def
          handle_embedding_response_def handle_limit_response_def emit_def)
  have once: "r \<notin> \<Union> (drawn ` set xs) \<longrightarrow>
        removal_count cfg pol request_ids r xs s \<le> 1
        \<and> removal_count cfg pol limit_ids r xs s \<le> 1
        \<and> (r \<notin> request_ids s \<longrightarrow> r \<notin> request_ids (fst (run cfg pol xs s)))
        \<and> (r \<notin> limit_ids s \<longrightarrow> r \<notin> limit_ids (fst (run cfg pol xs s)))"
    using removal_count_once [of r request_ids cfg pol xs s, OF step_absent_requests]
      removal_count_once [of r limit_ids cfg pol xs s, OF step_absent_limits]
      run_absent [of r request_ids cfg pol s xs, OF step_absent_requests]
      run_absent [of r limit_ids cfg pol s xs, OF step_absent_limits]
    by blast
  have count: "keys_distinct s \<and> fresh_draws (request_ids s) xs \<longrightarrow>
        length (generation_requests (snd (run cfg pol xs s)))
          \<le> card (removed_in_run cfg pol xs s)"
    using run_dispatch [of s "request_ids s" xs cfg pol] by simp
  show ?thesis
    using unknown once count by blast
qed

theorem settled_ids_stay_settled_witness:
  "find_pending (ctx_request_id context_reply) (pending_requests demo_state) = None
   \<and> handle_message default_settings demo_policy 1 ''U1'' (CONTEXT_RESPONSE context_reply)
        demo_state
       = \<lparr>state_of = demo_state,
          effects = [LogWarning (UnknownRequestId ''CONTEXT_RESPONSE''
                                   (ctx_request_id context_reply))],
          raised = None\<rparr>
   \<and> ''R1'' \<notin> \<Union> (drawn ` set replayed)
   \<and> removal_count default_settings demo_policy request_ids ''R1'' replayed
        (join_state (without_embedding demo_request)) \<le> 1
   \<and> keys_distinct (join_state (without_embedding demo_request))
   \<and> fresh_draws (request_ids (join_state (without_embedding demo_request))) replayed
   \<and> length (generation_requests (snd (run default_settings demo_policy replayed
                 (join_state (without_embedding demo_request)))))
       \<le> card (removed_in_run default_settings demo_policy replayed
                 (join_state (without_embedding demo_request)))"
proof -
  have h1: "find_pending (ctx_request_id context_reply) (pending_requests demo_state) = None"
    by (simp add: demo_defs find_pending_def)
  have h2: "''R1'' \<notin> \<Union> (drawn ` set replayed)"
    by (simp add: replayed_def)
  have h3: "keys_distinct (join_state (without_embedding demo_request))"
    by (simp add: keys_distinct_def join_state_def demo_state_def)
  have h4: "fresh_draws (request_ids (join_state (without_embedding demo_request))) replayed"
    by (simp add: replayed_def request_ids_def join_state_def demo_state_def)
  note unknown = settled_ids_stay_settled [where s = demo_state and c = context_reply
      and cfg = default_settings and pol = demo_policy and now = 1 and uuid = "''U1''",
      THEN conjunct1, THEN mp, OF h1]
  note run = settled_ids_stay_settled [where s = "join_state (without_embedding demo_request)"
      and r = "''R1''" and xs = replayed and cfg = default_settings and pol = demo_policy,
      THEN conjunct2, THEN conjunct2, THEN conjunct2, THEN conjunct2]
  note once = run [THEN conjunct1, THEN mp, OF h2, THEN conjunct1]
  note count = run [THEN conjunct2, THEN mp, OF conjI [OF h3 h4]]
  show ?thesis
    using h1 unknown h2 once h3 h4 count by (intro conjI)
qed

section \<open>Verdicts of status and authorisation checks\<close>

text \<open>
  C10. A limit verdict that carries the status-check or the authorisation-check flag is
  skipped: the handler returns at once, with the state as it was (both pending tables, the
  sessions and their objects), no effect and no exception, whatever correlation id the
  verdict carries. A pending limit check with that id is therefore still in its table.
\<close>

theorem status_check_skipped:
  "is_status_check m \<or> is_auth_check m \<Longrightarrow>
     handle_message cfg pol now uuid (LIMIT_RESPONSE m) s
       = \<lparr>state_of = s, effects = [], raised = None\<rparr>"
  by (simp add: handle_limit_response_def ret_def)

theorem status_check_skipped_witness:
  "(is_status_check status_verdict \<or> is_auth_check status_verdict)
   \<and> find_pending (lr_request_id status_verdict) (pending_limits demo_state)
       = Some (''L1'', demo_limit)
   \<and> handle_message default_settings demo_policy 1 ''R1'' (LIMIT_RESPONSE status_verdict)
        demo_state
       = \<lparr>state_of = demo_state, effects = [], raised = None\<rparr>"
  using status_check_skipped [of status_verdict default_settings demo_policy 1 "''R1''" demo_state]
  by (simp add: status_verdict_def demo_state_def find_pending_def)

end
